(* ===== verification/Prelude.thy ===== *)
theory Prelude
  imports Main "HOL-Library.State_Monad" "HOL-Library.Sublist"
begin

text \<open>
  Shared vocabulary of the development: association lists as Go maps, and a small Hoare
  logic for the state monad that the effectful functions of the operator are written in.

  A Go map with string keys is kept as an association list read through \<open>map_of\<close>; writing
  \<open>m[k] = v\<close> is \<open>map_put\<close>. A program is a \<open>state\<close> of \<open>HOL-Library.State_Monad\<close>.
  \<open>triple P m Q\<close> says that a run of \<open>m\<close> from a state with \<open>P\<close> ends with a result and a
  state with \<open>Q\<close>; as every program here is total, this is total correctness.
\<close>

named_theorems triple_intros \<open>structural rules of the Hoare logic\<close>

section \<open>Go maps with string keys\<close>

type_synonym 'v gomap = "(string \<times> 'v) list"

definition map_get :: "'v gomap \<Rightarrow> string \<Rightarrow> 'v option" where
  "map_get m k = map_of m k"

fun map_put :: "string \<Rightarrow> 'v \<Rightarrow> 'v gomap \<Rightarrow> 'v gomap" where
  "map_put k v [] = [(k, v)]"
| "map_put k v ((k', v') # m) = (if k' = k then (k, v) # m else (k', v') # map_put k v m)"

lemma map_get_put [simp]: "map_get (map_put k v m) k' = (if k' = k then Some v else map_get m k')"
  by (induction m) (auto simp: map_get_def)

lemma keys_map_put: "set (map fst (map_put k v m)) = insert k (set (map fst m))"
  by (induction m rule: map_put.induct [of _ k v, simplified]) (auto simp del: set_map)

lemma distinct_keys_put: "distinct (map fst m) \<Longrightarrow> distinct (map fst (map_put k v m))"
proof (induction m)
  case (Cons e m)
  then show ?case using keys_map_put [of k v m] by (cases e) (auto simp del: set_map)
qed simp

lemma map_put_same: "map_get m k = Some v \<Longrightarrow> map_put k v m = m"
  by (induction m) (auto simp: map_get_def split: if_splits)

lemma map_put_put: "map_put k v' (map_put k v m) = map_put k v' m"
  by (induction m) auto

section \<open>Case analysis on results\<close>

text \<open>Case distinctions that a hypothesis keeps as a disjunction.\<close>

lemma sum_case_holds:
  "(case s of Inl a \<Rightarrow> P a | Inr b \<Rightarrow> Q b) \<longleftrightarrow> (\<exists>a. s = Inl a \<and> P a) \<or> (\<exists>b. s = Inr b \<and> Q b)"
  by (cases s) auto

lemma sum_case_eq:
  "x = (case s of Inl a \<Rightarrow> f a | Inr b \<Rightarrow> g b) \<longleftrightarrow>
     (\<exists>a. s = Inl a \<and> x = f a) \<or> (\<exists>b. s = Inr b \<and> x = g b)"
  by (cases s) auto

lemmas sum_cases = sum_case_holds sum_case_eq

section \<open>Hoare triples for the state monad\<close>

definition triple :: "('s \<Rightarrow> bool) \<Rightarrow> ('s, 'a) state \<Rightarrow> ('a \<Rightarrow> 's \<Rightarrow> bool) \<Rightarrow> bool" where
  "triple P m Q \<longleftrightarrow> (\<forall>s. P s \<longrightarrow> (case run_state m s of (a, s') \<Rightarrow> Q a s'))"

lemma tripleI: "(\<And>s a s'. P s \<Longrightarrow> run_state m s = (a, s') \<Longrightarrow> Q a s') \<Longrightarrow> triple P m Q"
  by (auto simp: triple_def split: prod.splits)

lemma tripleD: "triple P m Q \<Longrightarrow> P s \<Longrightarrow> run_state m s = (a, s') \<Longrightarrow> Q a s'"
  by (auto simp: triple_def split: prod.splits)

lemma triple_run:
  "triple P m Q \<Longrightarrow> P s \<Longrightarrow> Q (fst (run_state m s)) (snd (run_state m s))"
  by (auto simp: triple_def split: prod.splits)

lemma triple_return [triple_intros]: "(\<And>s. P s \<Longrightarrow> Q a s) \<Longrightarrow> triple P (State_Monad.return a) Q"
  by (simp add: triple_def)

lemma triple_bind:
  "triple P m R \<Longrightarrow> (\<And>a. triple (R a) (f a) Q) \<Longrightarrow> triple P (State_Monad.bind m f) Q"
  by (fastforce simp: triple_def split: prod.splits)

lemma triple_if [triple_intros]:
  "(b \<Longrightarrow> triple P m Q) \<Longrightarrow> (\<not> b \<Longrightarrow> triple P n Q) \<Longrightarrow> triple P (if b then m else n) Q"
  by simp

lemma triple_sum [triple_intros]:
  "(\<And>e. x = Inl e \<Longrightarrow> triple P (f e) Q) \<Longrightarrow> (\<And>a. x = Inr a \<Longrightarrow> triple P (g a) Q) \<Longrightarrow>
   triple P (case x of Inl e \<Rightarrow> f e | Inr a \<Rightarrow> g a) Q"
  by (cases x) auto

lemma triple_option [triple_intros]:
  "(x = None \<Longrightarrow> triple P m Q) \<Longrightarrow> (\<And>a. x = Some a \<Longrightarrow> triple P (g a) Q) \<Longrightarrow>
   triple P (case x of None \<Rightarrow> m | Some a \<Rightarrow> g a) Q"
  by (cases x) auto

lemma triple_prod [triple_intros]:
  "(\<And>a b. x = (a, b) \<Longrightarrow> triple P (f a b) Q) \<Longrightarrow> triple P (case x of (a, b) \<Rightarrow> f a b) Q"
  by (cases x) auto

lemma triple_let [triple_intros]: "triple P (f x) Q \<Longrightarrow> triple P (let y = x in f y) Q"
  by simp

lemma triple_conseq:
  "triple P m Q \<Longrightarrow> (\<And>s. P' s \<Longrightarrow> P s) \<Longrightarrow> (\<And>a s. Q a s \<Longrightarrow> Q' a s) \<Longrightarrow> triple P' m Q'"
  by (fastforce simp: triple_def split: prod.splits)

lemma triple_pre: "triple P m Q \<Longrightarrow> (\<And>s. P' s \<Longrightarrow> P s) \<Longrightarrow> triple P' m Q"
  by (rule triple_conseq)

lemma triple_post: "triple P m Q \<Longrightarrow> (\<And>a s. Q a s \<Longrightarrow> Q' a s) \<Longrightarrow> triple P m Q'"
  by (rule triple_conseq)

lemma triple_assume: "(b \<Longrightarrow> triple P m Q) \<Longrightarrow> triple (\<lambda>s. b \<and> P s) m Q"
  by (auto simp: triple_def)

end
