(* ===== verification/Go_Numbers.thy ===== *)
theory Go_Numbers
  imports Go_Strings
begin

text \<open>
  Decimal numbers as the operator reads and writes them: \<open>strconv.Itoa\<close> (also what
  \<open>%d\<close> prints), \<open>strconv.Atoi\<close> with its syntax and 64-bit range errors as \<open>None\<close>, and
  the conversion \<open>int32(x)\<close>, which keeps the low 32 bits. A Go \<open>int\<close> is a mathematical
  integer here; \<open>int64_ok\<close> is the range of the 64-bit type.
\<close>

definition int64_ok :: "int \<Rightarrow> bool" where
  "int64_ok i \<longleftrightarrow> - (2 ^ 63) \<le> i \<and> i < 2 ^ 63"

definition to_int32 :: "int \<Rightarrow> int" where
  "to_int32 i = signed_take_bit 31 i"

definition digit_char :: "nat \<Rightarrow> char" where
  "digit_char d = char_of (48 + d)"

definition is_digit :: "char \<Rightarrow> bool" where
  "is_digit c \<longleftrightarrow> 48 \<le> (of_char c :: nat) \<and> (of_char c :: nat) \<le> 57"

definition digit_val :: "char \<Rightarrow> nat" where
  "digit_val c = of_char c - 48"

fun nat_digits :: "nat \<Rightarrow> string" where
  "nat_digits n = (if n < 10 then [digit_char n] else nat_digits (n div 10) @ [digit_char (n mod 10)])"

declare nat_digits.simps [simp del]

definition Itoa :: "int \<Rightarrow> string" where
  "Itoa i = (if i < 0 then CHR ''-'' # nat_digits (nat (- i)) else nat_digits (nat i))"

definition digits_val :: "string \<Rightarrow> nat" where
  "digits_val s = foldl (\<lambda>n c. 10 * n + digit_val c) 0 s"

definition parse_digits :: "string \<Rightarrow> nat option" where
  "parse_digits s = (if s \<noteq> [] \<and> list_all is_digit s then Some (digits_val s) else None)"

definition signed_value :: "string \<Rightarrow> int option" where
  "signed_value s =
     (case s of
        [] \<Rightarrow> None
      | c # t \<Rightarrow>
          if c = CHR ''-'' then map_option (\<lambda>n. - int n) (parse_digits t)
          else if c = CHR ''+'' then map_option int (parse_digits t)
          else map_option int (parse_digits s))"

definition Atoi :: "string \<Rightarrow> int option" where
  "Atoi s =
     (case signed_value s of
        None \<Rightarrow> None
      | Some i \<Rightarrow> if int64_ok i then Some i else None)"

lemma of_digit_char: "d < 10 \<Longrightarrow> (of_char (digit_char d) :: nat) = 48 + d"
  by (simp add: digit_char_def)

lemma is_digit_char [simp]: "d < 10 \<Longrightarrow> is_digit (digit_char d)"
  by (simp add: is_digit_def of_digit_char)

lemma digit_val_char [simp]: "d < 10 \<Longrightarrow> digit_val (digit_char d) = d"
  by (simp add: digit_val_def of_digit_char)

lemma digit_not_sign: "is_digit c \<Longrightarrow> c \<noteq> CHR ''-'' \<and> c \<noteq> CHR ''+''"
  by (auto simp: is_digit_def)

lemma nat_digits_not_Nil [simp]: "nat_digits n \<noteq> []"
  by (subst nat_digits.simps) simp

lemma nat_digits_are_digits: "list_all is_digit (nat_digits n)"
proof (induction n rule: nat_digits.induct)
  case (1 n)
  then show ?case by (subst nat_digits.simps) auto
qed

lemma digits_val_nat_digits: "digits_val (nat_digits n) = n"
proof (induction n rule: nat_digits.induct)
  case (1 n)
  then show ?case
    by (subst nat_digits.simps) (auto simp: digits_val_def)
qed

lemma parse_nat_digits [simp]: "parse_digits (nat_digits n) = Some n"
  by (simp add: parse_digits_def nat_digits_are_digits digits_val_nat_digits)

lemma signed_value_digits: "signed_value (nat_digits n) = Some (int n)"
proof (cases "nat_digits n")
  case (Cons c t)
  then have "is_digit c" using nat_digits_are_digits [of n] by simp
  then show ?thesis
    using Cons digit_not_sign [of c] parse_nat_digits [of n] by (simp add: signed_value_def)
qed simp

lemma signed_value_Itoa: "signed_value (Itoa i) = Some i"
proof (cases "i < 0")
  case True
  then show ?thesis by (simp add: Itoa_def signed_value_def)
next
  case False
  then show ?thesis by (simp add: Itoa_def signed_value_digits)
qed

lemma Atoi_Itoa: "int64_ok i \<Longrightarrow> Atoi (Itoa i) = Some i"
  by (simp add: Atoi_def signed_value_Itoa)

lemma Atoi_range: "Atoi s = Some i \<Longrightarrow> int64_ok i"
  by (auto simp: Atoi_def split: option.splits if_splits)

lemma Itoa_inj: "Itoa i = Itoa j \<Longrightarrow> i = j"
  by (metis option.inject signed_value_Itoa)

text \<open>What a decimal number is: an optional sign and at least one digit.\<close>

definition decimal :: "string \<Rightarrow> int \<Rightarrow> bool" where
  "decimal s i \<longleftrightarrow> (\<exists>sgn ds. s = sgn @ ds \<and> sgn \<in> {[], ''+'', ''-''} \<and> ds \<noteq> [] \<and> list_all is_digit ds \<and>
     i = (if sgn = ''-'' then - int (digits_val ds) else int (digits_val ds)))"

lemma decimal_iff:
  "decimal s i \<longleftrightarrow> (parse_digits s \<noteq> None \<and> i = int (digits_val s)) \<or>
     (\<exists>ds. s = CHR ''+'' # ds \<and> parse_digits ds \<noteq> None \<and> i = int (digits_val ds)) \<or>
     (\<exists>ds. s = CHR ''-'' # ds \<and> parse_digits ds \<noteq> None \<and> i = - int (digits_val ds))"
proof -
  have digits: "parse_digits t \<noteq> None \<longleftrightarrow> t \<noteq> [] \<and> list_all is_digit t" for t by (simp add: parse_digits_def)
  show ?thesis
    unfolding digits
  proof
    assume "decimal s i"
    then obtain sgn ds where "s = sgn @ ds" "ds \<noteq> []" "list_all is_digit ds"
      "i = (if sgn = ''-'' then - int (digits_val ds) else int (digits_val ds))"
      "sgn = [] \<or> sgn = ''+'' \<or> sgn = ''-''"
      unfolding decimal_def by auto
    then show "(s \<noteq> [] \<and> list_all is_digit s) \<and> i = int (digits_val s) \<or>
        (\<exists>ds. s = CHR ''+'' # ds \<and> (ds \<noteq> [] \<and> list_all is_digit ds) \<and> i = int (digits_val ds)) \<or>
        (\<exists>ds. s = CHR ''-'' # ds \<and> (ds \<noteq> [] \<and> list_all is_digit ds) \<and> i = - int (digits_val ds))"
      by (elim disjE) simp_all
  next
    assume "(s \<noteq> [] \<and> list_all is_digit s) \<and> i = int (digits_val s) \<or>
        (\<exists>ds. s = CHR ''+'' # ds \<and> (ds \<noteq> [] \<and> list_all is_digit ds) \<and> i = int (digits_val ds)) \<or>
        (\<exists>ds. s = CHR ''-'' # ds \<and> (ds \<noteq> [] \<and> list_all is_digit ds) \<and> i = - int (digits_val ds))"
    then show "decimal s i"
      unfolding decimal_def
      by (elim disjE exE) (rule exI [of _ "[]"], simp, rule exI [of _ "''+''"], simp, rule exI [of _ "''-''"], simp)
  qed
qed

lemma parse_digits_head: "parse_digits (c # t) \<noteq> None \<Longrightarrow> c \<noteq> CHR ''-'' \<and> c \<noteq> CHR ''+''"
  by (auto simp: parse_digits_def is_digit_def)

lemma parse_digits_val: "parse_digits s = (if parse_digits s \<noteq> None then Some (digits_val s) else None)"
  by (simp add: parse_digits_def)

lemma signed_value_decimal: "signed_value s = Some i \<longleftrightarrow> decimal s i"
proof (cases s)
  case (Cons c t)
  consider "c = CHR ''-''" | "c = CHR ''+''" | "c \<noteq> CHR ''-''" "c \<noteq> CHR ''+''" by blast
  then show ?thesis
  proof cases
    case 1
    then show ?thesis
      using parse_digits_head [of c t] unfolding decimal_iff signed_value_def Cons
      by (subst parse_digits_val) auto
  next
    case 2
    then show ?thesis
      using parse_digits_head [of c t] unfolding decimal_iff signed_value_def Cons
      by (subst parse_digits_val) auto
  next
    case 3
    then show ?thesis
      unfolding decimal_iff signed_value_def Cons by (subst parse_digits_val) auto
  qed
qed (simp add: signed_value_def decimal_iff parse_digits_def)

lemma Atoi_decimal: "Atoi s = Some i \<longleftrightarrow> decimal s i \<and> int64_ok i"
  unfolding signed_value_decimal [symmetric] by (auto simp: Atoi_def split: option.split)

lemma Atoi_no_decimal: "Atoi s = None \<longleftrightarrow> \<not> (\<exists>i. decimal s i \<and> int64_ok i)"
  unfolding Atoi_decimal [symmetric] by (cases "Atoi s") auto

lemma to_int32_small: "- (2 ^ 31) \<le> i \<Longrightarrow> i < 2 ^ 31 \<Longrightarrow> to_int32 i = i"
  unfolding to_int32_def by (rule signed_take_bit_int_eq_self)

end
