(* ===== verification/K8s_Types.thy ===== *)
theory K8s_Types
  imports Go_Numbers
begin

text \<open>
  The Kubernetes API objects the operator reads and builds, restricted to the fields it
  touches. A Go pointer or optional field is an \<open>option\<close>, a Go map an association list, a
  Go slice a list; \<open>nil\<close> and empty slices are identified, as they are on the wire. A time
  is a number of nanoseconds since 1970; a quantity is the text given to
  \<open>resource.MustParse\<close> or found in the object, which the operator never computes with.
\<close>

section \<open>Metadata\<close>

type_synonym time = int

text \<open>Go's zero time, 1 January of year 1, for which \<open>IsZero\<close> holds as for a nil pointer.\<close>

definition go_zero_time :: time where
  "go_zero_time = - 62135596800 * 10 ^ 9"

definition time_is_zero :: "time option \<Rightarrow> bool" where
  "time_is_zero t = (case t of None \<Rightarrow> True | Some x \<Rightarrow> x = go_zero_time)"

definition second :: int where "second = 10 ^ 9"
definition minute :: int where "minute = 60 * second"

record owner_ref =
  or_kind :: string
  or_name :: string
  or_uid :: string
  or_controller :: bool

record object_meta =
  om_name :: string
  om_namespace :: string
  om_uid :: string
  om_labels :: "string gomap"
  om_annotations :: "string gomap"
  om_finalizers :: "string list"
  om_owners :: "owner_ref list"
  om_creation :: time
  om_deletion :: "time option"

definition new_meta :: "string \<Rightarrow> string \<Rightarrow> string gomap \<Rightarrow> object_meta" where
  "new_meta nm ns ls =
     \<lparr>om_name = nm, om_namespace = ns, om_uid = [], om_labels = ls, om_annotations = [],
      om_finalizers = [], om_owners = [], om_creation = go_zero_time, om_deletion = None\<rparr>"

lemma new_meta_sel [simp]:
  "om_name (new_meta nm ns ls) = nm" "om_namespace (new_meta nm ns ls) = ns"
  "om_labels (new_meta nm ns ls) = ls" "om_deletion (new_meta nm ns ls) = None"
  by (simp_all add: new_meta_def)

record namespaced_name =
  nn_name :: string
  nn_namespace :: string

abbreviation key :: "string \<Rightarrow> string \<Rightarrow> namespaced_name" where
  "key nm ns \<equiv> \<lparr>nn_name = nm, nn_namespace = ns\<rparr>"

section \<open>Containers and pods\<close>

datatype int_or_string = FromInt int | FromString string

datatype quantity = Quantity string

type_synonym resource_list = "quantity gomap"

record resources =
  res_limits :: "resource_list option"
  res_requests :: "resource_list option"

datatype pull_policy = PullAlways | PullIfNotPresent | PullNever

datatype probe_handler = HTTPGet string int_or_string | TCPSocket int_or_string

record probe =
  pr_handler :: probe_handler
  pr_initial_delay :: int
  pr_period :: int
  pr_timeout :: int
  pr_success :: int
  pr_failure :: int

record capabilities =
  cap_add :: "string list"
  cap_drop :: "string list"

record security_context =
  sc_run_as_user :: "int option"
  sc_run_as_group :: "int option"
  sc_run_as_non_root :: "bool option"
  sc_privileged :: "bool option"
  sc_allow_escalation :: "bool option"
  sc_capabilities :: "capabilities option"

record volume_mount =
  vm_name :: string
  vm_path :: string
  vm_sub_path :: string

record env_var =
  ev_name :: string
  ev_value :: string

abbreviation env :: "string \<Rightarrow> string \<Rightarrow> env_var" where
  "env n v \<equiv> \<lparr>ev_name = n, ev_value = v\<rparr>"

record container_port =
  cp_name :: string
  cp_port :: int

record container =
  ct_name :: string
  ct_image :: string
  ct_pull_policy :: "pull_policy option"
  ct_restart :: "string option"
  ct_ports :: "container_port list"
  ct_command :: "string list"
  ct_args :: "string list"
  ct_env :: "env_var list"
  ct_resources :: resources
  ct_mounts :: "volume_mount list"
  ct_liveness :: "probe option"
  ct_readiness :: "probe option"
  ct_security :: "security_context option"

definition new_container :: "string \<Rightarrow> string \<Rightarrow> container" where
  "new_container nm img =
     \<lparr>ct_name = nm, ct_image = img, ct_pull_policy = None, ct_restart = None, ct_ports = [],
      ct_command = [], ct_args = [], ct_env = [],
      ct_resources = \<lparr>res_limits = None, res_requests = None\<rparr>, ct_mounts = [],
      ct_liveness = None, ct_readiness = None, ct_security = None\<rparr>"

datatype volume_source =
    EmptyDir string "quantity option"
  | ClaimSource string
  | NFSSource string string
  | HostPathSource string string

record volume =
  vol_name :: string
  vol_source :: volume_source

record pod_security =
  ps_fs_group :: "int option"
  ps_fs_group_policy :: "string option"
  ps_seccomp :: "string option"

record pod_spec =
  sp_service_account :: string
  sp_priority_class :: string
  sp_hostname :: string
  sp_restart_policy :: string
  sp_volumes :: "volume list"
  sp_pull_secrets :: "string list"
  sp_init_containers :: "container list"
  sp_containers :: "container list"
  sp_security :: "pod_security option"

definition empty_pod_spec :: pod_spec where
  "empty_pod_spec =
     \<lparr>sp_service_account = [], sp_priority_class = [], sp_hostname = [], sp_restart_policy = [],
      sp_volumes = [], sp_pull_secrets = [], sp_init_containers = [], sp_containers = [],
      sp_security = None\<rparr>"

record pod_template =
  pt_labels :: "string gomap"
  pt_annotations :: "string gomap"
  pt_spec :: pod_spec

definition empty_template :: pod_template where
  "empty_template = \<lparr>pt_labels = [], pt_annotations = [], pt_spec = empty_pod_spec\<rparr>"

record state_waiting =
  sw_reason :: string
  sw_message :: string

record state_terminated =
  st_exit_code :: int
  st_reason :: string
  st_message :: string

text \<open>\<open>State\<close> holds three pointers, of which the kubelet sets at most one.\<close>

record container_status =
  cs_name :: string
  cs_ready :: bool
  cs_restart_count :: int
  cs_waiting :: "state_waiting option"
  cs_running :: "time option"
  cs_terminated :: "state_terminated option"

record pod =
  pod_meta :: object_meta
  pod_init_statuses :: "container_status list"
  pod_statuses :: "container_status list"

section \<open>Workloads, services and storage\<close>

record deployment_condition =
  dc_type :: string
  dc_status :: string
  dc_reason :: string

record deployment =
  dep_meta :: object_meta
  dep_selector :: "string gomap option"
  dep_template :: pod_template
  dep_conditions :: "deployment_condition list"

record job =
  job_meta :: object_meta
  job_suspend :: "bool option"
  job_ttl :: "int option"
  job_backoff :: "int option"
  job_template :: pod_template
  job_active :: int
  job_succeeded :: int
  job_ready :: "int option"

record service_port =
  spt_name :: string
  spt_protocol :: string
  spt_port :: int
  spt_target :: int_or_string

record service =
  svc_meta :: object_meta
  svc_selector :: "string gomap"
  svc_ports :: "service_port list"
  svc_type :: string

record secret_ref =
  sr_name :: string
  sr_namespace :: string

datatype pv_source =
    CSISource string string "string gomap" "secret_ref option"
  | PVHostPath string string

record persistent_volume =
  pv_meta :: object_meta
  pv_capacity :: resource_list
  pv_access_modes :: "string list"
  pv_reclaim :: string
  pv_storage_class :: string
  pv_source :: pv_source

record volume_claim =
  pvc_meta :: object_meta
  pvc_access_modes :: "string list"
  pvc_requests :: resource_list
  pvc_volume :: string
  pvc_storage_class :: "string option"

record secret =
  sec_meta :: object_meta
  sec_data :: "string gomap"

abbreviation job_name :: "job \<Rightarrow> string" where "job_name j \<equiv> om_name (job_meta j)"
abbreviation job_namespace :: "job \<Rightarrow> string" where "job_namespace j \<equiv> om_namespace (job_meta j)"
abbreviation job_labels :: "job \<Rightarrow> string gomap" where "job_labels j \<equiv> om_labels (job_meta j)"
abbreviation job_spec :: "job \<Rightarrow> pod_spec" where "job_spec j \<equiv> pt_spec (job_template j)"
abbreviation dep_name :: "deployment \<Rightarrow> string" where "dep_name d \<equiv> om_name (dep_meta d)"
abbreviation dep_namespace :: "deployment \<Rightarrow> string" where "dep_namespace d \<equiv> om_namespace (dep_meta d)"
abbreviation dep_spec :: "deployment \<Rightarrow> pod_spec" where "dep_spec d \<equiv> pt_spec (dep_template d)"

text \<open>
  What the API server checks of a pod before it admits it, as far as the operator can
  break it: names of volumes are unique, every mount names a volume of the pod, and the
  mount paths of a container are unique.
\<close>

definition mounts_resolve :: "pod_spec \<Rightarrow> bool" where
  "mounts_resolve p \<longleftrightarrow>
     list_all (\<lambda>c. list_all (\<lambda>m. vm_name m \<in> set (map vol_name (sp_volumes p))) (ct_mounts c))
       (sp_init_containers p @ sp_containers p)"

definition mount_paths_unique :: "pod_spec \<Rightarrow> bool" where
  "mount_paths_unique p \<longleftrightarrow>
     list_all (\<lambda>c. distinct (map vm_path (ct_mounts c))) (sp_init_containers p @ sp_containers p)"

definition pod_spec_ok :: "pod_spec \<Rightarrow> bool" where
  "pod_spec_ok p \<longleftrightarrow>
     distinct (map vol_name (sp_volumes p)) \<and> mounts_resolve p \<and> mount_paths_unique p"

end
