(* ===== verification/Workbench_Types.thy ===== *)
theory Workbench_Types
  imports K8s_Types
begin

text \<open>
  The custom resource \<open>Workbench\<close> of \<open>api/v1alpha1/workbench_types.go\<close> and the operator's
  configuration of \<open>internal/controller/config.go\<close>. A Go string type with named constants
  becomes a datatype whose last constructor \<open>Other...\<close> carries any other string, since Go
  does not close such types; the enumeration the custom resource definition allows is the
  matching \<open>..._valid\<close> predicate. The two maps of the resource are association lists; the order of
  \<open>apps\<close> stands for the order in which one \<open>range\<close> visits the entries, which Go leaves
  open, so every statement about all lists is one about all orders.
\<close>

section \<open>Specification\<close>

datatype app_state = AppRunning | AppStopped | AppKilled | AppStateUnset | OtherAppState string

record server_spec =
  srv_version :: string
  srv_width :: int
  srv_height :: int
  srv_user :: string
  srv_user_id :: int

record image =
  img_registry :: string
  img_repository :: string
  img_tag :: string

record kiosk_config =
  kc_url :: string
  kc_jwt_url :: string
  kc_jwt_token :: string

record storage_config =
  st_s3 :: bool
  st_nfs :: bool
  st_local :: bool

record workbench_app =
  app_name :: string
  app_version :: string
  app_state :: app_state
  app_image :: "image option"
  app_shm_size :: "quantity option"
  app_resources :: "resources option"
  app_kiosk :: "kiosk_config option"

record workbench_spec =
  ws_server :: server_spec
  ws_init_version :: "string option"
  ws_apps :: "workbench_app gomap"
  ws_service_account :: string
  ws_pull_secrets :: "string list"
  ws_storage :: "storage_config option"

section \<open>Status\<close>

datatype app_status =
    AppUnknown | AppRunningStatus | AppComplete | AppProgressing | AppFailed | OtherAppStatus string

datatype server_status =
    ServerRunning | ServerProgressing | ServerFailed | OtherServerStatus string

datatype pod_status =
    PodWaiting | PodStarting | PodReady | PodFailing | PodRestarting | PodTerminating
  | PodTerminated | PodUnknown | OtherPodStatus string

record pod_health =
  ph_status :: pod_status
  ph_ready :: bool
  ph_restart_count :: int
  ph_message :: string

record server_state =
  ss_revision :: int
  ss_status :: server_status
  ss_pod :: "pod_health option"

record app_entry =
  ae_revision :: int
  ae_status :: app_status

record workbench_status =
  wst_server :: server_state
  wst_apps :: "app_entry gomap"

record workbench =
  wb_meta :: object_meta
  wb_spec :: workbench_spec
  wb_status :: workbench_status

text \<open>The zero values of the Go string types and of a status entry missing from the map.\<close>

definition zero_app_status :: app_status where "zero_app_status = OtherAppStatus []"
definition zero_server_status :: server_status where "zero_server_status = OtherServerStatus []"
definition zero_app_entry :: app_entry where
  "zero_app_entry = \<lparr>ae_revision = 0, ae_status = zero_app_status\<rparr>"

definition app_status_valid :: "app_status \<Rightarrow> bool" where
  "app_status_valid s = (case s of OtherAppStatus _ \<Rightarrow> False | _ \<Rightarrow> True)"

definition server_status_valid :: "server_status \<Rightarrow> bool" where
  "server_status_valid s = (case s of OtherServerStatus _ \<Rightarrow> False | _ \<Rightarrow> True)"

abbreviation wb_name :: "workbench \<Rightarrow> string" where "wb_name w \<equiv> om_name (wb_meta w)"
abbreviation wb_namespace :: "workbench \<Rightarrow> string" where "wb_namespace w \<equiv> om_namespace (wb_meta w)"
abbreviation wb_server :: "workbench \<Rightarrow> server_state" where "wb_server w \<equiv> wst_server (wb_status w)"
abbreviation wb_apps :: "workbench \<Rightarrow> workbench_app gomap" where "wb_apps w \<equiv> ws_apps (wb_spec w)"
abbreviation wb_app_entries :: "workbench \<Rightarrow> app_entry gomap" where
  "wb_app_entries w \<equiv> wst_apps (wb_status w)"
abbreviation wb_user :: "workbench \<Rightarrow> string" where "wb_user w \<equiv> srv_user (ws_server (wb_spec w))"

text \<open>Same object and same specification, whatever the status says.\<close>

definition same_spec :: "workbench \<Rightarrow> workbench \<Rightarrow> bool" where
  "same_spec w w' \<longleftrightarrow> wb_meta w' = wb_meta w \<and> wb_spec w' = wb_spec w"

lemma same_spec_refl [simp]: "same_spec w w"
  by (simp add: same_spec_def)

lemma same_spec_trans: "same_spec u v \<Longrightarrow> same_spec v w \<Longrightarrow> same_spec u w"
  by (simp add: same_spec_def)

lemma same_spec_status [simp]: "same_spec w (w\<lparr>wb_status := s\<rparr>)"
  by (simp add: same_spec_def)

section \<open>Configuration of the operator\<close>

record config =
  cfg_registry :: string
  cfg_apps_repository :: string
  cfg_socat_image :: string
  cfg_xpra_image :: string
  cfg_init_image :: string
  cfg_juicefs_secret :: string
  cfg_juicefs_namespace :: string
  cfg_nfs_secret :: string
  cfg_nfs_namespace :: string
  cfg_local_enabled :: bool
  cfg_local_path :: string
  cfg_debug :: bool
  cfg_workbench_priority :: string
  cfg_application_priority :: string

definition finalizer :: string where
  "finalizer = ''default.k8s.chorus-tre.ch/finalizer''"

definition matchingLabel :: string where
  "matchingLabel = ''workbench''"

end
