(* ===== verification/K8s_Client.thy ===== *)
theory K8s_Client
  imports Workbench_Types
begin

text \<open>
  The code the operator calls that is not its own, and the record of a run.

  The API server, the event recorder, the container runtime on the path and the helpers of
  controller-runtime are not part of the repository. They are the fields of one record
  \<open>'w platform\<close>, an argument of every definition that reaches them: each call takes the state
  \<open>'w\<close> of the outside world and returns its answer and the next state, so that failures,
  concurrent writers and the passage of time are all behaviours of some platform. Nothing is
  assumed of it here; what a theorem needs is a named hypothesis of that theorem.

  A run (\<open>'w sys\<close>) pairs that world with the trace of the calls made so far, oldest first,
  each with its answer. The trace is an observation: no definition branches on it.
\<close>

section \<open>Errors\<close>

datatype api_error = NotFound | AlreadyExists | Conflict | OtherApiError string

type_synonym 'a reply = "api_error + 'a"

text \<open>The errors the operator's own functions return, one constructor per place that makes one.\<close>

datatype go_error =
    ApiFailure api_error
  | OwnerFailure string
  | SecretFailure string api_error
  | SecretFieldMissing string string
  | SuspendedJob string
  | ImageCollision string "string list"
  | ImageMissing string
  | NameChanged string string

definition IsNotFound :: "api_error \<Rightarrow> bool" where
  "IsNotFound e \<longleftrightarrow> e = NotFound"

section \<open>Events\<close>

text \<open>A message keeps the format string and the arguments of its \<open>Sprintf\<close>.\<close>

datatype fmt_message = Sprintf string "string list"

record kube_event =
  ke_type :: string
  ke_reason :: string
  ke_message :: fmt_message

section \<open>Calls\<close>

datatype call =
    GotWorkbench namespaced_name "workbench reply"
  | GotDeployment namespaced_name "deployment reply"
  | GotService namespaced_name "service reply"
  | GotJob namespaced_name "job reply"
  | GotPV string "persistent_volume reply"
  | GotPVC namespaced_name "volume_claim reply"
  | GotSecret namespaced_name "secret reply"
  | GotCSIDriver string "unit reply"
  | ListedPods string "string gomap" "pod list reply"
  | ListedJobs "string gomap" "job list reply"
  | ListedDeployments "string gomap" "deployment list reply"
  | CreatedDeployment deployment "deployment reply"
  | CreatedService service "unit reply"
  | CreatedJob job "unit reply"
  | CreatedPV persistent_volume "unit reply"
  | CreatedPVC volume_claim "unit reply"
  | UpdatedWorkbench workbench "workbench reply"
  | UpdatedStatus workbench "workbench reply"
  | UpdatedDeployment deployment "unit reply"
  | UpdatedJob job "unit reply"
  | DeletedJob job "unit reply"
  | DeletedAllJobs string "string gomap" "unit reply"
  | DeletedAllDeployments string "string gomap" "unit reply"
  | Recorded kube_event
  | RanCommand "string list" "string option"

record 'w platform =
  pf_get_workbench :: "namespaced_name \<Rightarrow> 'w \<Rightarrow> workbench reply \<times> 'w"
  pf_get_deployment :: "namespaced_name \<Rightarrow> 'w \<Rightarrow> deployment reply \<times> 'w"
  pf_get_service :: "namespaced_name \<Rightarrow> 'w \<Rightarrow> service reply \<times> 'w"
  pf_get_job :: "namespaced_name \<Rightarrow> 'w \<Rightarrow> job reply \<times> 'w"
  pf_get_pv :: "string \<Rightarrow> 'w \<Rightarrow> persistent_volume reply \<times> 'w"
  pf_get_pvc :: "namespaced_name \<Rightarrow> 'w \<Rightarrow> volume_claim reply \<times> 'w"
  pf_get_secret :: "namespaced_name \<Rightarrow> 'w \<Rightarrow> secret reply \<times> 'w"
  pf_get_csi_driver :: "string \<Rightarrow> 'w \<Rightarrow> unit reply \<times> 'w"
  pf_list_pods :: "string \<Rightarrow> string gomap \<Rightarrow> 'w \<Rightarrow> pod list reply \<times> 'w"
  pf_list_jobs :: "string gomap \<Rightarrow> 'w \<Rightarrow> job list reply \<times> 'w"
  pf_list_deployments :: "string gomap \<Rightarrow> 'w \<Rightarrow> deployment list reply \<times> 'w"
  pf_create_deployment :: "deployment \<Rightarrow> 'w \<Rightarrow> deployment reply \<times> 'w"
  pf_create_service :: "service \<Rightarrow> 'w \<Rightarrow> unit reply \<times> 'w"
  pf_create_job :: "job \<Rightarrow> 'w \<Rightarrow> unit reply \<times> 'w"
  pf_create_pv :: "persistent_volume \<Rightarrow> 'w \<Rightarrow> unit reply \<times> 'w"
  pf_create_pvc :: "volume_claim \<Rightarrow> 'w \<Rightarrow> unit reply \<times> 'w"
  pf_update_workbench :: "workbench \<Rightarrow> 'w \<Rightarrow> workbench reply \<times> 'w"
  pf_update_status :: "workbench \<Rightarrow> 'w \<Rightarrow> workbench reply \<times> 'w"
  pf_update_deployment :: "deployment \<Rightarrow> 'w \<Rightarrow> unit reply \<times> 'w"
  pf_update_job :: "job \<Rightarrow> 'w \<Rightarrow> unit reply \<times> 'w"
  pf_delete_job :: "job \<Rightarrow> 'w \<Rightarrow> unit reply \<times> 'w"
  pf_delete_all_jobs :: "string \<Rightarrow> string gomap \<Rightarrow> 'w \<Rightarrow> unit reply \<times> 'w"
  pf_delete_all_deployments :: "string \<Rightarrow> string gomap \<Rightarrow> 'w \<Rightarrow> unit reply \<times> 'w"
  pf_record_event :: "kube_event \<Rightarrow> 'w \<Rightarrow> 'w"
  pf_look_path :: "string \<Rightarrow> 'w \<Rightarrow> string option"
  pf_run_command :: "string list \<Rightarrow> 'w \<Rightarrow> string option \<times> 'w"
  pf_now :: "'w \<Rightarrow> time"
  pf_contains_finalizer :: "string list \<Rightarrow> string \<Rightarrow> bool"
  pf_add_finalizer :: "string list \<Rightarrow> string \<Rightarrow> bool \<times> string list"
  pf_remove_finalizer :: "string list \<Rightarrow> string \<Rightarrow> bool \<times> string list"
  pf_set_controller :: "workbench \<Rightarrow> object_meta \<Rightarrow> string + object_meta"

section \<open>Runs\<close>

record 'w sys =
  sys_world :: 'w
  sys_trace :: "call list"

type_synonym ('w, 'a) prog = "('w sys, 'a) state"

definition perform :: "('w \<Rightarrow> 'a \<times> 'w) \<Rightarrow> ('a \<Rightarrow> call) \<Rightarrow> ('w, 'a) prog" where
  "perform f c = State (\<lambda>s. case f (sys_world s) of (a, w) \<Rightarrow>
     (a, \<lparr>sys_world = w, sys_trace = sys_trace s @ [c a]\<rparr>))"

text \<open>Reading the outside world without a call: the clock and the search path.\<close>

definition observe :: "('w \<Rightarrow> 'a) \<Rightarrow> ('w, 'a) prog" where
  "observe f = State (\<lambda>s. (f (sys_world s), s))"

definition start :: "'w \<Rightarrow> 'w sys" where
  "start w = \<lparr>sys_world = w, sys_trace = []\<rparr>"

lemma run_perform [simp]:
  "run_state (perform f c) s =
     (fst (f (sys_world s)),
      \<lparr>sys_world = snd (f (sys_world s)), sys_trace = sys_trace s @ [c (fst (f (sys_world s)))]\<rparr>)"
  by (simp add: perform_def split: prod.split)

lemma run_observe [simp]: "run_state (observe f) s = (f (sys_world s), s)"
  by (simp add: observe_def)

lemma start_sel [simp]: "sys_world (start w) = w" "sys_trace (start w) = []"
  by (simp_all add: start_def)

text \<open>The calls and the result of a run from a world.\<close>

abbreviation calls_of :: "('w, 'a) prog \<Rightarrow> 'w \<Rightarrow> call list" where
  "calls_of m w \<equiv> sys_trace (snd (run_state m (start w)))"

abbreviation result_of :: "('w, 'a) prog \<Rightarrow> 'w \<Rightarrow> 'a" where
  "result_of m w \<equiv> fst (run_state m (start w))"

section \<open>What a program calls\<close>

text \<open>
  \<open>emits m Q\<close>: whatever the platform answers, a run of \<open>m\<close> only appends to the trace, and
  \<open>Q\<close> holds of the result and of the calls appended. It needs no hypothesis on the platform.
\<close>

definition emits :: "('w, 'a) prog \<Rightarrow> ('a \<Rightarrow> call list \<Rightarrow> bool) \<Rightarrow> bool" where
  "emits m Q \<longleftrightarrow> (\<forall>s. \<exists>cs. sys_trace (snd (run_state m s)) = sys_trace s @ cs \<and> Q (fst (run_state m s)) cs)"

named_theorems emits_intros \<open>structural rules for what a program calls\<close>

lemma emits_start: "emits m Q \<Longrightarrow> Q (fst (run_state m (start w))) (sys_trace (snd (run_state m (start w))))"
  unfolding emits_def by (metis append_Nil start_sel(2))

lemma emitsD:
  "emits m Q \<Longrightarrow> \<exists>cs. sys_trace (snd (run_state m s)) = sys_trace s @ cs \<and> Q (fst (run_state m s)) cs"
  by (simp add: emits_def)

lemma emits_return [emits_intros]: "Q a [] \<Longrightarrow> emits (State_Monad.return a) Q"
  by (simp add: emits_def)

lemma emits_return_iff [simp]: "emits (State_Monad.return a) Q \<longleftrightarrow> Q a []"
  by (simp add: emits_def)

lemma emits_perform [emits_intros]: "(\<And>a. Q a [c a]) \<Longrightarrow> emits (perform f c) Q"
  by (simp add: emits_def)

text \<open>For hypotheses about the platform: the answer is one the platform can give.\<close>

lemma emits_perform_of: "(\<And>x. Q (fst (f x)) [c (fst (f x))]) \<Longrightarrow> emits (perform f c) Q"
  by (simp add: emits_def)

lemma emits_observe [emits_intros]: "(\<And>a. Q a []) \<Longrightarrow> emits (observe f) Q"
  by (simp add: emits_def)

lemma emits_bind:
  assumes "emits m R" and "\<And>a cs. R a cs \<Longrightarrow> emits (f a) (\<lambda>b ds. Q b (cs @ ds))"
  shows "emits (State_Monad.bind m f) Q"
  unfolding emits_def
proof
  fix s
  obtain a s' where m: "run_state m s = (a, s')" by fastforce
  obtain cs where cs: "sys_trace s' = sys_trace s @ cs" "R a cs"
    using emitsD [OF assms(1), of s] m by auto
  obtain ds where "sys_trace (snd (run_state (f a) s')) = sys_trace s' @ ds"
    "Q (fst (run_state (f a) s')) (cs @ ds)"
    using emitsD [OF assms(2) [OF cs(2)], of s'] by auto
  then show "\<exists>es. sys_trace (snd (run_state (State_Monad.bind m f) s)) = sys_trace s @ es \<and>
      Q (fst (run_state (State_Monad.bind m f) s)) es"
    using m cs by auto
qed

lemma emits_post: "emits m R \<Longrightarrow> (\<And>a cs. R a cs \<Longrightarrow> Q a cs) \<Longrightarrow> emits m Q"
  unfolding emits_def by blast

lemma emits_conj: "emits m Q \<Longrightarrow> emits m R \<Longrightarrow> emits m (\<lambda>x cs. Q x cs \<and> R x cs)"
  unfolding emits_def by (metis same_append_eq)

lemma emits_if [emits_intros]:
  "(b \<Longrightarrow> emits m Q) \<Longrightarrow> (\<not> b \<Longrightarrow> emits n Q) \<Longrightarrow> emits (if b then m else n) Q"
  by simp

lemma emits_sum [emits_intros]:
  "(\<And>e. x = Inl e \<Longrightarrow> emits (f e) Q) \<Longrightarrow> (\<And>a. x = Inr a \<Longrightarrow> emits (g a) Q) \<Longrightarrow>
   emits (case x of Inl e \<Rightarrow> f e | Inr a \<Rightarrow> g a) Q"
  by (cases x) auto

lemma emits_option [emits_intros]:
  "(x = None \<Longrightarrow> emits m Q) \<Longrightarrow> (\<And>a. x = Some a \<Longrightarrow> emits (g a) Q) \<Longrightarrow>
   emits (case x of None \<Rightarrow> m | Some a \<Rightarrow> g a) Q"
  by (cases x) auto

lemma emits_prod [emits_intros]:
  "(\<And>a b. x = (a, b) \<Longrightarrow> emits (f a b) Q) \<Longrightarrow> emits (case x of (a, b) \<Rightarrow> f a b) Q"
  by (cases x) auto

lemma emits_let [emits_intros]: "emits (f x) Q \<Longrightarrow> emits (let y = x in f y) Q"
  by simp

text \<open>The special case of a property of each call by itself.\<close>

definition only_calls :: "(call \<Rightarrow> bool) \<Rightarrow> ('w, 'a) prog \<Rightarrow> bool" where
  "only_calls P m = emits m (\<lambda>_ cs. list_all P cs)"

named_theorems only_intros \<open>structural rules for the kinds of calls a program makes\<close>

lemma only_calls_bind [only_intros]:
  "only_calls P m \<Longrightarrow> (\<And>a. only_calls P (f a)) \<Longrightarrow> only_calls P (State_Monad.bind m f)"
  unfolding only_calls_def
  by (rule emits_bind, assumption, rule emits_post, assumption) simp

lemma only_calls_return [only_intros]: "only_calls P (State_Monad.return a)"
  by (simp add: only_calls_def emits_return)

lemma only_calls_perform [only_intros]: "(\<And>a. P (c a)) \<Longrightarrow> only_calls P (perform f c)"
  by (simp add: only_calls_def emits_perform)

lemma only_calls_observe [only_intros]: "only_calls P (observe f)"
  by (simp add: only_calls_def emits_observe)

lemma only_calls_if [only_intros]:
  "(b \<Longrightarrow> only_calls P m) \<Longrightarrow> (\<not> b \<Longrightarrow> only_calls P n) \<Longrightarrow> only_calls P (if b then m else n)"
  by simp

lemma only_calls_sum [only_intros]:
  "(\<And>e. only_calls P (f e)) \<Longrightarrow> (\<And>a. only_calls P (g a)) \<Longrightarrow>
   only_calls P (case x of Inl e \<Rightarrow> f e | Inr a \<Rightarrow> g a)"
  by (cases x) auto

lemma only_calls_option [only_intros]:
  "only_calls P m \<Longrightarrow> (\<And>a. only_calls P (g a)) \<Longrightarrow>
   only_calls P (case x of None \<Rightarrow> m | Some a \<Rightarrow> g a)"
  by (cases x) auto

lemma only_calls_prod [only_intros]:
  "(\<And>a b. only_calls P (f a b)) \<Longrightarrow> only_calls P (case x of (a, b) \<Rightarrow> f a b)"
  by (cases x) auto

lemma only_calls_let [only_intros]: "only_calls P (f x) \<Longrightarrow> only_calls P (let y = x in f y)"
  by simp

lemma only_calls_mono: "only_calls P m \<Longrightarrow> (\<And>c. P c \<Longrightarrow> Q c) \<Longrightarrow> only_calls Q m"
  unfolding only_calls_def by (rule emits_post, assumption) (auto simp: list_all_iff)

lemma only_calls_start: "only_calls P m \<Longrightarrow> list_all P (sys_trace (snd (run_state m (start w))))"
  unfolding only_calls_def by (rule emits_start)

section \<open>The operator's calls\<close>

text \<open>The controller of \<open>WorkbenchReconciler\<close>: client, recorder (\<open>nil\<close> or not) and configuration.\<close>

record 'w reconciler =
  rc_platform :: "'w platform"
  rc_has_recorder :: bool
  rc_config :: config

definition GetWorkbench :: "'w reconciler \<Rightarrow> namespaced_name \<Rightarrow> ('w, workbench reply) prog" where
  "GetWorkbench r k = perform (pf_get_workbench (rc_platform r) k) (GotWorkbench k)"
definition GetDeployment :: "'w reconciler \<Rightarrow> namespaced_name \<Rightarrow> ('w, deployment reply) prog" where
  "GetDeployment r k = perform (pf_get_deployment (rc_platform r) k) (GotDeployment k)"
definition GetService :: "'w reconciler \<Rightarrow> namespaced_name \<Rightarrow> ('w, service reply) prog" where
  "GetService r k = perform (pf_get_service (rc_platform r) k) (GotService k)"
definition GetJob :: "'w reconciler \<Rightarrow> namespaced_name \<Rightarrow> ('w, job reply) prog" where
  "GetJob r k = perform (pf_get_job (rc_platform r) k) (GotJob k)"
definition GetPV :: "'w reconciler \<Rightarrow> string \<Rightarrow> ('w, persistent_volume reply) prog" where
  "GetPV r k = perform (pf_get_pv (rc_platform r) k) (GotPV k)"
definition GetPVC :: "'w reconciler \<Rightarrow> namespaced_name \<Rightarrow> ('w, volume_claim reply) prog" where
  "GetPVC r k = perform (pf_get_pvc (rc_platform r) k) (GotPVC k)"
definition GetSecret :: "'w reconciler \<Rightarrow> namespaced_name \<Rightarrow> ('w, secret reply) prog" where
  "GetSecret r k = perform (pf_get_secret (rc_platform r) k) (GotSecret k)"
definition GetCSIDriver :: "'w reconciler \<Rightarrow> string \<Rightarrow> ('w, unit reply) prog" where
  "GetCSIDriver r k = perform (pf_get_csi_driver (rc_platform r) k) (GotCSIDriver k)"
definition ListPods :: "'w reconciler \<Rightarrow> string \<Rightarrow> string gomap \<Rightarrow> ('w, pod list reply) prog" where
  "ListPods r ns ls = perform (pf_list_pods (rc_platform r) ns ls) (ListedPods ns ls)"
definition ListJobs :: "'w reconciler \<Rightarrow> string gomap \<Rightarrow> ('w, job list reply) prog" where
  "ListJobs r ls = perform (pf_list_jobs (rc_platform r) ls) (ListedJobs ls)"
definition ListDeployments :: "'w reconciler \<Rightarrow> string gomap \<Rightarrow> ('w, deployment list reply) prog" where
  "ListDeployments r ls = perform (pf_list_deployments (rc_platform r) ls) (ListedDeployments ls)"
definition CreateDeployment :: "'w reconciler \<Rightarrow> deployment \<Rightarrow> ('w, deployment reply) prog" where
  "CreateDeployment r d = perform (pf_create_deployment (rc_platform r) d) (CreatedDeployment d)"
definition CreateService :: "'w reconciler \<Rightarrow> service \<Rightarrow> ('w, unit reply) prog" where
  "CreateService r x = perform (pf_create_service (rc_platform r) x) (CreatedService x)"
definition CreateJob :: "'w reconciler \<Rightarrow> job \<Rightarrow> ('w, unit reply) prog" where
  "CreateJob r j = perform (pf_create_job (rc_platform r) j) (CreatedJob j)"
definition CreatePersistentVolume :: "'w reconciler \<Rightarrow> persistent_volume \<Rightarrow> ('w, unit reply) prog" where
  "CreatePersistentVolume r v = perform (pf_create_pv (rc_platform r) v) (CreatedPV v)"
definition CreateClaim :: "'w reconciler \<Rightarrow> volume_claim \<Rightarrow> ('w, unit reply) prog" where
  "CreateClaim r v = perform (pf_create_pvc (rc_platform r) v) (CreatedPVC v)"
definition UpdateWorkbench :: "'w reconciler \<Rightarrow> workbench \<Rightarrow> ('w, workbench reply) prog" where
  "UpdateWorkbench r w = perform (pf_update_workbench (rc_platform r) w) (UpdatedWorkbench w)"
definition UpdateStatus :: "'w reconciler \<Rightarrow> workbench \<Rightarrow> ('w, workbench reply) prog" where
  "UpdateStatus r w = perform (pf_update_status (rc_platform r) w) (UpdatedStatus w)"
definition UpdateDeployment :: "'w reconciler \<Rightarrow> deployment \<Rightarrow> ('w, unit reply) prog" where
  "UpdateDeployment r d = perform (pf_update_deployment (rc_platform r) d) (UpdatedDeployment d)"
definition UpdateJob :: "'w reconciler \<Rightarrow> job \<Rightarrow> ('w, unit reply) prog" where
  "UpdateJob r j = perform (pf_update_job (rc_platform r) j) (UpdatedJob j)"
definition DeleteJob :: "'w reconciler \<Rightarrow> job \<Rightarrow> ('w, unit reply) prog" where
  "DeleteJob r j = perform (pf_delete_job (rc_platform r) j) (DeletedJob j)"
definition DeleteAllJobs :: "'w reconciler \<Rightarrow> string \<Rightarrow> string gomap \<Rightarrow> ('w, unit reply) prog" where
  "DeleteAllJobs r ns ls = perform (pf_delete_all_jobs (rc_platform r) ns ls) (DeletedAllJobs ns ls)"
definition DeleteAllDeployments :: "'w reconciler \<Rightarrow> string \<Rightarrow> string gomap \<Rightarrow> ('w, unit reply) prog" where
  "DeleteAllDeployments r ns ls =
     perform (pf_delete_all_deployments (rc_platform r) ns ls) (DeletedAllDeployments ns ls)"
definition RecordEvent :: "'w reconciler \<Rightarrow> kube_event \<Rightarrow> ('w, unit) prog" where
  "RecordEvent r e = perform (\<lambda>w. ((), pf_record_event (rc_platform r) e w)) (\<lambda>_. Recorded e)"
definition LookPath :: "'w reconciler \<Rightarrow> string \<Rightarrow> ('w, string option) prog" where
  "LookPath r f = observe (pf_look_path (rc_platform r) f)"
definition RunCommand :: "'w reconciler \<Rightarrow> string list \<Rightarrow> ('w, string option) prog" where
  "RunCommand r argv = perform (pf_run_command (rc_platform r) argv) (RanCommand argv)"
definition Now :: "'w reconciler \<Rightarrow> ('w, time) prog" where
  "Now r = observe (pf_now (rc_platform r))"

lemmas client_defs =
  GetWorkbench_def GetDeployment_def GetService_def GetJob_def GetPV_def GetPVC_def GetSecret_def
  GetCSIDriver_def ListPods_def ListJobs_def ListDeployments_def CreateDeployment_def
  CreateService_def CreateJob_def CreatePersistentVolume_def CreateClaim_def UpdateWorkbench_def
  UpdateStatus_def UpdateDeployment_def UpdateJob_def DeleteJob_def DeleteAllJobs_def
  DeleteAllDeployments_def RecordEvent_def LookPath_def RunCommand_def Now_def

text \<open>
  The documented behaviour of controller-runtime's finalizer helpers, as a hypothesis of the
  theorems that need it.
\<close>

definition finalizer_laws :: "'w platform \<Rightarrow> bool" where
  "finalizer_laws p \<longleftrightarrow>
     (\<forall>l f. (pf_contains_finalizer p l f \<longleftrightarrow> f \<in> set l) \<and>
            (fst (pf_add_finalizer p l f) \<longleftrightarrow> f \<notin> set l) \<and>
            set (snd (pf_add_finalizer p l f)) = insert f (set l) \<and>
            (fst (pf_remove_finalizer p l f) \<longleftrightarrow> f \<in> set l) \<and>
            set (snd (pf_remove_finalizer p l f)) = set l - {f})"

text \<open>
  \<open>SetControllerReference\<close> adds an owner reference and changes nothing else the operator
  looks at; an update of a workbench or of its status that succeeds returns the object that was
  sent, as the API server rejects it with a conflict when the object has changed meanwhile.
\<close>

definition owner_laws :: "'w platform \<Rightarrow> bool" where
  "owner_laws p \<longleftrightarrow>
     (\<forall>w m m'. pf_set_controller p w m = Inr m' \<longrightarrow>
        om_name m' = om_name m \<and> om_namespace m' = om_namespace m \<and> om_labels m' = om_labels m)"

definition update_laws :: "'w platform \<Rightarrow> bool" where
  "update_laws p \<longleftrightarrow>
     (\<forall>w x w'. fst (pf_update_workbench p w x) = Inr w' \<longrightarrow>
        wb_name w' = wb_name w \<and> wb_namespace w' = wb_namespace w \<and> wb_spec w' = wb_spec w)"

definition status_laws :: "'w platform \<Rightarrow> bool" where
  "status_laws p \<longleftrightarrow>
     (\<forall>w x w'. fst (pf_update_status p w x) = Inr w' \<longrightarrow>
        wb_name w' = wb_name w \<and> wb_namespace w' = wb_namespace w \<and> wb_spec w' = wb_spec w)"

section \<open>Keys and label selectors\<close>

definition at_key :: "namespaced_name \<Rightarrow> object_meta \<Rightarrow> bool" where
  "at_key k m \<longleftrightarrow> om_name m = nn_name k \<and> om_namespace m = nn_namespace k"

definition key_of :: "object_meta \<Rightarrow> namespaced_name" where
  "key_of m = key (om_name m) (om_namespace m)"

definition has_labels :: "string gomap \<Rightarrow> object_meta \<Rightarrow> bool" where
  "has_labels ls m \<longleftrightarrow> list_all (\<lambda>(l, v). map_get (om_labels m) l = Some v) ls"

definition matches_all :: "string \<Rightarrow> string gomap \<Rightarrow> object_meta \<Rightarrow> bool" where
  "matches_all ns ls m \<longleftrightarrow> om_namespace m = ns \<and> has_labels ls m"

text \<open>
  What an API server does with the calls of a deletion, over the part of the world that
  matters to it: listing selects by label in all namespaces, deleting a collection selects by
  label in one namespace, events change no object, and an object that is being deleted goes
  away once an update leaves it without finalizers.
\<close>

record 'w view =
  vw_workbench :: "'w \<Rightarrow> namespaced_name \<Rightarrow> workbench reply"
  vw_jobs :: "'w \<Rightarrow> job list"
  vw_deployments :: "'w \<Rightarrow> deployment list"

definition same_view :: "'w view \<Rightarrow> 'w \<Rightarrow> 'w \<Rightarrow> bool" where
  "same_view v x y \<longleftrightarrow> vw_workbench v y = vw_workbench v x \<and> vw_jobs v y = vw_jobs v x \<and>
     vw_deployments v y = vw_deployments v x"

definition listing_laws :: "'w platform \<Rightarrow> 'w view \<Rightarrow> bool" where
  "listing_laws p v \<longleftrightarrow>
     (\<forall>k x. pf_get_workbench p k x = (vw_workbench v x k, x)) \<and>
     (\<forall>ls x. pf_list_jobs p ls x = (Inr (filter (\<lambda>j. has_labels ls (job_meta j)) (vw_jobs v x)), x)) \<and>
     (\<forall>ls x. pf_list_deployments p ls x =
        (Inr (filter (\<lambda>d. has_labels ls (dep_meta d)) (vw_deployments v x)), x)) \<and>
     (\<forall>e x. same_view v x (pf_record_event p e x))"

definition collection_laws :: "'w platform \<Rightarrow> 'w view \<Rightarrow> bool" where
  "collection_laws p v \<longleftrightarrow>
     (\<forall>ns ls x. \<exists>x'. pf_delete_all_jobs p ns ls x = (Inr (), x') \<and>
        vw_jobs v x' = filter (\<lambda>j. \<not> matches_all ns ls (job_meta j)) (vw_jobs v x) \<and>
        vw_deployments v x' = vw_deployments v x \<and> vw_workbench v x' = vw_workbench v x) \<and>
     (\<forall>ns ls x. \<exists>x'. pf_delete_all_deployments p ns ls x = (Inr (), x') \<and>
        vw_deployments v x' = filter (\<lambda>d. \<not> matches_all ns ls (dep_meta d)) (vw_deployments v x) \<and>
        vw_jobs v x' = vw_jobs v x \<and> vw_workbench v x' = vw_workbench v x)"

definition release_laws :: "'w platform \<Rightarrow> 'w view \<Rightarrow> bool" where
  "release_laws p v \<longleftrightarrow>
     (\<forall>w x w0. om_finalizers (wb_meta w) = [] \<longrightarrow> om_deletion (wb_meta w) \<noteq> None \<longrightarrow>
        vw_workbench v x (key_of (wb_meta w)) = Inr w0 \<longrightarrow>
        (\<exists>x'. pf_update_workbench p w x = (Inr w, x') \<and>
           vw_workbench v x' (key_of (wb_meta w)) = Inl NotFound \<and>
           vw_jobs v x' = vw_jobs v x \<and> vw_deployments v x' = vw_deployments v x))"

definition deletion_laws :: "'w platform \<Rightarrow> 'w view \<Rightarrow> bool" where
  "deletion_laws p v \<longleftrightarrow> listing_laws p v \<and> collection_laws p v \<and> release_laws p v"

section \<open>Kinds of calls and their order\<close>

definition is_job_write :: "call \<Rightarrow> bool" where
  "is_job_write c = (case c of CreatedJob _ _ \<Rightarrow> True | UpdatedJob _ _ \<Rightarrow> True
     | DeletedJob _ _ \<Rightarrow> True | DeletedAllJobs _ _ _ \<Rightarrow> True | _ \<Rightarrow> False)"

definition is_create :: "call \<Rightarrow> bool" where
  "is_create c = (case c of CreatedDeployment _ _ \<Rightarrow> True | CreatedService _ _ \<Rightarrow> True
     | CreatedJob _ _ \<Rightarrow> True | CreatedPV _ _ \<Rightarrow> True | CreatedPVC _ _ \<Rightarrow> True | _ \<Rightarrow> False)"

definition is_delete :: "call \<Rightarrow> bool" where
  "is_delete c = (case c of DeletedJob _ _ \<Rightarrow> True | DeletedAllJobs _ _ _ \<Rightarrow> True
     | DeletedAllDeployments _ _ _ \<Rightarrow> True | _ \<Rightarrow> False)"

definition is_update :: "call \<Rightarrow> bool" where
  "is_update c = (case c of UpdatedWorkbench _ _ \<Rightarrow> True | UpdatedStatus _ _ \<Rightarrow> True
     | UpdatedDeployment _ _ \<Rightarrow> True | UpdatedJob _ _ \<Rightarrow> True | _ \<Rightarrow> False)"

definition is_write :: "call \<Rightarrow> bool" where
  "is_write c \<longleftrightarrow> is_create c \<or> is_delete c \<or> is_update c"

lemmas call_kind_defs = is_job_write_def is_create_def is_delete_def is_update_def is_write_def

text \<open>\<open>preceded A B cs\<close>: every call of kind \<open>A\<close> comes after some call of kind \<open>B\<close>.\<close>

fun preceded :: "(call \<Rightarrow> bool) \<Rightarrow> (call \<Rightarrow> bool) \<Rightarrow> call list \<Rightarrow> bool" where
  "preceded A B [] = True"
| "preceded A B (c # cs) = (\<not> A c \<and> (B c \<or> preceded A B cs))"

lemma preceded_append [simp]:
  "preceded A B (xs @ ys) \<longleftrightarrow> preceded A B xs \<and> (list_ex B xs \<or> preceded A B ys)"
  by (induction xs) auto

lemma preceded_none: "list_all (\<lambda>c. \<not> A c) cs \<Longrightarrow> preceded A B cs"
  by (induction cs) auto

lemma preceded_split:
  "preceded A B (xs @ c # ys) \<Longrightarrow> A c \<Longrightarrow> \<exists>d \<in> set xs. B d"
  by (auto simp: list_ex_iff)

end
