(* ===== verification/Storage_Providers.thy ===== *)
theory Storage_Providers
  imports K8s_Client
begin

text \<open>
  The storage providers: the interface \<open>StorageProvider\<close> and \<open>BaseProvider\<close> of
  \<open>internal/controller/storage.go\<close>, and its three implementations in \<open>storage_s3.go\<close>,
  \<open>storage_nfs.go\<close> and \<open>storage_local.go\<close>. Embedding becomes a datatype of three
  constructors around the base record; a method that a provider overrides is a function of its own,
  the others are the base's, and the interface methods dispatch on the constructor. The
  pointer to the reconciler that each provider holds is the argument \<open>r\<close>.
\<close>

section \<open>Storage types\<close>

datatype storage_type = StorageTypeS3 | StorageTypeNFS | StorageTypeLocal

fun storage_type_name :: "storage_type \<Rightarrow> string" where
  "storage_type_name StorageTypeS3 = ''s3''"
| "storage_type_name StorageTypeNFS = ''nfs''"
| "storage_type_name StorageTypeLocal = ''local''"

text \<open>The order in which the constants are declared, and in which enabled providers are listed.\<close>

fun storage_rank :: "storage_type \<Rightarrow> nat" where
  "storage_rank StorageTypeS3 = 0"
| "storage_rank StorageTypeNFS = 1"
| "storage_rank StorageTypeLocal = 2"

instantiation storage_type :: linorder
begin

definition less_eq_storage_type :: "storage_type \<Rightarrow> storage_type \<Rightarrow> bool" where
  "less_eq_storage_type a b \<longleftrightarrow> storage_rank a \<le> storage_rank b"

definition less_storage_type :: "storage_type \<Rightarrow> storage_type \<Rightarrow> bool" where
  "less_storage_type a b \<longleftrightarrow> storage_rank a < storage_rank b"

instance
proof
  fix a b c :: storage_type
  show "a \<le> b \<Longrightarrow> b \<le> a \<Longrightarrow> a = b"
    by (cases a; cases b) (simp_all add: less_eq_storage_type_def)
qed (auto simp: less_eq_storage_type_def less_storage_type_def)

end

section \<open>The base provider\<close>

record base_provider =
  bp_type :: storage_type
  bp_driver :: string
  bp_secret :: string
  bp_secret_namespace :: string
  bp_mount_type :: string
  bp_pvc_label :: string
  bp_mount_app_data :: bool

definition base_GetVolumeName :: "base_provider \<Rightarrow> string" where
  "base_GetVolumeName b = ''workspace-'' @ bp_mount_type b"

definition base_GetPVCName :: "base_provider \<Rightarrow> string \<Rightarrow> string" where
  "base_GetPVCName b namespace = namespace @ ''-'' @ bp_mount_type b @ ''-pvc''"

definition base_getPVName :: "base_provider \<Rightarrow> string \<Rightarrow> string" where
  "base_getPVName b namespace = namespace @ ''-'' @ bp_mount_type b @ ''-pv''"

definition base_hasCSIDriver :: "'w reconciler \<Rightarrow> string \<Rightarrow> ('w, bool) prog" where
  "base_hasCSIDriver r driver = do {
     g \<leftarrow> GetCSIDriver r driver;
     State_Monad.return (case g of Inl _ \<Rightarrow> False | Inr _ \<Rightarrow> True)
   }"

definition base_HasDriver :: "'w reconciler \<Rightarrow> base_provider \<Rightarrow> ('w, bool) prog" where
  "base_HasDriver r b = base_hasCSIDriver r (bp_driver b)"

definition base_getSecret :: "'w reconciler \<Rightarrow> base_provider \<Rightarrow> ('w, go_error + secret) prog" where
  "base_getSecret r b = do {
     g \<leftarrow> GetSecret r (key (bp_secret b) (bp_secret_namespace b));
     State_Monad.return (case g of
         Inl e \<Rightarrow> Inl (SecretFailure (storage_type_name (bp_type b)) e)
       | Inr s \<Rightarrow> Inr s)
   }"

definition base_GetVolumeSpec :: "base_provider \<Rightarrow> string \<Rightarrow> volume" where
  "base_GetVolumeSpec b pvcName =
     \<lparr>vol_name = base_GetVolumeName b, vol_source = ClaimSource pvcName\<rparr>"

definition base_GetVolumeMountSpecs :: "base_provider \<Rightarrow> string \<Rightarrow> string \<Rightarrow> volume_mount list" where
  "base_GetVolumeMountSpecs b user namespace =
     [\<lparr>vm_name = base_GetVolumeName b,
       vm_path = ''/mnt/workspace-'' @ bp_mount_type b,
       vm_sub_path = ''workspaces/'' @ namespace @ ''/data''\<rparr>] @
     (if bp_mount_app_data b
      then [\<lparr>vm_name = base_GetVolumeName b,
             vm_path = ''/mnt/app_data'',
             vm_sub_path = ''workspaces/'' @ namespace @ ''/app_data/'' @ user\<rparr>]
      else [])"

definition base_CreatePV ::
  "base_provider \<Rightarrow> string \<Rightarrow> string gomap \<Rightarrow> secret_ref option \<Rightarrow> persistent_volume" where
  "base_CreatePV b namespace volumeAttributes nodePublishSecretRef =
     \<lparr>pv_meta = new_meta (base_getPVName b namespace) [] [],
      pv_capacity = [(''storage'', Quantity ''1Gi'')],
      pv_access_modes = [''ReadWriteMany''],
      pv_reclaim = ''Delete'',
      pv_storage_class = [],
      pv_source = CSISource (bp_driver b) (namespace @ ''-'' @ bp_mount_type b)
        volumeAttributes nodePublishSecretRef\<rparr>"

definition base_CreatePVC :: "base_provider \<Rightarrow> workbench \<Rightarrow> volume_claim" where
  "base_CreatePVC b w =
     \<lparr>pvc_meta = new_meta (base_GetPVCName b (wb_namespace w)) (wb_namespace w)
        (if bp_pvc_label b \<noteq> [] then [(bp_pvc_label b, ''true'')] else []),
      pvc_access_modes = [''ReadWriteMany''],
      pvc_requests = [(''storage'', Quantity ''1Gi'')],
      pvc_volume = base_getPVName b (wb_namespace w),
      pvc_storage_class = Some []\<rparr>"

text \<open>The pod both \<open>mkdir\<close> jobs run, and the job around it.\<close>

definition mkdir_container :: "string \<Rightarrow> string \<Rightarrow> string \<Rightarrow> container" where
  "mkdir_container command volumeName mountPath =
     (new_container ''mkdir'' ''busybox:latest'')
       \<lparr>ct_command := [''sh'', ''-c'', command],
        ct_resources :=
          \<lparr>res_limits = Some [(''cpu'', Quantity ''100m''), (''memory'', Quantity ''64Mi'')],
           res_requests = Some [(''cpu'', Quantity ''10m''), (''memory'', Quantity ''16Mi'')]\<rparr>,
        ct_mounts := [\<lparr>vm_name = volumeName, vm_path = mountPath, vm_sub_path = []\<rparr>]\<rparr>"

definition mkdir_job :: "workbench \<Rightarrow> string \<Rightarrow> string \<Rightarrow> container \<Rightarrow> volume \<Rightarrow> job" where
  "mkdir_job w name_prefix app c v =
     \<lparr>job_meta = new_meta (name_prefix @ wb_namespace w) (wb_namespace w)
        [(''app'', app), (''workbench'', wb_name w)],
      job_suspend = None, job_ttl = Some 300, job_backoff = Some 2,
      job_template = empty_template
        \<lparr>pt_spec := empty_pod_spec
          \<lparr>sp_restart_policy := ''Never'', sp_containers := [c], sp_volumes := [v]\<rparr>\<rparr>,
      job_active = 0, job_succeeded = 0, job_ready = None\<rparr>"

section \<open>S3\<close>

definition NewS3Provider :: "config \<Rightarrow> base_provider" where
  "NewS3Provider cfg =
     \<lparr>bp_type = StorageTypeS3, bp_driver = ''csi.juicefs.com'',
      bp_secret = cfg_juicefs_secret cfg, bp_secret_namespace = cfg_juicefs_namespace cfg,
      bp_mount_type = ''archive'', bp_pvc_label = ''use-juicefs'', bp_mount_app_data = True\<rparr>"

definition secret_field :: "secret \<Rightarrow> string \<Rightarrow> string" where
  "secret_field s f = (case map_get (sec_data s) f of None \<Rightarrow> [] | Some v \<Rightarrow> v)"

definition s3_getSecretConfig :: "'w reconciler \<Rightarrow> base_provider \<Rightarrow> ('w, go_error + string) prog" where
  "s3_getSecretConfig r b = do {
     g \<leftarrow> base_getSecret r b;
     State_Monad.return (case g of
         Inl e \<Rightarrow> Inl e
       | Inr s \<Rightarrow>
           let name = secret_field s ''name'' in
           if name = [] then Inl (SecretFieldMissing ''JuiceFS'' ''name'') else Inr name)
   }"

definition s3_HasSecret :: "'w reconciler \<Rightarrow> base_provider \<Rightarrow> ('w, bool) prog" where
  "s3_HasSecret r b = do {
     g \<leftarrow> s3_getSecretConfig r b;
     State_Monad.return (case g of Inl _ \<Rightarrow> False | Inr _ \<Rightarrow> True)
   }"

definition s3_Setup :: "'w reconciler \<Rightarrow> base_provider \<Rightarrow> workbench \<Rightarrow> ('w, go_error + unit) prog" where
  "s3_Setup r b w = State_Monad.return (Inr ())"

definition s3_CreatePV ::
  "'w reconciler \<Rightarrow> base_provider \<Rightarrow> workbench \<Rightarrow> ('w, go_error + persistent_volume) prog" where
  "s3_CreatePV r b w = do {
     g \<leftarrow> s3_getSecretConfig r b;
     State_Monad.return (case g of
         Inl e \<Rightarrow> Inl e
       | Inr fsName \<Rightarrow>
           Inr (base_CreatePV b (wb_namespace w) [(''name'', fsName), (''path'', ''/'')]
             (Some \<lparr>sr_name = bp_secret b, sr_namespace = bp_secret_namespace b\<rparr>)))
   }"

section \<open>NFS\<close>

definition NewNFSProvider :: "config \<Rightarrow> base_provider" where
  "NewNFSProvider cfg =
     \<lparr>bp_type = StorageTypeNFS, bp_driver = ''nfs.csi.k8s.io'',
      bp_secret = cfg_nfs_secret cfg, bp_secret_namespace = cfg_nfs_namespace cfg,
      bp_mount_type = ''scratch'', bp_pvc_label = [], bp_mount_app_data = False\<rparr>"

definition nfs_getSecretConfig ::
  "'w reconciler \<Rightarrow> base_provider \<Rightarrow> ('w, go_error + string \<times> string) prog" where
  "nfs_getSecretConfig r b = do {
     g \<leftarrow> base_getSecret r b;
     State_Monad.return (case g of
         Inl e \<Rightarrow> Inl e
       | Inr s \<Rightarrow>
           let server = secret_field s ''server''; share = secret_field s ''share'' in
           if server = [] then Inl (SecretFieldMissing ''NFS'' ''server'')
           else if share = [] then Inl (SecretFieldMissing ''NFS'' ''share'')
           else Inr (server, share))
   }"

definition nfs_HasSecret :: "'w reconciler \<Rightarrow> base_provider \<Rightarrow> ('w, bool) prog" where
  "nfs_HasSecret r b = do {
     g \<leftarrow> nfs_getSecretConfig r b;
     State_Monad.return (case g of Inl _ \<Rightarrow> False | Inr _ \<Rightarrow> True)
   }"

definition nfs_mkdir_command :: "string \<Rightarrow> string" where
  "nfs_mkdir_command ns =
     ''mkdir -p /nfs/workspaces/'' @ ns @ ''/data && chmod 2770 /nfs/workspaces/'' @ ns @
     ''/data && chgrp 1001 /nfs/workspaces/'' @ ns @ ''/data''"

definition nfs_setup_job :: "workbench \<Rightarrow> string \<Rightarrow> string \<Rightarrow> job" where
  "nfs_setup_job w server share =
     mkdir_job w ''nfs-mkdir-'' ''nfs-directory-creator''
       (mkdir_container (nfs_mkdir_command (wb_namespace w)) ''nfs-volume'' ''/nfs'')
       \<lparr>vol_name = ''nfs-volume'', vol_source = NFSSource server share\<rparr>"

definition nfs_Setup :: "'w reconciler \<Rightarrow> base_provider \<Rightarrow> workbench \<Rightarrow> ('w, go_error + unit) prog" where
  "nfs_Setup r b w = do {
     g \<leftarrow> nfs_getSecretConfig r b;
     case g of
       Inl e \<Rightarrow> State_Monad.return (Inl e)
     | Inr (server, share) \<Rightarrow> do {
         c \<leftarrow> CreateJob r (nfs_setup_job w server share);
         State_Monad.return (case c of Inl e \<Rightarrow> Inl (ApiFailure e) | Inr _ \<Rightarrow> Inr ())
       }
   }"

definition nfs_CreatePV ::
  "'w reconciler \<Rightarrow> base_provider \<Rightarrow> workbench \<Rightarrow> ('w, go_error + persistent_volume) prog" where
  "nfs_CreatePV r b w = do {
     g \<leftarrow> nfs_getSecretConfig r b;
     State_Monad.return (case g of
         Inl e \<Rightarrow> Inl e
       | Inr (server, share) \<Rightarrow>
           Inr (base_CreatePV b (wb_namespace w) [(''server'', server), (''share'', share)] None))
   }"

section \<open>Local\<close>

definition NewLocalProvider :: base_provider where
  "NewLocalProvider =
     \<lparr>bp_type = StorageTypeLocal, bp_driver = [], bp_secret = [], bp_secret_namespace = [],
      bp_mount_type = ''local'', bp_pvc_label = [], bp_mount_app_data = True\<rparr>"

definition local_HasDriver :: "'w reconciler \<Rightarrow> base_provider \<Rightarrow> ('w, bool) prog" where
  "local_HasDriver r b = State_Monad.return (cfg_local_enabled (rc_config r))"

definition local_HasSecret :: "'w reconciler \<Rightarrow> base_provider \<Rightarrow> ('w, bool) prog" where
  "local_HasSecret r b = State_Monad.return (cfg_local_enabled (rc_config r))"

definition local_host_path :: "config \<Rightarrow> string" where
  "local_host_path cfg =
     (if cfg_local_path cfg = [] then ''/tmp/workbench-local-storage'' else cfg_local_path cfg)"

definition local_mkdir_command :: "string \<Rightarrow> string" where
  "local_mkdir_command ns =
     ''mkdir -p /local/workspaces/'' @ ns @ ''/data /local/workspaces/'' @ ns @
     ''/app_data && chmod 2770 /local/workspaces/'' @ ns @
     ''/data && chmod 2770 /local/workspaces/'' @ ns @
     ''/app_data && chgrp 1001 /local/workspaces/'' @ ns @ ''/data /local/workspaces/'' @ ns @ ''/app_data''"

definition local_setup_job :: "config \<Rightarrow> workbench \<Rightarrow> job" where
  "local_setup_job cfg w =
     mkdir_job w ''local-mkdir-'' ''local-directory-creator''
       (mkdir_container (local_mkdir_command (wb_namespace w)) ''local-volume'' ''/local'')
       \<lparr>vol_name = ''local-volume'',
        vol_source = HostPathSource (local_host_path cfg) ''DirectoryOrCreate''\<rparr>"

definition local_Setup :: "'w reconciler \<Rightarrow> base_provider \<Rightarrow> workbench \<Rightarrow> ('w, go_error + unit) prog" where
  "local_Setup r b w = do {
     c \<leftarrow> CreateJob r (local_setup_job (rc_config r) w);
     State_Monad.return (case c of Inl e \<Rightarrow> Inl (ApiFailure e) | Inr _ \<Rightarrow> Inr ())
   }"

definition local_CreatePV ::
  "'w reconciler \<Rightarrow> base_provider \<Rightarrow> workbench \<Rightarrow> ('w, go_error + persistent_volume) prog" where
  "local_CreatePV r b w = State_Monad.return (Inr
     \<lparr>pv_meta = new_meta (base_getPVName b (wb_namespace w)) []
        [(''workbench-namespace'', wb_namespace w), (''storage-type'', ''local'')],
      pv_capacity = [(''storage'', Quantity ''10Gi'')],
      pv_access_modes = [''ReadWriteMany''],
      pv_reclaim = ''Retain'',
      pv_storage_class = [],
      pv_source = PVHostPath (local_host_path (rc_config r)) ''DirectoryOrCreate''\<rparr>)"

section \<open>The interface\<close>

datatype provider =
    S3Provider (base_of: base_provider)
  | NFSProvider (base_of: base_provider)
  | LocalProvider (base_of: base_provider)

fun HasDriver :: "'w reconciler \<Rightarrow> provider \<Rightarrow> ('w, bool) prog" where
  "HasDriver r (S3Provider b) = base_HasDriver r b"
| "HasDriver r (NFSProvider b) = base_HasDriver r b"
| "HasDriver r (LocalProvider b) = local_HasDriver r b"

fun HasSecret :: "'w reconciler \<Rightarrow> provider \<Rightarrow> ('w, bool) prog" where
  "HasSecret r (S3Provider b) = s3_HasSecret r b"
| "HasSecret r (NFSProvider b) = nfs_HasSecret r b"
| "HasSecret r (LocalProvider b) = local_HasSecret r b"

fun Setup :: "'w reconciler \<Rightarrow> provider \<Rightarrow> workbench \<Rightarrow> ('w, go_error + unit) prog" where
  "Setup r (S3Provider b) w = s3_Setup r b w"
| "Setup r (NFSProvider b) w = nfs_Setup r b w"
| "Setup r (LocalProvider b) w = local_Setup r b w"

fun CreatePV :: "'w reconciler \<Rightarrow> provider \<Rightarrow> workbench \<Rightarrow> ('w, go_error + persistent_volume) prog" where
  "CreatePV r (S3Provider b) w = s3_CreatePV r b w"
| "CreatePV r (NFSProvider b) w = nfs_CreatePV r b w"
| "CreatePV r (LocalProvider b) w = local_CreatePV r b w"

definition CreatePVC :: "provider \<Rightarrow> workbench \<Rightarrow> volume_claim" where
  "CreatePVC p w = base_CreatePVC (base_of p) w"
definition GetVolumeSpec :: "provider \<Rightarrow> string \<Rightarrow> volume" where
  "GetVolumeSpec p pvcName = base_GetVolumeSpec (base_of p) pvcName"
definition GetVolumeMountSpecs :: "provider \<Rightarrow> string \<Rightarrow> string \<Rightarrow> volume_mount list" where
  "GetVolumeMountSpecs p user namespace = base_GetVolumeMountSpecs (base_of p) user namespace"
definition GetPVCName :: "provider \<Rightarrow> string \<Rightarrow> string" where
  "GetPVCName p namespace = base_GetPVCName (base_of p) namespace"
definition getPVName :: "provider \<Rightarrow> string \<Rightarrow> string" where
  "getPVName p namespace = base_getPVName (base_of p) namespace"
definition GetVolumeName :: "provider \<Rightarrow> string" where
  "GetVolumeName p = base_GetVolumeName (base_of p)"
definition GetStorageType :: "provider \<Rightarrow> storage_type" where
  "GetStorageType p = bp_type (base_of p)"
definition GetDriverName :: "provider \<Rightarrow> string" where
  "GetDriverName p = bp_driver (base_of p)"
definition GetSecretName :: "provider \<Rightarrow> string" where
  "GetSecretName p = bp_secret (base_of p)"
definition GetSecretNamespace :: "provider \<Rightarrow> string" where
  "GetSecretNamespace p = bp_secret_namespace (base_of p)"

end
