(* ===== verification/Storage_Contract.thy ===== *)
theory Storage_Contract
  imports Storage_Providers
begin

text \<open>
  The contract of the Go interface \<open>StorageProvider\<close> as a locale, proved of the S3, NFS and
  local provider and of the dispatching interface methods. The storage manager is written
  against the interface, and its lemmas use the contract only.

  The laws: the volume of a provider carries the provider's volume name and points to the
  claim it was given; all mounts use that volume, have different paths and stay below
  \<open>workspaces/<namespace>/\<close>; the claim a provider creates is the one its volume will use, and
  is bound to the volume it creates; checking for the secret and preparing the volume only read;
  set-up writes nothing but at most one job, in the namespace of the workbench.
\<close>

definition reads_only :: "call \<Rightarrow> bool" where
  "reads_only c \<longleftrightarrow> \<not> is_write c"

definition is_created_job :: "call \<Rightarrow> bool" where
  "is_created_job c = (case c of CreatedJob _ _ \<Rightarrow> True | _ \<Rightarrow> False)"

definition setup_call :: "workbench \<Rightarrow> call \<Rightarrow> bool" where
  "setup_call w c = (case c of
       CreatedJob j _ \<Rightarrow> job_namespace j = wb_namespace w \<and> map_get (job_labels j) matchingLabel = Some (wb_name w)
     | _ \<Rightarrow> reads_only c)"

locale storage_backend =
  fixes volumeName :: "'p \<Rightarrow> string"
    and claimName :: "'p \<Rightarrow> string \<Rightarrow> string"
    and pvName :: "'p \<Rightarrow> string \<Rightarrow> string"
    and volumeSpec :: "'p \<Rightarrow> string \<Rightarrow> volume"
    and mountSpecs :: "'p \<Rightarrow> string \<Rightarrow> string \<Rightarrow> volume_mount list"
    and createPVC :: "'p \<Rightarrow> workbench \<Rightarrow> volume_claim"
    and hasDriver :: "'p \<Rightarrow> ('w, bool) prog"
    and hasSecret :: "'p \<Rightarrow> ('w, bool) prog"
    and prepare :: "'p \<Rightarrow> workbench \<Rightarrow> ('w, go_error + unit) prog"
    and createPV :: "'p \<Rightarrow> workbench \<Rightarrow> ('w, go_error + persistent_volume) prog"
  assumes volume_named: "vol_name (volumeSpec p c) = volumeName p"
    and volume_claims: "vol_source (volumeSpec p c) = ClaimSource c"
    and mounts_own_volume: "list_all (\<lambda>m. vm_name m = volumeName p) (mountSpecs p user ns)"
    and mounts_nonempty: "mountSpecs p user ns \<noteq> []"
    and mounts_distinct: "distinct (map vm_path (mountSpecs p user ns))"
    and mounts_confined:
      "list_all (\<lambda>m. prefix (''workspaces/'' @ ns @ ''/'') (vm_sub_path m)) (mountSpecs p user ns)"
    and claim_key: "om_name (pvc_meta (createPVC p w)) = claimName p (wb_namespace w)"
      "om_namespace (pvc_meta (createPVC p w)) = wb_namespace w"
    and claim_bound: "pvc_volume (createPVC p w) = pvName p (wb_namespace w)"
    and driver_reads: "only_calls reads_only (hasDriver p)"
    and secret_reads: "only_calls reads_only (hasSecret p)"
    and setup_calls: "emits (prepare p w) (\<lambda>_ cs. list_all (setup_call w) cs \<and>
        length (filter is_created_job cs) \<le> 1)"
    and pv_named: "emits (createPV p w) (\<lambda>x cs. list_all reads_only cs \<and>
        (\<forall>v. x = Inr v \<longrightarrow> om_name (pv_meta v) = pvName p (wb_namespace w)))"
begin

text \<open>The volume of a pod in the namespace of \<open>w\<close> uses the claim created for \<open>w\<close>.\<close>

lemma volume_uses_claim:
  "vol_source (volumeSpec p (claimName p (wb_namespace w))) = ClaimSource (om_name (pvc_meta (createPVC p w)))"
  by (simp add: volume_claims claim_key)

lemma mounts_have_volume:
  "m \<in> set (mountSpecs p user ns) \<Longrightarrow> vm_name m = vol_name (volumeSpec p c)"
  using mounts_own_volume [of p user ns] by (auto simp: list_all_iff volume_named)

lemma mount_in_namespace:
  "m \<in> set (mountSpecs p user ns) \<Longrightarrow> prefix (''workspaces/'' @ ns @ ''/'') (vm_sub_path m)"
  using mounts_confined [of ns p user] by (auto simp: list_all_iff)

lemma setup_only_jobs: "only_calls (setup_call w) (prepare p w)"
  unfolding only_calls_def by (rule emits_post [OF setup_calls]) simp

end

section \<open>Facts about the base provider\<close>

lemma base_mounts:
  "list_all (\<lambda>m. vm_name m = base_GetVolumeName b) (base_GetVolumeMountSpecs b user ns)"
  "base_GetVolumeMountSpecs b user ns \<noteq> []"
  "list_all (\<lambda>m. prefix (''workspaces/'' @ ns @ ''/'') (vm_sub_path m)) (base_GetVolumeMountSpecs b user ns)"
  by (simp_all add: base_GetVolumeMountSpecs_def same_prefix_prefix)

lemma base_mounts_distinct: "distinct (map vm_path (base_GetVolumeMountSpecs b user ns))"
  by (simp add: base_GetVolumeMountSpecs_def)

lemma base_claim:
  "om_name (pvc_meta (base_CreatePVC b w)) = base_GetPVCName b (wb_namespace w)"
  "om_namespace (pvc_meta (base_CreatePVC b w)) = wb_namespace w"
  "pvc_volume (base_CreatePVC b w) = base_getPVName b (wb_namespace w)"
  by (simp_all add: base_CreatePVC_def)

lemma base_volume:
  "vol_name (base_GetVolumeSpec b c) = base_GetVolumeName b"
  "vol_source (base_GetVolumeSpec b c) = ClaimSource c"
  by (simp_all add: base_GetVolumeSpec_def)

lemma base_pv_named [simp]: "om_name (pv_meta (base_CreatePV b ns attrs ref)) = base_getPVName b ns"
  by (simp add: base_CreatePV_def)

lemmas base_facts = base_mounts base_mounts_distinct base_claim base_volume

section \<open>Reads of the providers\<close>

lemma GetSecret_reads [only_intros]: "only_calls reads_only (GetSecret r k)"
  by (simp add: GetSecret_def only_calls_perform reads_only_def call_kind_defs)

lemma GetCSIDriver_reads [only_intros]: "only_calls reads_only (GetCSIDriver r k)"
  by (simp add: GetCSIDriver_def only_calls_perform reads_only_def call_kind_defs)

lemma base_HasDriver_reads: "only_calls reads_only (base_HasDriver r b)"
  unfolding base_HasDriver_def base_hasCSIDriver_def by (intro only_intros)

lemma base_getSecret_reads: "only_calls reads_only (base_getSecret r b)"
  unfolding base_getSecret_def by (intro only_intros)

lemma config_reads:
  "only_calls reads_only (s3_getSecretConfig r b)" "only_calls reads_only (nfs_getSecretConfig r b)"
  unfolding s3_getSecretConfig_def nfs_getSecretConfig_def
  by (intro only_intros base_getSecret_reads)+

lemma HasSecret_reads:
  "only_calls reads_only (s3_HasSecret r b)" "only_calls reads_only (nfs_HasSecret r b)"
  unfolding s3_HasSecret_def nfs_HasSecret_def by (intro only_intros config_reads)+

lemma config_emits:
  "emits (s3_getSecretConfig r b) (\<lambda>_ cs. list_all reads_only cs)"
  "emits (nfs_getSecretConfig r b) (\<lambda>_ cs. list_all reads_only cs)"
  using config_reads unfolding only_calls_def by blast+

lemma s3_pv_named:
  "emits (s3_CreatePV r b w) (\<lambda>x cs. list_all reads_only cs \<and>
     (\<forall>v. x = Inr v \<longrightarrow> om_name (pv_meta v) = base_getPVName b (wb_namespace w)))"
  unfolding s3_CreatePV_def
  by (rule emits_bind [OF config_emits(1)], rule emits_return) (auto split: sum.splits)

lemma nfs_pv_named:
  "emits (nfs_CreatePV r b w) (\<lambda>x cs. list_all reads_only cs \<and>
     (\<forall>v. x = Inr v \<longrightarrow> om_name (pv_meta v) = base_getPVName b (wb_namespace w)))"
  unfolding nfs_CreatePV_def
  by (rule emits_bind [OF config_emits(2)], rule emits_return) (auto split: sum.splits)

lemma reads_are_setup_calls: "reads_only c \<Longrightarrow> setup_call w c \<and> \<not> is_created_job c"
  by (cases c) (auto simp: setup_call_def reads_only_def is_created_job_def call_kind_defs)

lemma reads_setup:
  "list_all reads_only cs \<Longrightarrow> list_all (setup_call w) cs \<and> filter is_created_job cs = []"
  by (induction cs) (auto simp: reads_are_setup_calls)

lemma mkdir_job_sel [simp]:
  "job_namespace (mkdir_job w pr app c v) = wb_namespace w"
  "job_name (mkdir_job w pr app c v) = pr @ wb_namespace w"
  "map_get (job_labels (mkdir_job w pr app c v)) matchingLabel = Some (wb_name w)"
  by (simp_all add: mkdir_job_def map_get_def matchingLabel_def)

lemma setup_job_call:
  "job_namespace j = wb_namespace w \<Longrightarrow> map_get (job_labels j) matchingLabel = Some (wb_name w) \<Longrightarrow>
   emits (CreateJob r j) (\<lambda>_ cs. list_all (setup_call w) cs \<and> length (filter is_created_job cs) \<le> 1)"
  unfolding CreateJob_def by (rule emits_perform) (simp add: setup_call_def is_created_job_def)

lemma s3_setup_calls:
  "emits (s3_Setup r b w) (\<lambda>_ cs. list_all (setup_call w) cs \<and> length (filter is_created_job cs) \<le> 1)"
  by (simp add: s3_Setup_def emits_return)

lemma local_setup_calls:
  "emits (local_Setup r b w) (\<lambda>_ cs. list_all (setup_call w) cs \<and> length (filter is_created_job cs) \<le> 1)"
  unfolding local_Setup_def
  by (rule emits_bind [OF setup_job_call]) (simp_all add: local_setup_job_def emits_return)

lemma nfs_setup_calls:
  "emits (nfs_Setup r b w) (\<lambda>_ cs. list_all (setup_call w) cs \<and> length (filter is_created_job cs) \<le> 1)"
proof -
  have job: "emits (CreateJob r (nfs_setup_job w server share) \<bind> (\<lambda>c. State_Monad.return (f c)))
      (\<lambda>_ cs. list_all (setup_call w) cs \<and> length (filter is_created_job cs) \<le> 1)" for server share f
    by (rule emits_bind [OF setup_job_call]) (simp_all add: nfs_setup_job_def emits_return)
  show ?thesis
    unfolding nfs_Setup_def
    apply (rule emits_bind [OF config_emits(2)])
    apply (rule emits_intros)+
     apply (simp add: reads_setup)
    apply (rule emits_intros)+
    apply (rule emits_post [OF job])
    apply (simp add: reads_setup)
    done
qed

section \<open>The three providers and the interface meet the contract\<close>

interpretation s3: storage_backend
  base_GetVolumeName base_GetPVCName base_getPVName base_GetVolumeSpec base_GetVolumeMountSpecs
  base_CreatePVC "base_HasDriver r" "s3_HasSecret r" "s3_Setup r" "s3_CreatePV r"
  for r :: "'w reconciler"
  by unfold_locales (fact base_facts base_HasDriver_reads HasSecret_reads s3_setup_calls s3_pv_named)+

interpretation nfs: storage_backend
  base_GetVolumeName base_GetPVCName base_getPVName base_GetVolumeSpec base_GetVolumeMountSpecs
  base_CreatePVC "base_HasDriver r" "nfs_HasSecret r" "nfs_Setup r" "nfs_CreatePV r"
  for r :: "'w reconciler"
  by unfold_locales (fact base_facts base_HasDriver_reads HasSecret_reads nfs_setup_calls nfs_pv_named)+

interpretation local: storage_backend
  base_GetVolumeName base_GetPVCName base_getPVName base_GetVolumeSpec base_GetVolumeMountSpecs
  base_CreatePVC "local_HasDriver r" "local_HasSecret r" "local_Setup r" "local_CreatePV r"
  for r :: "'w reconciler"
  by unfold_locales
     (fact base_facts local_setup_calls |
      simp add: local_HasDriver_def local_HasSecret_def local_CreatePV_def only_calls_return emits_return)+

lemmas interface_defs =
  GetVolumeName_def GetPVCName_def getPVName_def GetVolumeSpec_def GetVolumeMountSpecs_def CreatePVC_def

interpretation provider: storage_backend
  GetVolumeName GetPVCName getPVName GetVolumeSpec GetVolumeMountSpecs CreatePVC
  "HasDriver r" "HasSecret r" "Setup r" "CreatePV r"
  for r :: "'w reconciler"
proof
  show "only_calls reads_only (HasDriver r p)" for p
    by (cases p) (simp_all add: s3.driver_reads local.driver_reads)
  show "only_calls reads_only (HasSecret r p)" for p
    by (cases p) (simp_all add: s3.secret_reads nfs.secret_reads local.secret_reads)
  show "emits (Setup r p w) (\<lambda>_ cs. list_all (setup_call w) cs \<and> length (filter is_created_job cs) \<le> 1)"
    for p w by (cases p) (simp_all only: Setup.simps s3.setup_calls nfs.setup_calls local.setup_calls)
  show "emits (CreatePV r p w) (\<lambda>x cs. list_all reads_only cs \<and>
      (\<forall>v. x = Inr v \<longrightarrow> om_name (pv_meta v) = getPVName p (wb_namespace w)))" for p w
    by (cases p) (simp_all only: CreatePV.simps s3.pv_named nfs.pv_named local.pv_named getPVName_def provider.sel)
qed (simp_all only: interface_defs base_facts not_False_eq_True)

end
