(* ===== verification/Storage_Manager.thy ===== *)
theory Storage_Manager
  imports Storage_Contract
begin

text \<open>
  \<open>StorageManager\<close> of \<open>internal/controller/storage.go\<close>: which providers exist and which a
  workbench enables, the creation of volumes and claims for each of them
  (\<open>processStorageProvider\<close>), and the volumes and mounts handed to the jobs. The loops over
  the enabled providers are the recursive \<open>process_all\<close> and \<open>collect_volumes\<close>.
  The lemmas about the storage backends come from the contract \<open>provider\<close>.
\<close>

section \<open>Providers\<close>

type_synonym manager = "(storage_type \<times> provider) list"

definition NewStorageManager :: "config \<Rightarrow> manager" where
  "NewStorageManager cfg =
     [(StorageTypeS3, S3Provider (NewS3Provider cfg)), (StorageTypeNFS, NFSProvider (NewNFSProvider cfg))] @
     (if cfg_local_enabled cfg then [(StorageTypeLocal, LocalProvider NewLocalProvider)] else [])"

definition GetProvider :: "manager \<Rightarrow> storage_type \<Rightarrow> provider option" where
  "GetProvider sm t = map_of sm t"

definition storage_of :: "workbench \<Rightarrow> storage_config" where
  "storage_of w =
     (case ws_storage (wb_spec w) of
        None \<Rightarrow> \<lparr>st_s3 = True, st_nfs = True, st_local = False\<rparr>
      | Some s \<Rightarrow> s)"

definition provider_if :: "bool \<Rightarrow> manager \<Rightarrow> storage_type \<Rightarrow> provider list" where
  "provider_if b sm t =
     (if b then (case GetProvider sm t of Some p \<Rightarrow> [p] | None \<Rightarrow> []) else [])"

definition GetEnabledProviders :: "manager \<Rightarrow> workbench \<Rightarrow> provider list" where
  "GetEnabledProviders sm w =
     provider_if (st_s3 (storage_of w)) sm StorageTypeS3 @
     provider_if (st_nfs (storage_of w)) sm StorageTypeNFS @
     provider_if (st_local (storage_of w)) sm StorageTypeLocal"

section \<open>Volumes and mounts for the jobs\<close>

fun collect_volumes ::
  "'w reconciler \<Rightarrow> workbench \<Rightarrow> string \<Rightarrow> string \<Rightarrow> provider list \<Rightarrow> volume list \<Rightarrow> volume_mount list \<Rightarrow>
   ('w, volume list \<times> volume_mount list) prog" where
  "collect_volumes r w user namespace [] volumes mounts = State_Monad.return (volumes, mounts)"
| "collect_volumes r w user namespace (p # ps) volumes mounts = do {
     s \<leftarrow> HasSecret r p;
     if s
     then collect_volumes r w user namespace ps
            (volumes @ [GetVolumeSpec p (GetPVCName p (wb_namespace w))])
            (mounts @ GetVolumeMountSpecs p user namespace)
     else collect_volumes r w user namespace ps volumes mounts
   }"

definition GetVolumeAndMountSpecs ::
  "'w reconciler \<Rightarrow> manager \<Rightarrow> workbench \<Rightarrow> string \<Rightarrow> string \<Rightarrow>
   ('w, go_error + volume list \<times> volume_mount list) prog" where
  "GetVolumeAndMountSpecs r sm w user namespace = do {
     x \<leftarrow> collect_volumes r w user namespace (GetEnabledProviders sm w) [] [];
     State_Monad.return (Inr x)
   }"

section \<open>Creating volumes and claims\<close>

definition driver_missing_event :: "provider \<Rightarrow> kube_event" where
  "driver_missing_event p =
     \<lparr>ke_type = ''Warning'',
      ke_reason = storage_type_name (GetStorageType p) @ ''DriverMissing'',
      ke_message = Sprintf (''Storage driver '' @ [CHR 39] @ ''%s'' @ [CHR 39] @
          '' not found - skipping %s storage mount. Workbench will work without this storage. '' @
          ''Please install the CSI driver if you need %s storage.'')
        [GetDriverName p, storage_type_name (GetStorageType p), storage_type_name (GetStorageType p)]\<rparr>"

definition secret_missing_event :: "provider \<Rightarrow> kube_event" where
  "secret_missing_event p =
     \<lparr>ke_type = ''Warning'',
      ke_reason = storage_type_name (GetStorageType p) @ ''SecretMissing'',
      ke_message = Sprintf (''%s driver '' @ [CHR 39] @ ''%s'' @ [CHR 39] @ '' is present but secret '' @
          [CHR 39] @ ''%s'' @ [CHR 39] @ '' not found in namespace '' @ [CHR 39] @ ''%s'' @ [CHR 39] @
          ''. Skipping %s storage mount. Workbench will work without this storage. '' @
          ''Please create the secret if you need %s storage.'')
        [storage_type_name (GetStorageType p), GetDriverName p, GetSecretName p, GetSecretNamespace p,
         storage_type_name (GetStorageType p), storage_type_name (GetStorageType p)]\<rparr>"

text \<open>The manager guards its events with \<open>Recorder != nil\<close>.\<close>

definition record_if_present :: "'w reconciler \<Rightarrow> kube_event \<Rightarrow> ('w, unit) prog" where
  "record_if_present r e = (if rc_has_recorder r then RecordEvent r e else State_Monad.return ())"

definition ensure_volume ::
  "'w reconciler \<Rightarrow> workbench \<Rightarrow> provider \<Rightarrow> persistent_volume \<Rightarrow> ('w, go_error + unit) prog" where
  "ensure_volume r w p pv = do {
     g \<leftarrow> GetPV r (om_name (pv_meta pv));
     case g of
       Inl e \<Rightarrow>
         if \<not> IsNotFound e then State_Monad.return (Inl (ApiFailure e))
         else do {
           s \<leftarrow> Setup r p w;
           case s of
             Inl e' \<Rightarrow> State_Monad.return (Inl e')
           | Inr _ \<Rightarrow> do {
               c \<leftarrow> CreatePersistentVolume r pv;
               State_Monad.return (case c of Inl e' \<Rightarrow> Inl (ApiFailure e') | Inr _ \<Rightarrow> Inr ())
             }
         }
     | Inr _ \<Rightarrow> State_Monad.return (Inr ())
   }"

definition ensure_claim ::
  "'w reconciler \<Rightarrow> workbench \<Rightarrow> provider \<Rightarrow> ('w, go_error + string) prog" where
  "ensure_claim r w p = do {
     let pvc = CreatePVC p w;
     g \<leftarrow> GetPVC r (key (om_name (pvc_meta pvc)) (om_namespace (pvc_meta pvc)));
     case g of
       Inl e \<Rightarrow>
         if \<not> IsNotFound e then State_Monad.return (Inl (ApiFailure e))
         else do {
           c \<leftarrow> CreateClaim r pvc;
           State_Monad.return (case c of
               Inl e' \<Rightarrow> Inl (ApiFailure e')
             | Inr _ \<Rightarrow> Inr (GetPVCName p (wb_namespace w)))
         }
     | Inr _ \<Rightarrow> State_Monad.return (Inr (GetPVCName p (wb_namespace w)))
   }"

definition processStorageProvider ::
  "'w reconciler \<Rightarrow> workbench \<Rightarrow> provider \<Rightarrow> ('w, go_error + string) prog" where
  "processStorageProvider r w p = do {
     d \<leftarrow> HasDriver r p;
     if \<not> d then do {
       _ \<leftarrow> record_if_present r (driver_missing_event p);
       State_Monad.return (Inr [])
     } else do {
       s \<leftarrow> HasSecret r p;
       if \<not> s then do {
         _ \<leftarrow> record_if_present r (secret_missing_event p);
         State_Monad.return (Inr [])
       } else do {
         x \<leftarrow> CreatePV r p w;
         case x of
           Inl e \<Rightarrow> State_Monad.return (Inl e)
         | Inr pv \<Rightarrow> do {
             v \<leftarrow> ensure_volume r w p pv;
             case v of
               Inl e \<Rightarrow> State_Monad.return (Inl e)
             | Inr _ \<Rightarrow> ensure_claim r w p
           }
       }
     }
   }"

fun process_all ::
  "'w reconciler \<Rightarrow> workbench \<Rightarrow> provider list \<Rightarrow> (storage_type \<rightharpoonup> string) \<Rightarrow>
   ('w, storage_type \<rightharpoonup> string) prog" where
  "process_all r w [] storageVolumes = State_Monad.return storageVolumes"
| "process_all r w (p # ps) storageVolumes = do {
     x \<leftarrow> processStorageProvider r w p;
     case x of
       Inl _ \<Rightarrow> process_all r w ps storageVolumes
     | Inr pvcName \<Rightarrow>
         process_all r w ps
           (if pvcName \<noteq> [] then storageVolumes(GetStorageType p \<mapsto> pvcName) else storageVolumes)
   }"

definition ProcessEnabledStorage ::
  "'w reconciler \<Rightarrow> manager \<Rightarrow> workbench \<Rightarrow> ('w, go_error + (storage_type \<rightharpoonup> string)) prog" where
  "ProcessEnabledStorage r sm w = do {
     m \<leftarrow> process_all r w (GetEnabledProviders sm w) Map.empty;
     State_Monad.return (Inr m)
   }"

section \<open>Enabled providers\<close>

lemma manager_lookup [simp]:
  "GetProvider (NewStorageManager cfg) StorageTypeS3 = Some (S3Provider (NewS3Provider cfg))"
  "GetProvider (NewStorageManager cfg) StorageTypeNFS = Some (NFSProvider (NewNFSProvider cfg))"
  "GetProvider (NewStorageManager cfg) StorageTypeLocal =
     (if cfg_local_enabled cfg then Some (LocalProvider NewLocalProvider) else None)"
  by (simp_all add: GetProvider_def NewStorageManager_def)

lemma enabled_providers:
  "GetEnabledProviders (NewStorageManager cfg) w =
     (if st_s3 (storage_of w) then [S3Provider (NewS3Provider cfg)] else []) @
     (if st_nfs (storage_of w) then [NFSProvider (NewNFSProvider cfg)] else []) @
     (if st_local (storage_of w) \<and> cfg_local_enabled cfg then [LocalProvider NewLocalProvider] else [])"
  by (simp add: GetEnabledProviders_def provider_if_def)

lemma provider_identity [simp]:
  "GetStorageType (S3Provider (NewS3Provider cfg)) = StorageTypeS3"
  "GetStorageType (NFSProvider (NewNFSProvider cfg)) = StorageTypeNFS"
  "GetStorageType (LocalProvider NewLocalProvider) = StorageTypeLocal"
  "GetVolumeName (S3Provider (NewS3Provider cfg)) = ''workspace-archive''"
  "GetVolumeName (NFSProvider (NewNFSProvider cfg)) = ''workspace-scratch''"
  "GetVolumeName (LocalProvider NewLocalProvider) = ''workspace-local''"
  by (simp_all add: GetStorageType_def GetVolumeName_def base_GetVolumeName_def NewS3Provider_def
      NewNFSProvider_def NewLocalProvider_def)

lemma provider_mount_paths [simp]:
  "map vm_path (GetVolumeMountSpecs (S3Provider (NewS3Provider cfg)) user ns) =
     [''/mnt/workspace-archive'', ''/mnt/app_data'']"
  "map vm_path (GetVolumeMountSpecs (NFSProvider (NewNFSProvider cfg)) user ns) =
     [''/mnt/workspace-scratch'']"
  "map vm_path (GetVolumeMountSpecs (LocalProvider NewLocalProvider) user ns) =
     [''/mnt/workspace-local'', ''/mnt/app_data'']"
  by (simp_all add: GetVolumeMountSpecs_def base_GetVolumeMountSpecs_def NewS3Provider_def
      NewNFSProvider_def NewLocalProvider_def)

lemma enabled_sorted:
  "sorted_wrt (<) (map GetStorageType (GetEnabledProviders (NewStorageManager cfg) w))"
  by (auto simp: enabled_providers less_storage_type_def)

lemma enabled_names_distinct:
  "distinct (map GetVolumeName (GetEnabledProviders (NewStorageManager cfg) w))"
  by (auto simp: enabled_providers)

section \<open>Volumes and mounts\<close>

abbreviation volumes_of :: "workbench \<Rightarrow> provider list \<Rightarrow> volume list" where
  "volumes_of w ps \<equiv> map (\<lambda>p. GetVolumeSpec p (GetPVCName p (wb_namespace w))) ps"

abbreviation mounts_of :: "string \<Rightarrow> string \<Rightarrow> provider list \<Rightarrow> volume_mount list" where
  "mounts_of user ns ps \<equiv> concat (map (\<lambda>p. GetVolumeMountSpecs p user ns) ps)"

lemma HasSecret_emits: "emits (HasSecret r p) (\<lambda>_ cs. list_all reads_only cs)"
  using provider.secret_reads unfolding only_calls_def .

text \<open>
  Whatever the platform answers, the volumes and mounts are those of some of the enabled
  providers, in order, and finding out takes no write.
\<close>

lemma collect_volumes_emits:
  "emits (collect_volumes r w user ns ps vs ms) (\<lambda>x cs. list_all reads_only cs \<and>
     (\<exists>qs. subseq qs ps \<and> x = (vs @ volumes_of w qs, ms @ mounts_of user ns qs)))"
proof (induction ps arbitrary: vs ms)
  case (Cons p ps)
  show ?case
  proof (simp only: collect_volumes.simps, rule emits_bind [OF HasSecret_emits], rule emits_if)
    fix cs assume cs: "list_all reads_only cs"
    let ?v = "GetVolumeSpec p (GetPVCName p (wb_namespace w))" and ?m = "GetVolumeMountSpecs p user ns"
    show "emits (collect_volumes r w user ns ps (vs @ [?v]) (ms @ ?m)) (\<lambda>x ds. list_all reads_only (cs @ ds) \<and>
        (\<exists>qs. subseq qs (p # ps) \<and> x = (vs @ volumes_of w qs, ms @ mounts_of user ns qs)))"
      by (rule emits_post [OF Cons.IH]) (use cs in \<open>force intro: exI [of _ "p # _"]\<close>)
    show "emits (collect_volumes r w user ns ps vs ms) (\<lambda>x ds. list_all reads_only (cs @ ds) \<and>
        (\<exists>qs. subseq qs (p # ps) \<and> x = (vs @ volumes_of w qs, ms @ mounts_of user ns qs)))"
      by (rule emits_post [OF Cons.IH]) (use cs in \<open>auto intro: list_emb_Cons\<close>)
  qed
qed simp

lemma GetVolumeAndMountSpecs_emits:
  "emits (GetVolumeAndMountSpecs r sm w user ns) (\<lambda>x cs. list_all reads_only cs \<and>
     (\<exists>qs. subseq qs (GetEnabledProviders sm w) \<and> x = Inr (volumes_of w qs, mounts_of user ns qs)))"
  unfolding GetVolumeAndMountSpecs_def
  by (rule emits_bind [OF collect_volumes_emits]) auto

lemma volumes_names: "map vol_name (volumes_of w qs) = map GetVolumeName qs"
  by (simp add: provider.volume_named)

lemma subseq_distinct: "subseq xs ys \<Longrightarrow> distinct ys \<Longrightarrow> distinct xs"
  by (induction rule: list_emb.induct) (auto dest: list_emb_set)

lemma volumes_distinct:
  assumes "subseq qs (GetEnabledProviders (NewStorageManager cfg) w)"
  shows "distinct (map vol_name (volumes_of w qs))"
proof -
  have "subseq (map GetVolumeName qs) (map GetVolumeName (GetEnabledProviders (NewStorageManager cfg) w))"
    using assms by (rule subseq_map)
  then show ?thesis
    unfolding volumes_names using enabled_names_distinct by (rule subseq_distinct)
qed

lemma mounts_covered:
  "m \<in> set (mounts_of user ns qs) \<Longrightarrow> vm_name m \<in> set (map vol_name (volumes_of w qs))"
  using provider.mounts_have_volume by fastforce

lemma subseq_set: "subseq qs ps \<Longrightarrow> set qs \<subseteq> set ps"
  by (auto elim: list_emb_set)

text \<open>Every volume of a job is in the namespace of its workbench, and every mount below it.\<close>

lemma mounts_in_namespace:
  "m \<in> set (mounts_of user ns qs) \<Longrightarrow> prefix (''workspaces/'' @ ns @ ''/'') (vm_sub_path m)"
  using provider.mount_in_namespace by fastforce

section \<open>Order of the writes\<close>

definition pv_present :: "string \<Rightarrow> call \<Rightarrow> bool" where
  "pv_present n c = (case c of
       GotPV m (Inr _) \<Rightarrow> m = n
     | CreatedPV v (Inr _) \<Rightarrow> om_name (pv_meta v) = n
     | _ \<Rightarrow> False)"

definition pv_absent :: "string \<Rightarrow> call \<Rightarrow> bool" where
  "pv_absent n c = (case c of GotPV m (Inl e) \<Rightarrow> m = n \<and> IsNotFound e | _ \<Rightarrow> False)"

lemma pv_absent_got: "pv_absent n (GotPV n g) \<longleftrightarrow> (\<exists>e. g = Inl e \<and> IsNotFound e)"
  by (cases g) (simp_all add: pv_absent_def)

definition is_created_pv :: "call \<Rightarrow> bool" where
  "is_created_pv c = (case c of CreatedPV _ _ \<Rightarrow> True | _ \<Rightarrow> False)"

definition is_created_claim :: "call \<Rightarrow> bool" where
  "is_created_claim c = (case c of CreatedPVC _ _ \<Rightarrow> True | _ \<Rightarrow> False)"

text \<open>
  The order the manager promises: a claim only once its volume is there, a volume or a set-up
  job only after the volume was looked up and is missing.
\<close>

definition storage_order :: "string \<Rightarrow> call list \<Rightarrow> bool" where
  "storage_order n cs \<longleftrightarrow>
     preceded is_created_claim (pv_present n) cs \<and>
     preceded is_created_pv (pv_absent n) cs \<and>
     preceded is_created_job (pv_absent n) cs"

definition volume_writes :: "workbench \<Rightarrow> provider \<Rightarrow> call \<Rightarrow> bool" where
  "volume_writes w p c = (case c of
       CreatedPV v _ \<Rightarrow> om_name (pv_meta v) = getPVName p (wb_namespace w)
     | CreatedPVC v _ \<Rightarrow> v = CreatePVC p w
     | _ \<Rightarrow> setup_call w c)"

lemma reads_no_creates:
  "reads_only c \<Longrightarrow> \<not> is_created_claim c \<and> \<not> is_created_pv c \<and> \<not> is_created_job c"
  by (cases c) (auto simp: reads_only_def call_kind_defs is_created_claim_def is_created_pv_def
      is_created_job_def)

lemma setup_no_volume:
  "setup_call w c \<Longrightarrow> \<not> is_created_claim c \<and> \<not> is_created_pv c"
  by (cases c) (auto simp: setup_call_def reads_only_def call_kind_defs is_created_claim_def is_created_pv_def)

lemma setup_volume_write: "setup_call w c \<Longrightarrow> volume_writes w p c"
  using setup_no_volume [of w c]
  by (auto simp: volume_writes_def is_created_claim_def is_created_pv_def split: call.splits)

lemma reads_volume_write: "reads_only c \<Longrightarrow> volume_writes w p c"
  using reads_are_setup_calls setup_volume_write by blast

lemma preceded_reads:
  assumes "list_all reads_only cs"
  shows "preceded is_created_claim B cs" "preceded is_created_pv B cs" "preceded is_created_job B cs"
    "list_all (volume_writes w p) cs"
  using assms by (induction cs) (auto simp: reads_no_creates reads_volume_write)

lemma preceded_setup:
  assumes "list_all (setup_call w) cs"
  shows "preceded is_created_claim B cs" "preceded is_created_pv B cs" "list_all (volume_writes w p) cs"
  using assms by (induction cs) (auto simp: setup_no_volume setup_volume_write)

lemma GetPV_emits: "emits (GetPV r n) (\<lambda>a cs. cs = [GotPV n a])"
  by (simp add: GetPV_def emits_perform)

lemma CreatePersistentVolume_emits: "emits (CreatePersistentVolume r v) (\<lambda>a cs. cs = [CreatedPV v a])"
  by (simp add: CreatePersistentVolume_def emits_perform)

text \<open>The calls of \<open>ensure_volume\<close>: the look-up, the set-up and at most one creation.\<close>

lemma ensure_volume_shape:
  "emits (ensure_volume r w p pv) (\<lambda>x cs. \<exists>g ss tl. cs = GotPV (om_name (pv_meta pv)) g # ss @ tl \<and>
     list_all (setup_call w) ss \<and>
     (ss @ tl \<noteq> [] \<longrightarrow> (\<exists>e. g = Inl e \<and> IsNotFound e)) \<and>
     (tl = [] \<or> (\<exists>c. tl = [CreatedPV pv c])) \<and>
     ((\<exists>u. x = Inr u) \<longrightarrow> (\<exists>v. g = Inr v) \<or> (\<exists>u. tl = [CreatedPV pv (Inr u)])))"
  (is "emits _ ?Q")
proof -
  have create: "emits (CreatePersistentVolume r pv \<bind>
        (\<lambda>c. State_Monad.return (case c of Inl e' \<Rightarrow> Inl (ApiFailure e') | Inr _ \<Rightarrow> Inr ())))
      (\<lambda>x cs. \<exists>c. cs = [CreatedPV pv c] \<and> ((\<exists>u. x = Inr u) \<longrightarrow> (\<exists>u. c = Inr u)))"
    by (rule emits_bind [OF CreatePersistentVolume_emits]) (auto split: sum.splits)
  show ?thesis
    unfolding ensure_volume_def
  proof (rule emits_bind [OF GetPV_emits], rule emits_sum)
    fix g cs and e :: api_error
    assume cs: "cs = [GotPV (om_name (pv_meta pv)) g]" and g: "g = Inl e"
    show "emits (if \<not> IsNotFound e then State_Monad.return (Inl (ApiFailure e))
        else Setup r p w \<bind> case_sum (\<lambda>e'. State_Monad.return (Inl e')) (\<lambda>_. CreatePersistentVolume r pv \<bind>
        (\<lambda>c. State_Monad.return (case c of Inl e' \<Rightarrow> Inl (ApiFailure e') | Inr _ \<Rightarrow> Inr ()))))
        (\<lambda>x ds. ?Q x (cs @ ds))"
      apply (rule emits_if)
       apply (simp add: cs)
      apply (rule emits_bind [OF provider.setup_calls])
      apply (rule emits_sum)
       apply (fastforce simp: cs g)
      apply (rule emits_post [OF create])
      apply (fastforce simp: cs g)
      done
  qed simp
qed

lemma ensure_volume_emits:
  assumes pv: "om_name (pv_meta pv) = getPVName p (wb_namespace w)"
  shows "emits (ensure_volume r w p pv) (\<lambda>x cs. storage_order (getPVName p (wb_namespace w)) cs \<and>
    list_all (volume_writes w p) cs \<and> list_all (\<lambda>c. \<not> is_created_claim c) cs \<and>
    ((\<exists>u. x = Inr u) \<longrightarrow> list_ex (pv_present (getPVName p (wb_namespace w))) cs))"
proof (rule emits_post [OF ensure_volume_shape])
  let ?n = "getPVName p (wb_namespace w)"
  fix x :: "go_error + unit" and cs
  assume "\<exists>g ss tl. cs = GotPV (om_name (pv_meta pv)) g # ss @ tl \<and> list_all (setup_call w) ss \<and>
     (ss @ tl \<noteq> [] \<longrightarrow> (\<exists>e. g = Inl e \<and> IsNotFound e)) \<and> (tl = [] \<or> (\<exists>c. tl = [CreatedPV pv c])) \<and>
     ((\<exists>u. x = Inr u) \<longrightarrow> (\<exists>v. g = Inr v) \<or> (\<exists>u. tl = [CreatedPV pv (Inr u)]))"
  then obtain g ss tl where cs: "cs = GotPV ?n g # ss @ tl" and ss: "list_all (setup_call w) ss"
    and missing: "ss @ tl \<noteq> [] \<longrightarrow> (\<exists>e. g = Inl e \<and> IsNotFound e)"
    and tl: "tl = [] \<or> (\<exists>c. tl = [CreatedPV pv c])"
    and ok: "(\<exists>u. x = Inr u) \<longrightarrow> (\<exists>v. g = Inr v) \<or> (\<exists>u. tl = [CreatedPV pv (Inr u)])"
    unfolding pv by (elim exE conjE)
  have absent: "ss @ tl \<noteq> [] \<longrightarrow> pv_absent ?n (GotPV ?n g)"
    using missing unfolding pv_absent_got .
  have got: "\<not> is_created_claim (GotPV ?n g)" "\<not> is_created_pv (GotPV ?n g)" "\<not> is_created_job (GotPV ?n g)"
    "volume_writes w p (GotPV ?n g)"
    by (simp_all add: is_created_claim_def is_created_pv_def is_created_job_def volume_writes_def
        setup_call_def reads_only_def call_kind_defs)
  have "list_all (\<lambda>c. \<not> is_created_claim c) ss"
    using ss by (auto simp: list_all_iff dest: setup_no_volume)
  moreover have "list_all (\<lambda>c. \<not> is_created_claim c) tl"
    using tl by (auto simp: is_created_claim_def)
  ultimately have claims: "list_all (\<lambda>c. \<not> is_created_claim c) cs"
    using got(1) by (simp add: cs)
  have order: "storage_order ?n cs"
  proof (cases "ss @ tl = []")
    case True
    then show ?thesis by (simp add: cs storage_order_def got)
  next
    case False
    with absent have "pv_absent ?n (GotPV ?n g)" by simp
    then show ?thesis
      using got preceded_none [OF claims] by (simp add: storage_order_def cs)
  qed
  have writes: "list_all (volume_writes w p) cs"
    using got(4) preceded_setup(3) [OF ss] tl by (auto simp: cs volume_writes_def pv)
  have "(\<exists>u. x = Inr u) \<longrightarrow> list_ex (pv_present ?n) cs"
    using ok by (auto simp: cs pv_present_def pv)
  with claims order writes
  show "storage_order ?n cs \<and> list_all (volume_writes w p) cs \<and> list_all (\<lambda>c. \<not> is_created_claim c) cs \<and>
      ((\<exists>u. x = Inr u) \<longrightarrow> list_ex (pv_present ?n) cs)" by blast
qed

lemma GetPVC_emits: "emits (GetPVC r k) (\<lambda>a cs. cs = [GotPVC k a])"
  by (simp add: GetPVC_def emits_perform)

lemma CreateClaim_emits: "emits (CreateClaim r v) (\<lambda>a cs. cs = [CreatedPVC v a])"
  by (simp add: CreateClaim_def emits_perform)

lemma ensure_claim_shape:
  "emits (ensure_claim r w p) (\<lambda>x cs. \<exists>g tl. cs = GotPVC (key (GetPVCName p (wb_namespace w)) (wb_namespace w)) g # tl \<and>
     (tl = [] \<or> (\<exists>e c. g = Inl e \<and> IsNotFound e \<and> tl = [CreatedPVC (CreatePVC p w) c])))"
  unfolding ensure_claim_def Let_def provider.claim_key
  apply (rule emits_bind [OF GetPVC_emits])
  apply (rule emits_sum)
   apply (rule emits_if)
    apply simp
   apply (rule emits_bind [OF CreateClaim_emits])
   apply simp_all
  done

lemma ensure_claim_emits:
  "emits (ensure_claim r w p) (\<lambda>x cs. list_all (volume_writes w p) cs \<and>
     list_all (\<lambda>c. \<not> is_created_pv c) cs \<and> list_all (\<lambda>c. \<not> is_created_job c) cs)"
  by (rule emits_post [OF ensure_claim_shape])
     (auto simp: is_created_pv_def is_created_job_def volume_writes_def setup_call_def reads_only_def
       call_kind_defs)

text \<open>One provider: the order of its writes, and what it writes.\<close>

lemma record_if_present_reads: "only_calls reads_only (record_if_present r e)"
  unfolding record_if_present_def RecordEvent_def
  by (intro only_intros) (simp_all add: reads_only_def call_kind_defs)

lemma reads_storage_order: "list_all reads_only cs \<Longrightarrow> storage_order n cs"
  by (simp add: storage_order_def preceded_reads)

lemma storage_order_reads: "list_all reads_only cs \<Longrightarrow> storage_order n ds \<Longrightarrow> storage_order n (cs @ ds)"
  by (simp add: storage_order_def preceded_reads)

lemma HasDriver_emits: "emits (HasDriver r p) (\<lambda>_ cs. list_all reads_only cs)"
  using provider.driver_reads unfolding only_calls_def .

lemma storage_order_claim:
  assumes "storage_order n cs" "list_ex (pv_present n) cs"
    "list_all (\<lambda>c. \<not> is_created_pv c) ds" "list_all (\<lambda>c. \<not> is_created_job c) ds"
  shows "storage_order n (cs @ ds)"
  using assms by (simp add: storage_order_def preceded_none)

lemma processStorageProvider_emits:
  "emits (processStorageProvider r w p) (\<lambda>_ cs. storage_order (getPVName p (wb_namespace w)) cs \<and>
     list_all (volume_writes w p) cs)"
  (is "emits _ (\<lambda>_ cs. ?Q cs)")
proof -
  have reads: "list_all reads_only cs \<Longrightarrow> ?Q cs" for cs
    by (simp add: reads_storage_order preceded_reads)
  have prepend: "list_all reads_only cs \<Longrightarrow> ?Q ds \<Longrightarrow> ?Q (cs @ ds)" for cs ds
    by (simp add: storage_order_reads preceded_reads)
  have event: "emits (record_if_present r e \<bind> (\<lambda>_. State_Monad.return x)) (\<lambda>_ cs. ?Q cs)"
    for e and x :: "go_error + string"
    by (rule emits_bind [OF record_if_present_reads [unfolded only_calls_def]]) (simp add: reads)
  have volume: "emits (ensure_volume r w p pv \<bind> case_sum (\<lambda>e. State_Monad.return (Inl e)) (\<lambda>_. ensure_claim r w p))
      (\<lambda>_ cs. ?Q cs)" if "om_name (pv_meta pv) = getPVName p (wb_namespace w)" for pv
    by (rule emits_bind [OF ensure_volume_emits [OF that]], rule emits_sum, simp,
        rule emits_post [OF ensure_claim_emits], simp add: storage_order_claim)
  show ?thesis
    unfolding processStorageProvider_def
    apply (rule emits_bind [OF HasDriver_emits], rule emits_if)
     apply (rule emits_post [OF event], (rule prepend, assumption)+, assumption)
    apply (rule emits_bind [OF HasSecret_emits], rule emits_if)
     apply (rule emits_post [OF event], (rule prepend, assumption)+, assumption)
    apply (rule emits_bind [OF provider.pv_named], elim conjE, rule emits_sum)
     apply (simp add: reads prepend)
    apply (rule emits_post [OF volume], blast)
    apply ((rule prepend, assumption)+, assumption)
    done
qed

section \<open>All enabled providers\<close>

text \<open>Each enabled provider in turn, whether or not the one before it failed.\<close>

definition provider_calls :: "workbench \<Rightarrow> provider \<Rightarrow> call list \<Rightarrow> bool" where
  "provider_calls w p cs \<longleftrightarrow> storage_order (getPVName p (wb_namespace w)) cs \<and> list_all (volume_writes w p) cs"

lemma process_all_emits:
  "emits (process_all r w ps m) (\<lambda>x cs. dom x \<subseteq> dom m \<union> GetStorageType ` set ps \<and>
     (\<exists>css. cs = concat css \<and> list_all2 (provider_calls w) ps css))"
proof (induction ps arbitrary: m)
  case (Cons p ps)
  have one: "emits (processStorageProvider r w p) (\<lambda>_ cs. provider_calls w p cs)"
    unfolding provider_calls_def by (rule processStorageProvider_emits)
  have rest: "emits (process_all r w ps m') (\<lambda>x ds. dom x \<subseteq> dom m \<union> GetStorageType ` set (p # ps) \<and>
      (\<exists>css. cs @ ds = concat css \<and> list_all2 (provider_calls w) (p # ps) css))"
    if cs: "provider_calls w p cs" and m': "dom m' \<subseteq> insert (GetStorageType p) (dom m)" for cs m'
  proof (rule emits_post [OF Cons.IH [of m']])
    fix x ds
    assume h: "dom x \<subseteq> dom m' \<union> GetStorageType ` set ps \<and>
        (\<exists>css. ds = concat css \<and> list_all2 (provider_calls w) ps css)"
    then obtain css where css: "ds = concat css" "list_all2 (provider_calls w) ps css" by blast
    have "cs @ ds = concat (cs # css) \<and> list_all2 (provider_calls w) (p # ps) (cs # css)"
      using css cs by simp
    moreover have "dom x \<subseteq> dom m \<union> GetStorageType ` set (p # ps)"
      using subset_trans [OF conjunct1 [OF h] Un_mono [OF m' subset_refl]] by simp
    ultimately show "dom x \<subseteq> dom m \<union> GetStorageType ` set (p # ps) \<and>
        (\<exists>css. cs @ ds = concat css \<and> list_all2 (provider_calls w) (p # ps) css)" by blast
  qed
  show ?case
    unfolding process_all.simps
    apply (rule emits_bind [OF one], rule emits_sum)
     apply (rule rest, assumption, blast)
    apply (rule rest, assumption, simp, blast)
    done
qed simp

section \<open>Drivers and secrets first\<close>

definition driver_seen :: "provider \<Rightarrow> call \<Rightarrow> bool" where
  "driver_seen p c = (case c of GotCSIDriver n (Inr _) \<Rightarrow> n = GetDriverName p | _ \<Rightarrow> False)"

definition secret_seen :: "provider \<Rightarrow> call \<Rightarrow> bool" where
  "secret_seen p c = (case c of
       GotSecret k (Inr _) \<Rightarrow> k = key (GetSecretName p) (GetSecretNamespace p) | _ \<Rightarrow> False)"

definition backend_checked :: "'w reconciler \<Rightarrow> provider \<Rightarrow> call list \<Rightarrow> bool" where
  "backend_checked r p cs \<longleftrightarrow> (case p of
       LocalProvider _ \<Rightarrow> cfg_local_enabled (rc_config r) \<or> list_all reads_only cs
     | _ \<Rightarrow> preceded is_write (driver_seen p) cs \<and> preceded is_write (secret_seen p) cs)"

lemma driver_found:
  "emits (HasDriver r p) (\<lambda>d cs. list_all reads_only cs \<and> (d \<longrightarrow> (case p of
     LocalProvider _ \<Rightarrow> cfg_local_enabled (rc_config r) | _ \<Rightarrow> list_ex (driver_seen p) cs)))"
proof -
  have base: "emits (base_HasDriver r b) (\<lambda>d cs. list_all reads_only cs \<and>
      (d \<longrightarrow> list_ex (\<lambda>c. c = GotCSIDriver (bp_driver b) (Inr ())) cs))" for b
    unfolding base_HasDriver_def base_hasCSIDriver_def GetCSIDriver_def
    by (rule emits_bind [OF emits_perform [where Q = "\<lambda>a cs. cs = [GotCSIDriver (bp_driver b) a]"]])
       (auto simp: reads_only_def call_kind_defs split: sum.splits)
  have seen: "list_ex (\<lambda>c. c = GotCSIDriver (bp_driver (base_of p)) (Inr ())) cs \<Longrightarrow> list_ex (driver_seen p) cs" for cs
    by (auto simp: list_ex_iff driver_seen_def GetDriverName_def intro: rev_bexI)
  show ?thesis
  proof (cases p)
    case (LocalProvider b)
    then show ?thesis by (simp add: local_HasDriver_def)
  next
    case (S3Provider b)
    then show ?thesis using seen by (auto intro!: emits_post [OF base])
  next
    case (NFSProvider b)
    then show ?thesis using seen by (auto intro!: emits_post [OF base])
  qed
qed

lemma secret_found:
  "emits (HasSecret r p) (\<lambda>d cs. list_all reads_only cs \<and> (d \<longrightarrow> (case p of
     LocalProvider _ \<Rightarrow> cfg_local_enabled (rc_config r) | _ \<Rightarrow> list_ex (secret_seen p) cs)))"
proof -
  let ?seen = "\<lambda>b cs. list_ex (\<lambda>c. \<exists>s. c = GotSecret (key (bp_secret b) (bp_secret_namespace b)) (Inr s)) cs"
  have base: "emits (base_getSecret r b) (\<lambda>x cs. list_all reads_only cs \<and> ((\<exists>s. x = Inr s) \<longrightarrow> ?seen b cs))" for b
    unfolding base_getSecret_def GetSecret_def
    by (rule emits_bind [OF emits_perform [where
            Q = "\<lambda>a cs. cs = [GotSecret (key (bp_secret b) (bp_secret_namespace b)) a]"]])
       (auto simp: reads_only_def call_kind_defs split: sum.splits)
  have s3: "emits (s3_HasSecret r b) (\<lambda>d cs. list_all reads_only cs \<and> (d \<longrightarrow> ?seen b cs))" for b
    unfolding s3_HasSecret_def s3_getSecretConfig_def
    by (rule emits_bind [OF emits_bind [OF base, where Q = "\<lambda>x cs. list_all reads_only cs \<and> ((\<exists>s. x = Inr s) \<longrightarrow> ?seen b cs)"]])
       (auto simp: Let_def split: sum.splits)
  have nfs: "emits (nfs_HasSecret r b) (\<lambda>d cs. list_all reads_only cs \<and> (d \<longrightarrow> ?seen b cs))" for b
    unfolding nfs_HasSecret_def nfs_getSecretConfig_def
    by (rule emits_bind [OF emits_bind [OF base, where Q = "\<lambda>x cs. list_all reads_only cs \<and> ((\<exists>s. x = Inr s) \<longrightarrow> ?seen b cs)"]])
       (auto simp: Let_def split: sum.splits)
  have seen: "?seen (base_of p) cs \<Longrightarrow> list_ex (secret_seen p) cs" for cs
    by (auto simp: list_ex_iff secret_seen_def GetSecretName_def GetSecretNamespace_def intro: rev_bexI)
  show ?thesis
  proof (cases p)
    case (LocalProvider b)
    then show ?thesis by (simp add: local_HasSecret_def)
  next
    case (S3Provider b)
    then show ?thesis using seen by (auto intro!: emits_post [OF s3])
  next
    case (NFSProvider b)
    then show ?thesis using seen by (auto intro!: emits_post [OF nfs])
  qed
qed

lemma preceded_reads_write: "list_all reads_only cs \<Longrightarrow> preceded is_write B cs"
  by (rule preceded_none) (simp add: list_all_iff reads_only_def)

lemma processStorageProvider_checked: "emits (processStorageProvider r w p) (\<lambda>_ cs. backend_checked r p cs)"
proof -
  have reads: "list_all reads_only cs \<Longrightarrow> backend_checked r p cs" for cs
    by (simp add: backend_checked_def preceded_reads_write split: provider.split)
  have event: "emits (record_if_present r e \<bind> (\<lambda>_. State_Monad.return x)) (\<lambda>_ cs. list_all reads_only cs)"
    for e and x :: "go_error + string"
    by (rule emits_bind [OF record_if_present_reads [unfolded only_calls_def]]) simp
  have any: "emits m (\<lambda>_ _. True)" if "emits m Q" for m :: "('w, 'b) prog" and Q
    using that by (rule emits_post) simp
  have volume: "emits (CreatePV r p w \<bind> case_sum (\<lambda>e. State_Monad.return (Inl e))
      (\<lambda>pv. ensure_volume r w p pv \<bind> case_sum (\<lambda>e. State_Monad.return (Inl e)) (\<lambda>_. ensure_claim r w p)))
      (\<lambda>_ _. True)"
    by (rule emits_bind [OF provider.pv_named], rule emits_sum, simp,
        rule emits_bind [OF ensure_volume_shape], rule emits_sum, simp, rule any [OF ensure_claim_emits])
  show ?thesis
    unfolding processStorageProvider_def
    apply (rule emits_bind [OF driver_found], rule emits_if)
     apply (rule emits_post [OF event], simp add: reads)
    apply (rule emits_bind [OF secret_found], rule emits_if)
     apply (rule emits_post [OF event], simp add: reads)
    apply (rule emits_post [OF volume])
    apply (auto simp: backend_checked_def preceded_reads_write split: provider.splits)
    done
qed

section \<open>Properties\<close>

text \<open>C21: The providers of a workbench are listed in the order of the storage types, each at most
  once: object storage and NFS when the workbench asks for them (or says nothing about storage),
  local storage when it asks for it and the operator allows it.\<close>

theorem enabled_providers_exact:
  "sorted_wrt (<) (map GetStorageType (GetEnabledProviders (NewStorageManager cfg) w)) \<and>
   set (map GetStorageType (GetEnabledProviders (NewStorageManager cfg) w)) =
     {t. case t of
           StorageTypeS3 \<Rightarrow> (case ws_storage (wb_spec w) of None \<Rightarrow> True | Some s \<Rightarrow> st_s3 s)
         | StorageTypeNFS \<Rightarrow> (case ws_storage (wb_spec w) of None \<Rightarrow> True | Some s \<Rightarrow> st_nfs s)
         | StorageTypeLocal \<Rightarrow> cfg_local_enabled cfg \<and>
             (case ws_storage (wb_spec w) of None \<Rightarrow> False | Some s \<Rightarrow> st_local s)}"
  using enabled_sorted [of cfg w]
  by (auto simp: enabled_providers storage_of_def split: option.splits storage_type.splits)

end
