(* ===== verification/Platform_Steps.thy ===== *)
theory Platform_Steps
  imports K8s_Client
begin

text \<open>
  Runs as steps of the platform. \<open>platform_step p c x y\<close>: in the world \<open>x\<close> the platform \<open>p\<close> serves the call
  that the observation \<open>c\<close> records, with the answer it records, and leaves the world \<open>y\<close>; what others do
  to the world while a call is served is part of that step. \<open>replays\<close> strings such steps together.
  Every program made of the operator's calls replays its own trace (\<open>faithful\<close>), whatever the platform, so
  that a fact about the calls of a program and a law about the steps of a platform give a fact
  about the worlds it passes through. \<open>does\<close> states in one judgement what a program returns and
  calls, and from which world to which.
\<close>

section \<open>Steps\<close>

inductive platform_step :: "'w platform \<Rightarrow> call \<Rightarrow> 'w \<Rightarrow> 'w \<Rightarrow> bool" for p where
  got_workbench: "pf_get_workbench p k x = (g, y) \<Longrightarrow> platform_step p (GotWorkbench k g) x y"
| got_deployment: "pf_get_deployment p k x = (g, y) \<Longrightarrow> platform_step p (GotDeployment k g) x y"
| got_service: "pf_get_service p k x = (g, y) \<Longrightarrow> platform_step p (GotService k g) x y"
| got_job: "pf_get_job p k x = (g, y) \<Longrightarrow> platform_step p (GotJob k g) x y"
| got_pv: "pf_get_pv p n x = (g, y) \<Longrightarrow> platform_step p (GotPV n g) x y"
| got_pvc: "pf_get_pvc p k x = (g, y) \<Longrightarrow> platform_step p (GotPVC k g) x y"
| got_secret: "pf_get_secret p k x = (g, y) \<Longrightarrow> platform_step p (GotSecret k g) x y"
| got_driver: "pf_get_csi_driver p n x = (g, y) \<Longrightarrow> platform_step p (GotCSIDriver n g) x y"
| listed_pods: "pf_list_pods p n ls x = (g, y) \<Longrightarrow> platform_step p (ListedPods n ls g) x y"
| listed_jobs: "pf_list_jobs p ls x = (g, y) \<Longrightarrow> platform_step p (ListedJobs ls g) x y"
| listed_deployments: "pf_list_deployments p ls x = (g, y) \<Longrightarrow> platform_step p (ListedDeployments ls g) x y"
| created_deployment: "pf_create_deployment p d x = (g, y) \<Longrightarrow> platform_step p (CreatedDeployment d g) x y"
| created_service: "pf_create_service p svc x = (g, y) \<Longrightarrow> platform_step p (CreatedService svc g) x y"
| created_job: "pf_create_job p j x = (g, y) \<Longrightarrow> platform_step p (CreatedJob j g) x y"
| created_pv: "pf_create_pv p pv x = (g, y) \<Longrightarrow> platform_step p (CreatedPV pv g) x y"
| created_pvc: "pf_create_pvc p pvc x = (g, y) \<Longrightarrow> platform_step p (CreatedPVC pvc g) x y"
| updated_workbench: "pf_update_workbench p w x = (g, y) \<Longrightarrow> platform_step p (UpdatedWorkbench w g) x y"
| updated_status: "pf_update_status p w x = (g, y) \<Longrightarrow> platform_step p (UpdatedStatus w g) x y"
| updated_deployment: "pf_update_deployment p d x = (g, y) \<Longrightarrow> platform_step p (UpdatedDeployment d g) x y"
| updated_job: "pf_update_job p j x = (g, y) \<Longrightarrow> platform_step p (UpdatedJob j g) x y"
| deleted_job: "pf_delete_job p j x = (g, y) \<Longrightarrow> platform_step p (DeletedJob j g) x y"
| deleted_all_jobs: "pf_delete_all_jobs p n ls x = (g, y) \<Longrightarrow> platform_step p (DeletedAllJobs n ls g) x y"
| deleted_all_deployments: "pf_delete_all_deployments p n ls x = (g, y) \<Longrightarrow> platform_step p (DeletedAllDeployments n ls g) x y"
| ran_command: "pf_run_command p argv x = (g, y) \<Longrightarrow> platform_step p (RanCommand argv g) x y"
| recorded: "y = pf_record_event p e x \<Longrightarrow> platform_step p (Recorded e) x y"

inductive_simps platform_steps [simp]:
  "platform_step p (GotWorkbench k g) x y"
  "platform_step p (GotDeployment k g) x y"
  "platform_step p (GotService k g) x y"
  "platform_step p (GotJob k g) x y"
  "platform_step p (GotPV n g) x y"
  "platform_step p (GotPVC k g) x y"
  "platform_step p (GotSecret k g) x y"
  "platform_step p (GotCSIDriver n g) x y"
  "platform_step p (ListedPods n ls g) x y"
  "platform_step p (ListedJobs ls g) x y"
  "platform_step p (ListedDeployments ls g) x y"
  "platform_step p (CreatedDeployment d g) x y"
  "platform_step p (CreatedService svc g) x y"
  "platform_step p (CreatedJob j g) x y"
  "platform_step p (CreatedPV pv g) x y"
  "platform_step p (CreatedPVC pvc g) x y"
  "platform_step p (UpdatedWorkbench w g) x y"
  "platform_step p (UpdatedStatus w g) x y"
  "platform_step p (UpdatedDeployment d g) x y"
  "platform_step p (UpdatedJob j g) x y"
  "platform_step p (DeletedJob j g) x y"
  "platform_step p (DeletedAllJobs n ls g) x y"
  "platform_step p (DeletedAllDeployments n ls g) x y"
  "platform_step p (RanCommand argv g) x y"
  "platform_step p (Recorded e) x y"

primrec replays :: "'w platform \<Rightarrow> 'w \<Rightarrow> call list \<Rightarrow> 'w \<Rightarrow> bool" where
  "replays p x [] y \<longleftrightarrow> y = x"
| "replays p x (c # cs) z \<longleftrightarrow> (\<exists>y. platform_step p c x y \<and> replays p y cs z)"

lemma replays_append: "replays p x (cs @ ds) z \<longleftrightarrow> (\<exists>y. replays p x cs y \<and> replays p y ds z)"
  by (induction cs arbitrary: x) auto

text \<open>A property that every step keeps holds all along.\<close>

lemma replays_invariant:
  assumes "replays p x cs y" "I x" "\<And>c u v. c \<in> set cs \<Longrightarrow> platform_step p c u v \<Longrightarrow> I u \<Longrightarrow> I v"
  shows "I y"
  using assms by (induction cs arbitrary: x) auto

section \<open>Programs and the worlds they pass through\<close>

definition does :: "('w, 'a) prog \<Rightarrow> ('w \<Rightarrow> 'a \<Rightarrow> call list \<Rightarrow> 'w \<Rightarrow> bool) \<Rightarrow> bool" where
  "does m Q \<longleftrightarrow> (\<forall>s. \<exists>cs. sys_trace (snd (run_state m s)) = sys_trace s @ cs \<and>
     Q (sys_world s) (fst (run_state m s)) cs (sys_world (snd (run_state m s))))"

lemma does_start: "does m Q \<Longrightarrow> Q x (result_of m x) (calls_of m x) (sys_world (snd (run_state m (start x))))"
  unfolding does_def by (metis append_Nil start_sel)

lemma does_return: "(\<And>x. Q x a [] x) \<Longrightarrow> does (State_Monad.return a) Q"
  by (simp add: does_def)

lemma does_observe: "(\<And>x. Q x (f x) [] x) \<Longrightarrow> does (observe f) Q"
  by (simp add: does_def)

lemma does_perform: "(\<And>x. Q x (fst (f x)) [c (fst (f x))] (snd (f x))) \<Longrightarrow> does (perform f c) Q"
  by (simp add: does_def)

lemma does_bind:
  assumes "does m R" and "\<And>x a cs y. R x a cs y \<Longrightarrow> does (f a) (\<lambda>y' b ds z. y' = y \<longrightarrow> Q x b (cs @ ds) z)"
  shows "does (State_Monad.bind m f) Q"
  unfolding does_def
proof
  fix s
  obtain a s' where m: "run_state m s = (a, s')" by fastforce
  obtain cs where cs: "sys_trace s' = sys_trace s @ cs" "R (sys_world s) a cs (sys_world s')"
    using assms(1) m unfolding does_def by (metis fst_conv snd_conv)
  obtain ds where "sys_trace (snd (run_state (f a) s')) = sys_trace s' @ ds"
    "Q (sys_world s) (fst (run_state (f a) s')) (cs @ ds) (sys_world (snd (run_state (f a) s')))"
    using assms(2) [OF cs(2)] unfolding does_def by blast
  then show "\<exists>es. sys_trace (snd (run_state (State_Monad.bind m f) s)) = sys_trace s @ es \<and>
      Q (sys_world s) (fst (run_state (State_Monad.bind m f) s)) es (sys_world (snd (run_state (State_Monad.bind m f) s)))"
    using m cs(1) by auto
qed

lemma does_post: "does m R \<Longrightarrow> (\<And>x a cs y. R x a cs y \<Longrightarrow> Q x a cs y) \<Longrightarrow> does m Q"
  unfolding does_def by blast

lemma does_cases:
  "(b \<Longrightarrow> does m Q) \<Longrightarrow> (\<not> b \<Longrightarrow> does m' Q) \<Longrightarrow> does (if b then m else m') Q"
  "(\<And>e. s = Inl e \<Longrightarrow> does (f e) Q) \<Longrightarrow> (\<And>a. s = Inr a \<Longrightarrow> does (g a) Q) \<Longrightarrow>
   does (case s of Inl e \<Rightarrow> f e | Inr a \<Rightarrow> g a) Q"
  "(t = None \<Longrightarrow> does m Q) \<Longrightarrow> (\<And>a. t = Some a \<Longrightarrow> does (h a) Q) \<Longrightarrow>
   does (case t of None \<Rightarrow> m | Some a \<Rightarrow> h a) Q"
  by (cases b; cases s; cases t; simp)+

text \<open>A program that replays its trace.\<close>

abbreviation faithful :: "'w platform \<Rightarrow> ('w, 'a) prog \<Rightarrow> bool" where
  "faithful p m \<equiv> does m (\<lambda>x _ cs y. replays p x cs y)"

lemma faithful_emits:
  assumes "faithful p m" "emits m Q"
  shows "does m (\<lambda>x a cs y. replays p x cs y \<and> Q a cs)"
  using assms unfolding does_def emits_def by (metis same_append_eq)

named_theorems faithful_intros \<open>programs that replay their trace\<close>

lemma faithful_return [faithful_intros]: "faithful p (State_Monad.return a)"
  by (rule does_return) simp

lemma faithful_observe [faithful_intros]: "faithful p (observe f)"
  by (rule does_observe) simp

lemma faithful_perform:
  "(\<And>x. platform_step p (c (fst (f x))) x (snd (f x))) \<Longrightarrow> faithful p (perform f c)"
  by (rule does_perform) simp

lemma faithful_bind [faithful_intros]:
  "faithful p m \<Longrightarrow> (\<And>a. faithful p (f a)) \<Longrightarrow> faithful p (State_Monad.bind m f)"
  by (rule does_bind, assumption, rule does_post, assumption) (auto simp: replays_append)

lemma faithful_cases [faithful_intros]:
  "faithful p m \<Longrightarrow> faithful p m' \<Longrightarrow> faithful p (if b then m else m')"
  "(\<And>e. faithful p (f e)) \<Longrightarrow> (\<And>a. faithful p (g a)) \<Longrightarrow> faithful p (case s of Inl e \<Rightarrow> f e | Inr a \<Rightarrow> g a)"
  "faithful p m \<Longrightarrow> (\<And>a. faithful p (h a)) \<Longrightarrow> faithful p (case t of None \<Rightarrow> m | Some a \<Rightarrow> h a)"
  "(\<And>a b. faithful p (k a b)) \<Longrightarrow> faithful p (case q of (a, b) \<Rightarrow> k a b)"
  by (cases s; cases t; cases q; simp)+

lemma client_faithful [faithful_intros]:
  "faithful (rc_platform r) (GetWorkbench r k)" "faithful (rc_platform r) (GetDeployment r k)"
  "faithful (rc_platform r) (GetService r k)" "faithful (rc_platform r) (GetJob r k)"
  "faithful (rc_platform r) (GetPV r n)" "faithful (rc_platform r) (GetPVC r k)"
  "faithful (rc_platform r) (GetSecret r k)" "faithful (rc_platform r) (GetCSIDriver r n)"
  "faithful (rc_platform r) (ListPods r n ls)" "faithful (rc_platform r) (ListJobs r ls)"
  "faithful (rc_platform r) (ListDeployments r ls)" "faithful (rc_platform r) (CreateDeployment r d)"
  "faithful (rc_platform r) (CreateService r svc)" "faithful (rc_platform r) (CreateJob r j)"
  "faithful (rc_platform r) (CreatePersistentVolume r pv)" "faithful (rc_platform r) (CreateClaim r pvc)"
  "faithful (rc_platform r) (UpdateWorkbench r w)" "faithful (rc_platform r) (UpdateStatus r w)"
  "faithful (rc_platform r) (UpdateDeployment r d)" "faithful (rc_platform r) (UpdateJob r j)"
  "faithful (rc_platform r) (DeleteJob r j)" "faithful (rc_platform r) (DeleteAllJobs r n ls)"
  "faithful (rc_platform r) (DeleteAllDeployments r n ls)" "faithful (rc_platform r) (RecordEvent r e)"
  "faithful (rc_platform r) (LookPath r n)" "faithful (rc_platform r) (Now r)"
  "faithful (rc_platform r) (RunCommand r argv)"
  by (simp_all only: client_defs faithful_observe) (rule faithful_perform, simp)+

end
