(* ===== verification/Storage_Passes.thy ===== *)
theory Storage_Passes
  imports Storage_Manager Platform_Steps
begin

text \<open>
  The calls of the storage manager, exactly. \<open>provider_pass\<close> lists the ways in which one provider
  can be handled, as sequences of calls with their answers; \<open>storage_passes\<close> says that the manager handles
  every enabled provider in one of these ways, in their order. \<open>secret_lookup\<close> is also what decides
  which volumes a job gets.
\<close>

section \<open>Drivers and secrets\<close>

text \<open>The calls that look for the driver of a provider, and what they find.\<close>

definition driver_lookup :: "'w reconciler \<Rightarrow> provider \<Rightarrow> bool \<Rightarrow> call list \<Rightarrow> bool" where
  "driver_lookup r p present cs = (case p of
       LocalProvider _ \<Rightarrow> cs = [] \<and> present = cfg_local_enabled (rc_config r)
     | _ \<Rightarrow> (\<exists>g. cs = [GotCSIDriver (GetDriverName p) g] \<and> present = (\<exists>u. g = Inr u)))"

definition complete_secret :: "provider \<Rightarrow> secret \<Rightarrow> bool" where
  "complete_secret p s = (case p of
       S3Provider _ \<Rightarrow> secret_field s ''name'' \<noteq> []
     | NFSProvider _ \<Rightarrow> secret_field s ''server'' \<noteq> [] \<and> secret_field s ''share'' \<noteq> []
     | LocalProvider _ \<Rightarrow> True)"

definition secret_answer :: "provider \<Rightarrow> secret reply \<Rightarrow> secret option" where
  "secret_answer p g = (case g of Inl _ \<Rightarrow> None | Inr s \<Rightarrow> if complete_secret p s then Some s else None)"

text \<open>One read of the secret of a provider, with the secret when it has all its fields.\<close>

definition secret_call :: "provider \<Rightarrow> secret option \<Rightarrow> call list \<Rightarrow> bool" where
  "secret_call p found cs \<longleftrightarrow>
     (\<exists>g. cs = [GotSecret (key (GetSecretName p) (GetSecretNamespace p)) g] \<and> found = secret_answer p g)"

definition secret_lookup :: "'w reconciler \<Rightarrow> provider \<Rightarrow> bool \<Rightarrow> call list \<Rightarrow> bool" where
  "secret_lookup r p present cs = (case p of
       LocalProvider _ \<Rightarrow> cs = [] \<and> present = cfg_local_enabled (rc_config r)
     | _ \<Rightarrow> (\<exists>found. secret_call p found cs \<and> present = (found \<noteq> None)))"

lemma HasDriver_lookup: "emits (HasDriver r p) (driver_lookup r p)"
proof -
  have base: "emits (base_HasDriver r b) (\<lambda>d cs. \<exists>g. cs = [GotCSIDriver (bp_driver b) g] \<and> d = (\<exists>u. g = Inr u))" for b
    unfolding base_HasDriver_def base_hasCSIDriver_def GetCSIDriver_def
    by (rule emits_bind [OF emits_perform [where Q = "\<lambda>a cs. cs = [GotCSIDriver (bp_driver b) a]"]])
       (auto split: sum.splits)
  show ?thesis
    by (cases p) (auto simp: driver_lookup_def local_HasDriver_def GetDriverName_def intro: emits_post [OF base])
qed

lemma getSecret_call:
  "emits (base_getSecret r b) (\<lambda>x cs. \<exists>g. cs = [GotSecret (key (bp_secret b) (bp_secret_namespace b)) g] \<and>
     (case g of Inl _ \<Rightarrow> isl x | Inr s \<Rightarrow> x = Inr s))"
  unfolding base_getSecret_def GetSecret_def
  by (rule emits_bind [OF emits_perform [where
          Q = "\<lambda>a cs. cs = [GotSecret (key (bp_secret b) (bp_secret_namespace b)) a]"]])
    (auto split: sum.splits)

lemma secret_call_answer:
  "base_of p = b \<Longrightarrow> secret_call p (secret_answer p g) [GotSecret (key (bp_secret b) (bp_secret_namespace b)) g]"
  by (auto simp: secret_call_def GetSecretName_def GetSecretNamespace_def)

lemma s3_config_call:
  "emits (s3_getSecretConfig r b) (\<lambda>x cs. \<exists>found. secret_call (S3Provider b) found cs \<and>
     (case found of None \<Rightarrow> isl x | Some s \<Rightarrow> x = Inr (secret_field s ''name'')))"
  unfolding s3_getSecretConfig_def
proof (rule emits_bind [OF getSecret_call], rule emits_return, elim exE conjE)
  fix x :: "go_error + secret" and cs g
  assume "cs = [GotSecret (key (bp_secret b) (bp_secret_namespace b)) g]" "case g of Inl _ \<Rightarrow> isl x | Inr s \<Rightarrow> x = Inr s"
  then show "\<exists>found. secret_call (S3Provider b) found (cs @ []) \<and>
      (case found of
         None \<Rightarrow> isl (case x of Inl e \<Rightarrow> Inl e | Inr s \<Rightarrow> let name = secret_field s ''name'' in
           if name = [] then Inl (SecretFieldMissing ''JuiceFS'' ''name'') else Inr name)
       | Some s \<Rightarrow> (case x of Inl e \<Rightarrow> Inl e | Inr s \<Rightarrow> let name = secret_field s ''name'' in
           if name = [] then Inl (SecretFieldMissing ''JuiceFS'' ''name'') else Inr name) = Inr (secret_field s ''name''))"
    using secret_call_answer [of "S3Provider b" b g]
    by (intro exI [of _ "secret_answer (S3Provider b) g"])
      (cases g; cases x; simp add: secret_answer_def complete_secret_def)
qed

lemma nfs_config_call:
  "emits (nfs_getSecretConfig r b) (\<lambda>x cs. \<exists>found. secret_call (NFSProvider b) found cs \<and>
     (case found of None \<Rightarrow> isl x | Some s \<Rightarrow> x = Inr (secret_field s ''server'', secret_field s ''share'')))"
  unfolding nfs_getSecretConfig_def
proof (rule emits_bind [OF getSecret_call], rule emits_return, elim exE conjE)
  fix x :: "go_error + secret" and cs g
  assume "cs = [GotSecret (key (bp_secret b) (bp_secret_namespace b)) g]" "case g of Inl _ \<Rightarrow> isl x | Inr s \<Rightarrow> x = Inr s"
  then show "\<exists>found. secret_call (NFSProvider b) found (cs @ []) \<and>
      (case found of
         None \<Rightarrow> isl (case x of Inl e \<Rightarrow> Inl e | Inr s \<Rightarrow>
           let server = secret_field s ''server''; share = secret_field s ''share'' in
           if server = [] then Inl (SecretFieldMissing ''NFS'' ''server'')
           else if share = [] then Inl (SecretFieldMissing ''NFS'' ''share'') else Inr (server, share))
       | Some s \<Rightarrow> (case x of Inl e \<Rightarrow> Inl e | Inr s \<Rightarrow>
           let server = secret_field s ''server''; share = secret_field s ''share'' in
           if server = [] then Inl (SecretFieldMissing ''NFS'' ''server'')
           else if share = [] then Inl (SecretFieldMissing ''NFS'' ''share'') else Inr (server, share)) =
           Inr (secret_field s ''server'', secret_field s ''share''))"
    using secret_call_answer [of "NFSProvider b" b g]
    by (intro exI [of _ "secret_answer (NFSProvider b) g"])
      (cases g; cases x; simp add: secret_answer_def complete_secret_def Let_def)
qed

lemma HasSecret_lookup: "emits (HasSecret r p) (secret_lookup r p)"
proof -
  have s3: "emits (s3_HasSecret r b) (secret_lookup r (S3Provider b))" for b
    unfolding s3_HasSecret_def
    by (rule emits_bind [OF s3_config_call]) (auto simp: secret_lookup_def isl_def split: sum.splits option.splits)
  have nfs: "emits (nfs_HasSecret r b) (secret_lookup r (NFSProvider b))" for b
    unfolding nfs_HasSecret_def
    by (rule emits_bind [OF nfs_config_call]) (auto simp: secret_lookup_def isl_def split: sum.splits option.splits)
  have "emits (local_HasSecret r b) (secret_lookup r (LocalProvider b))" for b
    by (simp add: local_HasSecret_def secret_lookup_def)
  then show ?thesis
    by (cases p) (simp_all only: HasSecret.simps s3 nfs)
qed

section \<open>Volumes and claims\<close>

text \<open>The volume a provider describes, if it can: the secret is read once more for it.\<close>

definition volume_described ::
  "'w reconciler \<Rightarrow> workbench \<Rightarrow> provider \<Rightarrow> persistent_volume option \<Rightarrow> call list \<Rightarrow> bool" where
  "volume_described r w p x cs = (case p of
       S3Provider b \<Rightarrow> (\<exists>found. secret_call p found cs \<and>
         x = map_option (\<lambda>s. base_CreatePV b (wb_namespace w) [(''name'', secret_field s ''name''), (''path'', ''/'')]
               (Some \<lparr>sr_name = bp_secret b, sr_namespace = bp_secret_namespace b\<rparr>)) found)
     | NFSProvider b \<Rightarrow> (\<exists>found. secret_call p found cs \<and>
         x = map_option (\<lambda>s. base_CreatePV b (wb_namespace w)
               [(''server'', secret_field s ''server''), (''share'', secret_field s ''share'')] None) found)
     | LocalProvider b \<Rightarrow> cs = [] \<and> (\<exists>pv. x = Some pv \<and> om_name (pv_meta pv) = getPVName p (wb_namespace w) \<and>
         pv_source pv = PVHostPath (local_host_path (rc_config r)) ''DirectoryOrCreate''))"

text \<open>The preparation of the directories: nothing, or one job.\<close>

definition set_up :: "'w reconciler \<Rightarrow> workbench \<Rightarrow> provider \<Rightarrow> bool \<Rightarrow> call list \<Rightarrow> bool" where
  "set_up r w p ok cs = (case p of
       S3Provider _ \<Rightarrow> cs = [] \<and> ok
     | NFSProvider _ \<Rightarrow> (\<exists>found ss. secret_call p found ss \<and> (case found of
           None \<Rightarrow> cs = ss \<and> \<not> ok
         | Some s \<Rightarrow> (\<exists>g. cs = ss @ [CreatedJob (nfs_setup_job w (secret_field s ''server'') (secret_field s ''share'')) g] \<and>
             ok = (\<exists>u. g = Inr u))))
     | LocalProvider _ \<Rightarrow> (\<exists>g. cs = [CreatedJob (local_setup_job (rc_config r) w) g] \<and> ok = (\<exists>u. g = Inr u)))"

text \<open>The volume is looked up; when it is missing the directories are prepared, and then it is created.\<close>

definition volume_ensured ::
  "'w reconciler \<Rightarrow> workbench \<Rightarrow> provider \<Rightarrow> persistent_volume \<Rightarrow> bool \<Rightarrow> call list \<Rightarrow> bool" where
  "volume_ensured r w p pv ok cs \<longleftrightarrow> (\<exists>g tl. cs = GotPV (om_name (pv_meta pv)) g # tl \<and> (case g of
       Inr _ \<Rightarrow> tl = [] \<and> ok
     | Inl e \<Rightarrow>
         if e \<noteq> NotFound then tl = [] \<and> \<not> ok
         else (\<exists>ready ss. set_up r w p ready ss \<and>
           (if ready then \<exists>c. tl = ss @ [CreatedPV pv c] \<and> ok = (\<exists>u. c = Inr u) else tl = ss \<and> \<not> ok))))"

definition claim_ensured :: "workbench \<Rightarrow> provider \<Rightarrow> bool \<Rightarrow> call list \<Rightarrow> bool" where
  "claim_ensured w p ok cs \<longleftrightarrow> (\<exists>g tl. cs = GotPVC (key (GetPVCName p (wb_namespace w)) (wb_namespace w)) g # tl \<and> (case g of
       Inr _ \<Rightarrow> tl = [] \<and> ok
     | Inl e \<Rightarrow>
         if e \<noteq> NotFound then tl = [] \<and> \<not> ok
         else (\<exists>c. tl = [CreatedPVC (CreatePVC p w) c] \<and> ok = (\<exists>u. c = Inr u))))"

abbreviation found_value :: "go_error + 'a \<Rightarrow> 'a option" where
  "found_value x \<equiv> (case x of Inl _ \<Rightarrow> None | Inr a \<Rightarrow> Some a)"

lemma CreatePV_described:
  "emits (CreatePV r p w) (\<lambda>x cs. volume_described r w p (found_value x) cs)"
proof -
  have s3: "emits (s3_CreatePV r b w) (\<lambda>x cs. volume_described r w (S3Provider b) (found_value x) cs)" for b
    unfolding s3_CreatePV_def
    by (rule emits_bind [OF s3_config_call], rule emits_return, elim exE conjE)
      (auto simp: volume_described_def isl_def split: option.splits intro!: exI)
  have nfs: "emits (nfs_CreatePV r b w) (\<lambda>x cs. volume_described r w (NFSProvider b) (found_value x) cs)" for b
    unfolding nfs_CreatePV_def
    by (rule emits_bind [OF nfs_config_call], rule emits_return, elim exE conjE)
      (auto simp: volume_described_def isl_def split: option.splits intro!: exI)
  have "emits (local_CreatePV r b w) (\<lambda>x cs. volume_described r w (LocalProvider b) (found_value x) cs)" for b
    by (simp add: local_CreatePV_def volume_described_def getPVName_def)
  then show ?thesis
    by (cases p) (simp_all only: CreatePV.simps s3 nfs)
qed

lemma CreateJob_call: "emits (CreateJob r j) (\<lambda>a cs. cs = [CreatedJob j a])"
  by (simp add: CreateJob_def emits_perform)

lemma Setup_done: "emits (Setup r p w) (\<lambda>x cs. set_up r w p (\<exists>u. x = Inr u) cs)"
proof -
  have nfs: "emits (nfs_Setup r b w) (\<lambda>x cs. set_up r w (NFSProvider b) (\<exists>u. x = Inr u) cs)" for b
    unfolding nfs_Setup_def
    apply (rule emits_bind [OF nfs_config_call], rule emits_sum)
     apply (auto simp: set_up_def split: option.splits)[1]
    apply (rule emits_prod)
    apply (rule emits_bind [OF CreateJob_call], rule emits_return)
    apply (auto simp: set_up_def split: option.splits sum.splits)
    done
  have local: "emits (local_Setup r b w) (\<lambda>x cs. set_up r w (LocalProvider b) (\<exists>u. x = Inr u) cs)" for b
    unfolding local_Setup_def
    by (rule emits_bind [OF CreateJob_call]) (auto simp: set_up_def split: sum.splits)
  have "emits (s3_Setup r b w) (\<lambda>x cs. set_up r w (S3Provider b) (\<exists>u. x = Inr u) cs)" for b
    by (simp add: s3_Setup_def set_up_def)
  then show ?thesis
    by (cases p) (simp_all only: Setup.simps nfs local)
qed

lemma ensure_volume_calls: "emits (ensure_volume r w p pv) (\<lambda>x cs. volume_ensured r w p pv (\<exists>u. x = Inr u) cs)"
  unfolding ensure_volume_def
  apply (rule emits_bind [OF GetPV_emits], rule emits_sum)
   apply (rule emits_if)
    apply (simp add: volume_ensured_def IsNotFound_def)
   apply (rule emits_bind [OF Setup_done], rule emits_sum)
    apply (auto simp: volume_ensured_def IsNotFound_def)[1]
   apply (rule emits_bind [OF CreatePersistentVolume_emits], rule emits_return)
   apply (simp add: volume_ensured_def IsNotFound_def)
   apply (rule exI [of _ True])
   apply (auto split: sum.splits)[1]
  apply (simp add: volume_ensured_def)
  done

lemma ensure_claim_calls:
  "emits (ensure_claim r w p) (\<lambda>x cs. claim_ensured w p (\<exists>u. x = Inr u) cs \<and>
     (\<forall>n. x = Inr n \<longrightarrow> n = GetPVCName p (wb_namespace w)))"
  unfolding ensure_claim_def Let_def provider.claim_key
  apply (rule emits_bind [OF GetPVC_emits], rule emits_sum)
   apply (rule emits_if)
    apply (simp add: claim_ensured_def IsNotFound_def)
   apply (rule emits_bind [OF CreateClaim_emits], rule emits_return)
   apply (auto simp: claim_ensured_def IsNotFound_def split: sum.splits)[1]
  apply (simp add: claim_ensured_def)
  done

section \<open>One provider\<close>

definition warned :: "'w reconciler \<Rightarrow> kube_event \<Rightarrow> call list" where
  "warned r e = (if rc_has_recorder r then [Recorded e] else [])"

text \<open>The six ways to handle a provider, with the claim that is recorded for it at the end.\<close>

inductive provider_pass :: "'w reconciler \<Rightarrow> workbench \<Rightarrow> provider \<Rightarrow> string option \<Rightarrow> call list \<Rightarrow> bool" for r w p where
  driver_missing: "driver_lookup r p False ds \<Longrightarrow> provider_pass r w p None (ds @ warned r (driver_missing_event p))"
| secret_missing: "driver_lookup r p True ds \<Longrightarrow> secret_lookup r p False ss \<Longrightarrow>
    provider_pass r w p None (ds @ ss @ warned r (secret_missing_event p))"
| not_described: "driver_lookup r p True ds \<Longrightarrow> secret_lookup r p True ss \<Longrightarrow> volume_described r w p None vs \<Longrightarrow>
    provider_pass r w p None (ds @ ss @ vs)"
| no_volume: "driver_lookup r p True ds \<Longrightarrow> secret_lookup r p True ss \<Longrightarrow> volume_described r w p (Some pv) vs \<Longrightarrow>
    volume_ensured r w p pv False es \<Longrightarrow> provider_pass r w p None (ds @ ss @ vs @ es)"
| no_claim: "driver_lookup r p True ds \<Longrightarrow> secret_lookup r p True ss \<Longrightarrow> volume_described r w p (Some pv) vs \<Longrightarrow>
    volume_ensured r w p pv True es \<Longrightarrow> claim_ensured w p False ts \<Longrightarrow>
    provider_pass r w p None (ds @ ss @ vs @ es @ ts)"
| claimed: "driver_lookup r p True ds \<Longrightarrow> secret_lookup r p True ss \<Longrightarrow> volume_described r w p (Some pv) vs \<Longrightarrow>
    volume_ensured r w p pv True es \<Longrightarrow> claim_ensured w p True ts \<Longrightarrow>
    provider_pass r w p (Some (GetPVCName p (wb_namespace w))) (ds @ ss @ vs @ es @ ts)"

definition recorded_claim :: "go_error + string \<Rightarrow> string option" where
  "recorded_claim x = (case x of Inl _ \<Rightarrow> None | Inr n \<Rightarrow> if n = [] then None else Some n)"

lemma recorded_claim_simps [simp]:
  "recorded_claim (Inl e) = None" "recorded_claim (Inr []) = None"
  "recorded_claim (Inr (GetPVCName p ns)) = Some (GetPVCName p ns)"
  by (simp_all add: recorded_claim_def GetPVCName_def base_GetPVCName_def)

lemma warning_emits:
  "emits (record_if_present r e \<bind> (\<lambda>_. State_Monad.return x)) (\<lambda>a cs. a = x \<and> cs = warned r e)"
  unfolding record_if_present_def RecordEvent_def
  by (rule emits_bind [where R = "\<lambda>_ cs. cs = warned r e"])
    (auto simp: warned_def intro!: emits_if emits_perform)

lemma processStorageProvider_pass:
  "emits (processStorageProvider r w p) (\<lambda>x cs. provider_pass r w p (recorded_claim x) cs)"
proof -
  have claim: "emits (ensure_claim r w p) (\<lambda>x cs. \<exists>ok. claim_ensured w p ok cs \<and>
      recorded_claim x = (if ok then Some (GetPVCName p (wb_namespace w)) else None))"
  proof (rule emits_post [OF ensure_claim_calls])
    fix x :: "go_error + string" and cs
    assume "claim_ensured w p (\<exists>u. x = Inr u) cs \<and> (\<forall>n. x = Inr n \<longrightarrow> n = GetPVCName p (wb_namespace w))"
    then show "\<exists>ok. claim_ensured w p ok cs \<and>
        recorded_claim x = (if ok then Some (GetPVCName p (wb_namespace w)) else None)"
      by (intro exI [of _ "\<exists>u. x = Inr u"]) (cases x; simp)
  qed
  show ?thesis
    unfolding processStorageProvider_def
    apply (rule emits_bind [OF HasDriver_lookup], rule emits_if)
     apply (rule emits_post [OF warning_emits])
     apply (simp add: provider_pass.driver_missing)
    apply (rule emits_bind [OF HasSecret_lookup], rule emits_if)
     apply (rule emits_post [OF warning_emits])
     apply (simp add: provider_pass.secret_missing)
    apply (rule emits_bind [OF CreatePV_described], rule emits_sum)
     apply (simp add: provider_pass.not_described)
    apply (rule emits_bind [OF ensure_volume_calls], rule emits_sum)
     apply (simp, rule provider_pass.no_volume, assumption+)
    apply (rule emits_post [OF claim], elim exE conjE)
    subgoal for d ds s ss x vs pv y es u z ts ok
      by (cases ok) (simp_all add: provider_pass.no_claim provider_pass.claimed)
    done
qed

section \<open>All enabled providers\<close>

text \<open>The claims that were recorded, by storage type; a later provider of a type replaces an earlier.\<close>

fun record_claims :: "(provider \<times> string option) list \<Rightarrow> (storage_type \<rightharpoonup> string) \<Rightarrow> storage_type \<rightharpoonup> string" where
  "record_claims [] m = m"
| "record_claims ((p, None) # ps) m = record_claims ps m"
| "record_claims ((p, Some n) # ps) m = record_claims ps (m(GetStorageType p \<mapsto> n))"

definition storage_passes ::
  "'w reconciler \<Rightarrow> workbench \<Rightarrow> provider list \<Rightarrow> (string option \<times> call list) list \<Rightarrow> bool" where
  "storage_passes r w ps runs \<longleftrightarrow> list_all2 (\<lambda>p (claim, cs). provider_pass r w p claim cs \<and> provider_calls w p cs) ps runs"

lemma process_all_passes:
  "emits (process_all r w ps m) (\<lambda>x cs. \<exists>runs. cs = concat (map snd runs) \<and> storage_passes r w ps runs \<and>
     x = record_claims (zip ps (map fst runs)) m)"
proof (induction ps arbitrary: m)
  case (Cons p ps)
  have one: "emits (processStorageProvider r w p) (\<lambda>x cs. provider_pass r w p (recorded_claim x) cs \<and> provider_calls w p cs)"
    unfolding provider_calls_def by (rule emits_conj [OF processStorageProvider_pass processStorageProvider_emits])
  have rest: "emits (process_all r w ps m') (\<lambda>x ds. \<exists>runs. cs @ ds = concat (map snd runs) \<and>
      storage_passes r w (p # ps) runs \<and> x = record_claims (zip (p # ps) (map fst runs)) m)"
    if first: "provider_pass r w p c cs \<and> provider_calls w p cs" "m' = record_claims [(p, c)] m" for c cs m'
  proof (rule emits_post [OF Cons.IH [of m']], elim exE conjE)
    fix x ds runs
    assume "ds = concat (map snd runs)" "storage_passes r w ps runs" "x = record_claims (zip ps (map fst runs)) m'"
    then show "\<exists>runs. cs @ ds = concat (map snd runs) \<and> storage_passes r w (p # ps) runs \<and>
        x = record_claims (zip (p # ps) (map fst runs)) m"
      using first by (intro exI [of _ "(c, cs) # runs"], cases c) (simp_all add: storage_passes_def)
  qed
  show ?case
    unfolding process_all.simps
    by (rule emits_bind [OF one], rule emits_sum; rule rest, assumption) (simp_all add: recorded_claim_def)
qed (simp add: storage_passes_def)

lemma ProcessEnabledStorage_passes:
  "emits (ProcessEnabledStorage r sm w) (\<lambda>x cs. \<exists>runs. cs = concat (map snd runs) \<and>
     storage_passes r w (GetEnabledProviders sm w) runs \<and>
     x = Inr (record_claims (zip (GetEnabledProviders sm w) (map fst runs)) Map.empty))"
  unfolding ProcessEnabledStorage_def by (rule emits_bind [OF process_all_passes]) auto

section \<open>The volumes and mounts of a job\<close>

text \<open>The providers whose secret was found, from the calls that looked for each.\<close>

definition serves :: "'w reconciler \<Rightarrow> provider \<Rightarrow> call list \<Rightarrow> bool" where
  "serves r p cs = (case p of
       LocalProvider _ \<Rightarrow> cfg_local_enabled (rc_config r)
     | _ \<Rightarrow> (\<exists>k s. cs = [GotSecret k (Inr s)] \<and> complete_secret p s))"

definition serving :: "'w reconciler \<Rightarrow> provider list \<Rightarrow> call list list \<Rightarrow> provider list" where
  "serving r ps css = map fst (filter (\<lambda>(p, cs). serves r p cs) (zip ps css))"

definition secrets_looked_up :: "'w reconciler \<Rightarrow> provider list \<Rightarrow> call list list \<Rightarrow> bool" where
  "secrets_looked_up r ps css \<longleftrightarrow> list_all2 (\<lambda>p cs. secret_lookup r p (serves r p cs) cs) ps css"

lemma secret_call_complete:
  "secret_call p found cs \<Longrightarrow> (found \<noteq> None) = (\<exists>k s. cs = [GotSecret k (Inr s)] \<and> complete_secret p s)"
proof -
  assume "secret_call p found cs"
  then obtain k g where "cs = [GotSecret k g]" "found = secret_answer p g" by (auto simp: secret_call_def)
  then show ?thesis by (cases g) (simp_all add: secret_answer_def)
qed

lemma secret_lookup_serves: "secret_lookup r p present cs \<Longrightarrow> present = serves r p cs"
proof (cases p)
  case (S3Provider b)
  assume "secret_lookup r p present cs"
  then obtain found where "secret_call p found cs" "present = (found \<noteq> None)"
    by (auto simp: secret_lookup_def S3Provider)
  then show ?thesis unfolding serves_def using secret_call_complete by (simp add: S3Provider)
next
  case (NFSProvider b)
  assume "secret_lookup r p present cs"
  then obtain found where "secret_call p found cs" "present = (found \<noteq> None)"
    by (auto simp: secret_lookup_def NFSProvider)
  then show ?thesis unfolding serves_def using secret_call_complete by (simp add: NFSProvider)
qed (simp add: secret_lookup_def serves_def)

lemma collect_volumes_served:
  "emits (collect_volumes r w user ns ps vs ms) (\<lambda>x cs. \<exists>css. cs = concat css \<and> secrets_looked_up r ps css \<and>
     x = (vs @ volumes_of w (serving r ps css), ms @ mounts_of user ns (serving r ps css)))"
proof (induction ps arbitrary: vs ms)
  case (Cons p ps)
  have step: "emits (collect_volumes r w user ns ps vs' ms') (\<lambda>x ds. \<exists>css. cs @ ds = concat css \<and>
      secrets_looked_up r (p # ps) css \<and>
      x = (vs @ volumes_of w (serving r (p # ps) css), ms @ mounts_of user ns (serving r (p # ps) css)))"
    if first: "secret_lookup r p present cs" "vs' = (if present then vs @ volumes_of w [p] else vs)"
      "ms' = (if present then ms @ mounts_of user ns [p] else ms)" for cs present vs' ms'
  proof (rule emits_post [OF Cons.IH], elim exE conjE)
    fix x ds css
    assume "ds = concat css" "secrets_looked_up r ps css"
      "x = (vs' @ volumes_of w (serving r ps css), ms' @ mounts_of user ns (serving r ps css))"
    then show "\<exists>css. cs @ ds = concat css \<and> secrets_looked_up r (p # ps) css \<and>
        x = (vs @ volumes_of w (serving r (p # ps) css), ms @ mounts_of user ns (serving r (p # ps) css))"
      using first secret_lookup_serves [OF first(1)]
      by (intro exI [of _ "cs # css"]) (simp add: secrets_looked_up_def serving_def)
  qed
  show ?case
    unfolding collect_volumes.simps
    by (rule emits_bind [OF HasSecret_lookup], rule emits_if; rule step, assumption) simp_all
qed (simp add: secrets_looked_up_def serving_def)

lemma GetVolumeAndMountSpecs_served:
  "emits (GetVolumeAndMountSpecs r sm w user ns) (\<lambda>x cs. \<exists>css. cs = concat css \<and>
     secrets_looked_up r (GetEnabledProviders sm w) css \<and>
     x = Inr (volumes_of w (serving r (GetEnabledProviders sm w) css),
              mounts_of user ns (serving r (GetEnabledProviders sm w) css)))"
  unfolding GetVolumeAndMountSpecs_def by (rule emits_bind [OF collect_volumes_served]) auto

section \<open>Replays\<close>

lemma provider_faithful [faithful_intros]:
  "faithful (rc_platform r) (HasDriver r p)" "faithful (rc_platform r) (HasSecret r p)"
  "faithful (rc_platform r) (Setup r p w)" "faithful (rc_platform r) (CreatePV r p w)"
  by (cases p; simp add: base_HasDriver_def base_hasCSIDriver_def local_HasDriver_def s3_HasSecret_def
      nfs_HasSecret_def local_HasSecret_def s3_Setup_def nfs_Setup_def local_Setup_def s3_CreatePV_def
      nfs_CreatePV_def local_CreatePV_def s3_getSecretConfig_def nfs_getSecretConfig_def base_getSecret_def;
      intro faithful_intros)+

lemma processStorageProvider_faithful [faithful_intros]:
  "faithful (rc_platform r) (processStorageProvider r w p)"
  unfolding processStorageProvider_def ensure_volume_def ensure_claim_def record_if_present_def Let_def
  by (intro faithful_intros)

lemma process_all_faithful [faithful_intros]: "faithful (rc_platform r) (process_all r w ps m)"
  by (induction ps arbitrary: m) (auto intro!: faithful_intros)

lemma collect_volumes_faithful [faithful_intros]:
  "faithful (rc_platform r) (collect_volumes r w user ns ps vs ms)"
  by (induction ps arbitrary: vs ms) (auto intro!: faithful_intros)

end
