(* ===== verification/Sample_Objects.thy ===== *)
theory Sample_Objects
  imports K8s_Client
begin

text \<open>
  Concrete objects for the witnesses of the properties: a configuration, an application, a
  workbench whose server is ready, the pod of that server, and the same workbench after its
  deletion was requested.
\<close>

definition sample_config :: config where
  "sample_config =
     \<lparr>cfg_registry = ''registry.example.org'', cfg_apps_repository = ''apps'', cfg_socat_image = [],
      cfg_xpra_image = [], cfg_init_image = [], cfg_juicefs_secret = ''juicefs-secret'',
      cfg_juicefs_namespace = ''kube-system'', cfg_nfs_secret = ''nfs-secret'',
      cfg_nfs_namespace = ''kube-system'', cfg_local_enabled = True, cfg_local_path = [],
      cfg_debug = False, cfg_workbench_priority = [], cfg_application_priority = []\<rparr>"

definition sample_app :: "string \<Rightarrow> app_state \<Rightarrow> workbench_app" where
  "sample_app n s =
     \<lparr>app_name = n, app_version = [], app_state = s,
      app_image = Some \<lparr>img_registry = ''registry.example.org'', img_repository = ''apps/'' @ n, img_tag = ''1''\<rparr>,
      app_shm_size = None, app_resources = None, app_kiosk = None\<rparr>"

definition ready_server :: server_state where
  "ready_server =
     \<lparr>ss_revision = -1, ss_status = ServerProgressing,
      ss_pod = Some \<lparr>ph_status = PodReady, ph_ready = True, ph_restart_count = 0, ph_message = []\<rparr>\<rparr>"

definition sample_workbench :: "string \<Rightarrow> workbench_app gomap \<Rightarrow> workbench" where
  "sample_workbench ns apps =
     \<lparr>wb_meta = (new_meta ''wb'' ns [])\<lparr>om_finalizers := [finalizer], om_uid := ''u1''\<rparr>,
      wb_spec =
        \<lparr>ws_server = \<lparr>srv_version = [], srv_width = 0, srv_height = 0, srv_user = ''jane'', srv_user_id = 1001\<rparr>,
         ws_init_version = None, ws_apps = apps, ws_service_account = ''default'', ws_pull_secrets = [],
         ws_storage = Some \<lparr>st_s3 = False, st_nfs = False, st_local = True\<rparr>\<rparr>,
      wb_status = \<lparr>wst_server = ready_server, wst_apps = []\<rparr>\<rparr>"

definition sample_pod :: "string \<Rightarrow> pod" where
  "sample_pod ns =
     \<lparr>pod_meta = new_meta ''wb-server-0'' ns [(matchingLabel, ''wb'')],
      pod_init_statuses = [\<lparr>cs_name = ''xpra-server-bind'', cs_ready = True, cs_restart_count = 0,
        cs_waiting = None, cs_running = Some 0, cs_terminated = None\<rparr>],
      pod_statuses = [\<lparr>cs_name = ''xpra-server'', cs_ready = True, cs_restart_count = 0,
        cs_waiting = None, cs_running = Some 0, cs_terminated = None\<rparr>]\<rparr>"

text \<open>A live workbench with one application, and its key.\<close>

definition sample_key :: namespaced_name where
  "sample_key = key ''wb'' ''ns1''"

definition live_workbench :: workbench where
  "live_workbench = sample_workbench ''ns1'' [(''1'', sample_app ''kitty'' AppRunning)]"

text \<open>A workbench whose deletion was requested.\<close>

definition dying_workbench :: workbench where
  "dying_workbench = live_workbench\<lparr>wb_meta := (wb_meta live_workbench)\<lparr>om_deletion := Some 5\<rparr>\<rparr>"

lemma sample_facts [simp]:
  "wb_name live_workbench = ''wb''" "wb_namespace live_workbench = ''ns1''"
  "wb_name dying_workbench = ''wb''" "wb_namespace dying_workbench = ''ns1''"
  "om_finalizers (wb_meta live_workbench) = [finalizer]"
  "om_finalizers (wb_meta dying_workbench) = [finalizer]"
  "key_of (wb_meta dying_workbench) = sample_key" "key_of (wb_meta live_workbench) = sample_key"
  by (simp_all add: live_workbench_def dying_workbench_def sample_workbench_def key_of_def sample_key_def)

end
