(* ===== verification/Convergence.thy ===== *)
theory Convergence
  imports Prelude
begin

text \<open>
  Two operations of the controller bring an object found in the cluster in line with the
  model built from the workbench and say whether a write is needed. The locale
  \<open>convergent_update\<close> states what the control loop expects of them: a flag that is raised
  exactly when the object changes, and no second change. From it follows that however often
  the loop runs, at most one write is made and the result is that of the first run.

  A Go run-time panic is a value: \<open>'a or_panic\<close> is the panic or the result.
\<close>

datatype panic = IndexOutOfRange | NilDereference

type_synonym 'a or_panic = "panic + 'a"

text \<open>The flags of a sequence of runs against the same model, each on what the last one left.\<close>

primrec update_flags :: "('a \<Rightarrow> 'a \<Rightarrow> bool \<times> 'a) \<Rightarrow> 'a \<Rightarrow> nat \<Rightarrow> 'a \<Rightarrow> bool list" where
  "update_flags upd s 0 d = []"
| "update_flags upd s (Suc n) d = fst (upd s d) # update_flags upd s n (snd (upd s d))"

locale convergent_update =
  fixes upd :: "'a \<Rightarrow> 'a \<Rightarrow> bool \<times> 'a"
    and model :: "'a \<Rightarrow> bool"
    and found :: "'a \<Rightarrow> bool"
  assumes exact: "model s \<Longrightarrow> found d \<Longrightarrow> fst (upd s d) \<longleftrightarrow> snd (upd s d) \<noteq> d"
    and found_after: "model s \<Longrightarrow> found d \<Longrightarrow> found (snd (upd s d))"
    and once: "model s \<Longrightarrow> found d \<Longrightarrow> snd (upd s (snd (upd s d))) = snd (upd s d)"
begin

lemma silent_after: "model s \<Longrightarrow> found d \<Longrightarrow> \<not> fst (upd s (snd (upd s d)))"
  using exact [OF _ found_after] once by blast

lemma flags_quiet:
  assumes "model s" "found d" "snd (upd s d) = d"
  shows "update_flags upd s n d = replicate n False"
  using assms exact by (induction n) auto

lemma flags_once:
  assumes "model s" "found d"
  shows "update_flags upd s (Suc n) d = fst (upd s d) # replicate n False"
  using assms flags_quiet [OF assms(1) found_after [OF assms] once [OF assms]] by simp

lemma at_most_one_write:
  assumes "model s" "found d"
  shows "length (filter id (update_flags upd s n d)) \<le> 1"
  using flags_once [OF assms] by (cases n) auto

end

end
