(* ===== verification/Server_Deployment.thy ===== *)
theory Server_Deployment
  imports Sample_Objects Convergence
begin

text \<open>
  \<open>internal/controller/deployment.go\<close>: the probes, the security context and the deployment
  of the Xpra server with its socat sidecar (\<open>initDeployment\<close>), the update of a deployment
  found in the cluster (\<open>updateDeployment\<close>, with the slice indexing that can panic), and
  \<open>deleteDeployments\<close>. The registry and repository prefixes are computed by the same few
  lines in \<open>job.go\<close>, which uses the definitions of this theory.
\<close>

section \<open>Probes and security\<close>

definition NewHTTPProbe :: "string \<Rightarrow> string \<Rightarrow> int \<Rightarrow> int \<Rightarrow> probe" where
  "NewHTTPProbe path portName delay period =
     \<lparr>pr_handler = HTTPGet path (FromString portName), pr_initial_delay = to_int32 delay,
      pr_period = to_int32 period, pr_timeout = 2, pr_success = 1, pr_failure = 10\<rparr>"

definition NewTCPProbe :: "string \<Rightarrow> int \<Rightarrow> int \<Rightarrow> probe" where
  "NewTCPProbe portName delay period =
     \<lparr>pr_handler = TCPSocket (FromString portName), pr_initial_delay = to_int32 delay,
      pr_period = to_int32 period, pr_timeout = 2, pr_success = 1, pr_failure = 10\<rparr>"

definition debug_security :: security_context where
  "debug_security =
     \<lparr>sc_run_as_user = Some 0, sc_run_as_group = Some 0, sc_run_as_non_root = Some False,
      sc_privileged = Some True, sc_allow_escalation = Some True, sc_capabilities = None\<rparr>"

definition buildSecurityContext :: "bool \<Rightarrow> security_context option" where
  "buildSecurityContext debugMode = (if debugMode then Some debug_security else None)"

definition debug_annotations :: "string gomap \<Rightarrow> string gomap" where
  "debug_annotations m =
     map_put ''chorus-tre.ch/debug-warning'' ''Elevated privileges enabled. Not for production use.''
       (map_put ''chorus-tre.ch/debug-mode'' ''enabled'' m)"

section \<open>Images\<close>

definition registry_prefix :: "config \<Rightarrow> string" where
  "registry_prefix cfg =
     (if cfg_registry cfg \<noteq> [] then TrimRight (cfg_registry cfg) ''/'' @ ''/'' else [])"

definition repository_prefix :: "config \<Rightarrow> string" where
  "repository_prefix cfg =
     (if cfg_apps_repository cfg \<noteq> [] then Trim (cfg_apps_repository cfg) ''/'' @ ''/'' else [])"

definition socat_image :: "config \<Rightarrow> string" where
  "socat_image cfg =
     (if cfg_socat_image cfg = [] then ''alpine/socat:latest'' else cfg_socat_image cfg)"

definition socat_pull_policy :: "config \<Rightarrow> pull_policy" where
  "socat_pull_policy cfg =
     (if HasSuffix (socat_image cfg) '':latest'' \<or> \<not> Contains (socat_image cfg) '':''
      then PullAlways else PullIfNotPresent)"

definition server_version :: "workbench \<Rightarrow> string" where
  "server_version w =
     (let v = srv_version (ws_server (wb_spec w)) in if v = [] then ''latest'' else v)"

definition server_image :: "workbench \<Rightarrow> config \<Rightarrow> string" where
  "server_image w cfg =
     (let base = (if cfg_xpra_image cfg = []
                  then registry_prefix cfg @ repository_prefix cfg @ ''xpra-server''
                  else cfg_xpra_image cfg)
      in base @ '':'' @ server_version w)"

definition server_pull_policy :: "workbench \<Rightarrow> pull_policy" where
  "server_pull_policy w = (if server_version w = ''latest'' then PullAlways else PullIfNotPresent)"

section \<open>The deployment\<close>

definition x11_volume :: volume where
  "x11_volume = \<lparr>vol_name = ''x11-unix'', vol_source = EmptyDir [] None\<rparr>"

definition x11_mounts :: "volume_mount list" where
  "x11_mounts = [\<lparr>vm_name = vol_name x11_volume, vm_path = ''/tmp/.X11-unix'', vm_sub_path = []\<rparr>]"

definition sidecar_container :: "config \<Rightarrow> container" where
  "sidecar_container cfg =
     (new_container ''xpra-server-bind'' (socat_image cfg))
       \<lparr>ct_pull_policy := Some (socat_pull_policy cfg),
        ct_restart := Some ''Always'',
        ct_ports := [\<lparr>cp_name = ''x11-socket'', cp_port = 6080\<rparr>],
        ct_args := [''TCP-LISTEN:6080,fork,bind=0.0.0.0'', ''UNIX-CONNECT:/tmp/.X11-unix/X80''],
        ct_mounts := x11_mounts,
        ct_liveness := Some (NewTCPProbe ''x11-socket'' 1 2),
        ct_readiness := Some (NewTCPProbe ''x11-socket'' 1 2)\<rparr>"

definition resolution_env :: "workbench \<Rightarrow> env_var list" where
  "resolution_env w =
     (let s = ws_server (wb_spec w) in
      if srv_width s \<noteq> 0 \<and> srv_height s \<noteq> 0
      then [env ''INITIAL_RESOLUTION'' (Itoa (srv_width s) @ ''x'' @ Itoa (srv_height s))]
      else [])"

definition server_container :: "workbench \<Rightarrow> config \<Rightarrow> container" where
  "server_container w cfg =
     (new_container ''xpra-server'' (server_image w cfg))
       \<lparr>ct_pull_policy := Some (server_pull_policy w),
        ct_ports := [\<lparr>cp_name = ''http'', cp_port = 8080\<rparr>],
        ct_env := [env ''CARD'' []] @ resolution_env w,
        ct_mounts := x11_mounts,
        ct_liveness := Some (NewHTTPProbe ''/'' ''http'' 1 2),
        ct_readiness := Some (NewHTTPProbe ''/'' ''http'' 1 2),
        ct_security := buildSecurityContext (cfg_debug cfg)\<rparr>"

definition initDeployment :: "workbench \<Rightarrow> config \<Rightarrow> deployment" where
  "initDeployment w cfg =
     (let labels = [(matchingLabel, wb_name w)];
          spec = empty_pod_spec
            \<lparr>sp_service_account := ws_service_account (wb_spec w),
             sp_priority_class := cfg_workbench_priority cfg,
             sp_volumes := [x11_volume],
             sp_pull_secrets := ws_pull_secrets (wb_spec w),
             sp_init_containers := [sidecar_container cfg],
             sp_containers := [server_container w cfg]\<rparr>
      in \<lparr>dep_meta = new_meta (wb_name w @ ''-server'') (wb_namespace w) labels,
          dep_selector = Some labels,
          dep_template =
            \<lparr>pt_labels = labels,
             pt_annotations = (if cfg_debug cfg then debug_annotations [] else []),
             pt_spec = spec\<rparr>,
          dep_conditions = []\<rparr>)"

section \<open>Update in place\<close>

abbreviation set_dep_spec :: "deployment \<Rightarrow> pod_spec \<Rightarrow> deployment" where
  "set_dep_spec d p \<equiv> d\<lparr>dep_template := (dep_template d)\<lparr>pt_spec := p\<rparr>\<rparr>"

fun set_first_image :: "string \<Rightarrow> container list \<Rightarrow> container list" where
  "set_first_image img [] = []"
| "set_first_image img (c # cs) = c\<lparr>ct_image := img\<rparr> # cs"

text \<open>
  One half of \<open>updateDeployment\<close>, on the containers (or init containers) of both sides. The
  code keeps the slice it read before it may replace it (\<open>old\<close>), and compares \<open>old[0]\<close>.
\<close>

definition sync_containers :: "container list \<Rightarrow> container list \<Rightarrow> (bool \<times> container list) or_panic" where
  "sync_containers src old =
     (let replaced = (length old \<noteq> 1);
          dst = (if replaced then src else old)
      in case src of
           [] \<Rightarrow> Inl IndexOutOfRange
         | s # _ \<Rightarrow>
             (case old of
                [] \<Rightarrow> Inl IndexOutOfRange
              | c # _ \<Rightarrow>
                  if ct_image c \<noteq> ct_image s
                  then Inr (True, set_first_image (ct_image s) dst)
                  else Inr (replaced, dst)))"

definition updateDeployment :: "deployment \<Rightarrow> deployment \<Rightarrow> (bool \<times> deployment) or_panic" where
  "updateDeployment source destination =
     (case sync_containers (sp_containers (dep_spec source)) (sp_containers (dep_spec destination)) of
        Inl p \<Rightarrow> Inl p
      | Inr (u1, cs) \<Rightarrow>
          (case sync_containers (sp_init_containers (dep_spec source))
                  (sp_init_containers (dep_spec destination)) of
             Inl p \<Rightarrow> Inl p
           | Inr (u2, is) \<Rightarrow>
               Inr (u1 \<or> u2, set_dep_spec destination
                 ((dep_spec destination)\<lparr>sp_containers := cs, sp_init_containers := is\<rparr>))))"

section \<open>Deletion\<close>

definition deleteDeployments :: "'w reconciler \<Rightarrow> workbench \<Rightarrow> ('w, go_error + nat) prog" where
  "deleteDeployments r w = do {
     l \<leftarrow> ListDeployments r [(matchingLabel, wb_name w)];
     case l of
       Inl e \<Rightarrow> State_Monad.return (Inl (ApiFailure e))
     | Inr items \<Rightarrow>
         if length items = 0 then State_Monad.return (Inr 0)
         else do {
           d \<leftarrow> DeleteAllDeployments r (wb_namespace w) [(matchingLabel, wb_name w)];
           case d of
             Inl e \<Rightarrow> State_Monad.return (Inl (ApiFailure e))
           | Inr _ \<Rightarrow> State_Monad.return (Inr (length items))
         }
   }"

section \<open>Panics and convergence of the update\<close>

abbreviation containers_of :: "deployment \<Rightarrow> container list" where
  "containers_of d \<equiv> sp_containers (dep_spec d)"
abbreviation init_containers_of :: "deployment \<Rightarrow> container list" where
  "init_containers_of d \<equiv> sp_init_containers (dep_spec d)"

lemma sync_containers_panic:
  "sync_containers src old = Inl IndexOutOfRange \<longleftrightarrow> src = [] \<or> old = []"
  by (cases src; cases old) (simp_all add: sync_containers_def Let_def)

lemma sync_containers_Inl: "sync_containers src old = Inl p \<Longrightarrow> p = IndexOutOfRange \<and> (src = [] \<or> old = [])"
  by (cases src; cases old) (auto simp: sync_containers_def Let_def split: if_splits)

lemma sync_containers_single:
  "sync_containers [s] (c # cs) =
     Inr (cs \<noteq> [] \<or> ct_image c \<noteq> ct_image s,
          if cs \<noteq> [] then [s] else [c\<lparr>ct_image := ct_image s\<rparr>])"
  by (cases cs) (auto simp: sync_containers_def Let_def)

lemma updateDeployment_panic:
  "updateDeployment s d = Inl p \<Longrightarrow> p = IndexOutOfRange \<and>
     (containers_of s = [] \<or> containers_of d = [] \<or> init_containers_of s = [] \<or> init_containers_of d = [])"
  unfolding updateDeployment_def
  using sync_containers_Inl by (auto split: sum.splits dest: sync_containers_Inl)

lemma updateDeployment_single:
  assumes "containers_of s = [a]" "init_containers_of s = [i]"
    "containers_of d = c # cs" "init_containers_of d = k # ks"
  shows "updateDeployment s d =
    Inr (cs \<noteq> [] \<or> ct_image c \<noteq> ct_image a \<or> ks \<noteq> [] \<or> ct_image k \<noteq> ct_image i,
      set_dep_spec d ((dep_spec d)
        \<lparr>sp_containers := (if cs \<noteq> [] then [a] else [c\<lparr>ct_image := ct_image a\<rparr>]),
         sp_init_containers := (if ks \<noteq> [] then [i] else [k\<lparr>ct_image := ct_image i\<rparr>])\<rparr>))"
  using assms by (auto simp: updateDeployment_def sync_containers_single)

text \<open>The update as a total function, for deployments on which it does not panic.\<close>

definition applied_update :: "deployment \<Rightarrow> deployment \<Rightarrow> bool \<times> deployment" where
  "applied_update s d = (case updateDeployment s d of Inl _ \<Rightarrow> (False, d) | Inr x \<Rightarrow> x)"

definition model_deployment :: "deployment \<Rightarrow> bool" where
  "model_deployment s \<longleftrightarrow> length (containers_of s) = 1 \<and> length (init_containers_of s) = 1"

definition complete_deployment :: "deployment \<Rightarrow> bool" where
  "complete_deployment d \<longleftrightarrow> containers_of d \<noteq> [] \<and> init_containers_of d \<noteq> []"

lemma model_deployment_cases:
  assumes "model_deployment s" "complete_deployment d"
  obtains a i c cs k ks where "containers_of s = [a]" "init_containers_of s = [i]"
    "containers_of d = c # cs" "init_containers_of d = k # ks"
  using assms unfolding model_deployment_def complete_deployment_def One_nat_def length_Suc_conv neq_Nil_conv
  by auto

lemma set_dep_spec_same:
  "containers_of d = cs \<Longrightarrow> init_containers_of d = ks \<Longrightarrow>
   set_dep_spec d ((dep_spec d)\<lparr>sp_containers := cs, sp_init_containers := ks\<rparr>) = d"
  by (cases d; cases "dep_template d"; cases "dep_spec d") auto

interpretation deployment_update: convergent_update applied_update model_deployment complete_deployment
proof
  fix s d assume h: "model_deployment s" "complete_deployment d"
  obtain a i c cs k ks where e: "containers_of s = [a]" "init_containers_of s = [i]"
      "containers_of d = c # cs" "init_containers_of d = k # ks"
    using model_deployment_cases [OF h] .
  let ?cs = "if cs \<noteq> [] then [a] else [c\<lparr>ct_image := ct_image a\<rparr>]"
  let ?ks = "if ks \<noteq> [] then [i] else [k\<lparr>ct_image := ct_image i\<rparr>]"
  have after: "containers_of (snd (applied_update s d)) = ?cs" "init_containers_of (snd (applied_update s d)) = ?ks"
    by (simp_all add: applied_update_def updateDeployment_single [OF e])
  show "complete_deployment (snd (applied_update s d))"
    by (simp add: complete_deployment_def after)
  have keep: "c\<lparr>ct_image := ct_image a\<rparr> = c \<longleftrightarrow> ct_image c = ct_image a" for c a :: container
    by (cases c) auto
  have same: "ct_image c = x \<Longrightarrow> c\<lparr>ct_image := x\<rparr> = c" for c :: container and x
    by (cases c) auto
  show "fst (applied_update s d) \<longleftrightarrow> snd (applied_update s d) \<noteq> d"
  proof
    assume "fst (applied_update s d)"
    then have "?cs \<noteq> c # cs \<or> ?ks \<noteq> k # ks"
      by (auto simp: applied_update_def updateDeployment_single [OF e] keep split: if_splits)
    then show "snd (applied_update s d) \<noteq> d" using after e by metis
  next
    assume "snd (applied_update s d) \<noteq> d"
    then show "fst (applied_update s d)"
      using set_dep_spec_same [OF e(3,4)]
      by (auto simp: applied_update_def updateDeployment_single [OF e] same)
  qed
  obtain c' k' where again: "containers_of (snd (applied_update s d)) = [c']"
      "init_containers_of (snd (applied_update s d)) = [k']" "ct_image c' = ct_image a" "ct_image k' = ct_image i"
    unfolding after by (cases cs; cases ks) auto
  show "snd (applied_update s (snd (applied_update s d))) = snd (applied_update s d)"
    unfolding applied_update_def [of s "snd (applied_update s d)"]
    by (simp add: updateDeployment_single [OF e(1,2) again(1,2)] same [OF again(3)] same [OF again(4)]
        set_dep_spec_same [OF again(1,2)])
qed

lemma initDeployment_model [simp]:
  "containers_of (initDeployment w cfg) = [server_container w cfg]"
  "init_containers_of (initDeployment w cfg) = [sidecar_container cfg]"
  "dep_name (initDeployment w cfg) = wb_name w @ ''-server''"
  "dep_namespace (initDeployment w cfg) = wb_namespace w"
  "dep_selector (initDeployment w cfg) = Some [(matchingLabel, wb_name w)]"
  by (simp_all add: initDeployment_def Let_def)

lemma deleteDeployments_emits:
  "emits (deleteDeployments r w) (\<lambda>x cs. \<exists>l tl. cs = ListedDeployments [(matchingLabel, wb_name w)] l # tl \<and>
     (case l of
        Inl e \<Rightarrow> x = Inl (ApiFailure e) \<and> tl = []
      | Inr items \<Rightarrow>
          if items = [] then x = Inr 0 \<and> tl = []
          else \<exists>d. tl = [DeletedAllDeployments (wb_namespace w) [(matchingLabel, wb_name w)] d] \<and>
            x = (case d of Inl e \<Rightarrow> Inl (ApiFailure e) | Inr _ \<Rightarrow> Inr (length items))))"
  unfolding deleteDeployments_def ListDeployments_def DeleteAllDeployments_def
  apply (rule emits_bind [OF emits_perform [where Q = "\<lambda>a cs. cs = [ListedDeployments [(matchingLabel, wb_name w)] a]"]])
   apply simp
  apply (rule emits_sum)
   apply simp
  apply (rule emits_if)
   apply simp
  apply (rule emits_bind [OF emits_perform [where
        Q = "\<lambda>a cs. cs = [DeletedAllDeployments (wb_namespace w) [(matchingLabel, wb_name w)] a]"]])
   apply simp
  apply (rule emits_sum)
   apply simp_all
  done

section \<open>Properties\<close>

text \<open>C18: However often the reconciler compares a deployment found in the cluster with its model, it
  asks for at most one write, the first time, and then the images are those of the model.\<close>

theorem deployment_update_converges:
  assumes "complete_deployment d"
  shows "update_flags applied_update (initDeployment w cfg) (Suc n) d =
      fst (applied_update (initDeployment w cfg) d) # replicate n False \<and>
    map ct_image (containers_of (snd (applied_update (initDeployment w cfg) d))) = [server_image w cfg] \<and>
    map ct_image (init_containers_of (snd (applied_update (initDeployment w cfg) d))) = [socat_image cfg]"
proof -
  have model: "model_deployment (initDeployment w cfg)" by (simp add: model_deployment_def)
  obtain c cs k ks where d: "containers_of d = c # cs" "init_containers_of d = k # ks"
    using assms by (auto simp: complete_deployment_def neq_Nil_conv)
  have images: "ct_image (server_container w cfg) = server_image w cfg"
      "ct_image (sidecar_container cfg) = socat_image cfg"
    by (simp_all add: server_container_def sidecar_container_def new_container_def)
  show ?thesis
    using deployment_update.flags_once [OF model assms]
    by (simp add: applied_update_def updateDeployment_single [OF initDeployment_model(1,2) d] images)
qed

theorem deployment_update_converges_witness:
  "update_flags applied_update (initDeployment live_workbench sample_config) 3
     (initDeployment live_workbench (sample_config\<lparr>cfg_registry := ''old''\<rparr>)) = [True, False, False]"
proof -
  let ?d = "initDeployment live_workbench (sample_config\<lparr>cfg_registry := ''old''\<rparr>)"
  have "complete_deployment ?d" by (simp add: complete_deployment_def)
  moreover have "fst (applied_update (initDeployment live_workbench sample_config) ?d)" by code_simp
  ultimately show ?thesis
    using deployment_update_converges [of ?d live_workbench sample_config 2] by (simp add: numeral_eq_Suc)
qed

text \<open>C19: The comparison panics, with an index out of range, exactly on a deployment found without
  containers or without init containers.\<close>

theorem deployment_update_panics_iff:
  "updateDeployment (initDeployment w cfg) d = Inl IndexOutOfRange \<longleftrightarrow> \<not> complete_deployment d"
proof
  assume "updateDeployment (initDeployment w cfg) d = Inl IndexOutOfRange"
  then show "\<not> complete_deployment d"
    using updateDeployment_panic [of "initDeployment w cfg" d] by (auto simp: complete_deployment_def)
next
  assume "\<not> complete_deployment d"
  then have "containers_of d = [] \<or> init_containers_of d = []" by (simp add: complete_deployment_def)
  then show "updateDeployment (initDeployment w cfg) d = Inl IndexOutOfRange"
    using sync_containers_panic [of "[server_container w cfg]" "containers_of d"]
      sync_containers_panic [of "[sidecar_container cfg]" "init_containers_of d"]
      sync_containers_Inl [of "[server_container w cfg]" "containers_of d"]
    by (auto simp: updateDeployment_def split: sum.split)
qed

text \<open>Slashes at the end of the configured registry do not matter: the image of the server is the
  same with and without them.\<close>

lemma registry_slashes_irrelevant:
  assumes "s \<noteq> []"
  shows "server_image w (cfg\<lparr>cfg_registry := s @ replicate n (CHR ''/'')\<rparr>) =
    server_image w (cfg\<lparr>cfg_registry := s\<rparr>)"
  using assms by (simp add: server_image_def registry_prefix_def repository_prefix_def TrimRight_replicate)

end
