(* ===== verification/App_Job.thy ===== *)
theory App_Job
  imports Storage_Passes Server_Deployment
begin

text \<open>
  \<open>internal/controller/job.go\<close>: the job of an application. \<open>initJob\<close> asks the storage manager
  for volumes, inspects the image for user ids in the reserved range, and builds the job; the
  parts of the object it builds are the definitions of the first sections, \<open>build_job\<close> puts them
  together. \<open>updateJob\<close>, \<open>findJobs\<close>, \<open>deleteJob\<close> and \<open>deleteJobs\<close> follow.
\<close>

section \<open>Security contexts\<close>

definition buildAppSecurityContext :: "bool \<Rightarrow> int \<Rightarrow> int \<Rightarrow> security_context" where
  "buildAppSecurityContext debugMode userID groupID =
     (if debugMode then debug_security
      else \<lparr>sc_run_as_user = Some userID, sc_run_as_group = Some groupID,
            sc_run_as_non_root = Some True, sc_privileged = None, sc_allow_escalation = Some False,
            sc_capabilities = Some \<lparr>cap_add = [], cap_drop = [''ALL'']\<rparr>\<rparr>)"

definition init_security :: security_context where
  "init_security =
     \<lparr>sc_run_as_user = Some 0, sc_run_as_group = None, sc_run_as_non_root = None,
      sc_privileged = None, sc_allow_escalation = Some False,
      sc_capabilities = Some
        \<lparr>cap_add = [''CHOWN'', ''SETUID'', ''SETGID'', ''DAC_OVERRIDE'', ''FOWNER''],
         cap_drop = [''ALL'']\<rparr>\<rparr>"

definition job_pod_security :: pod_security where
  "job_pod_security =
     \<lparr>ps_fs_group = Some 1001, ps_fs_group_policy = Some ''OnRootMismatch'',
      ps_seccomp = Some ''RuntimeDefault''\<rparr>"

section \<open>Resources\<close>

definition default_limits :: resource_list where
  "default_limits = [(''cpu'', Quantity ''150m''), (''memory'', Quantity ''192Mi''),
     (''ephemeral-storage'', Quantity ''10Gi'')]"

definition default_requests :: resource_list where
  "default_requests = [(''cpu'', Quantity ''1m''), (''memory'', Quantity ''1Ki''),
     (''ephemeral-storage'', Quantity ''1Gi'')]"

definition defaultResources :: resources where
  "defaultResources = \<lparr>res_limits = Some default_limits, res_requests = Some default_requests\<rparr>"

definition effective_resources :: "resources option \<Rightarrow> resources" where
  "effective_resources custom =
     (case custom of
        None \<Rightarrow> defaultResources
      | Some rs \<Rightarrow>
          let r1 = (case res_limits rs of
                      None \<Rightarrow> defaultResources
                    | Some l \<Rightarrow> defaultResources\<lparr>res_limits := Some l\<rparr>)
          in case res_requests rs of
               None \<Rightarrow> r1
             | Some q \<Rightarrow>
                 let r2 = r1\<lparr>res_requests := Some q\<rparr>
                 in if res_limits rs = None then r2\<lparr>res_limits := Some q\<rparr> else r2)"

section \<open>Images\<close>

definition getAppName :: "workbench_app \<Rightarrow> string" where
  "getAppName app =
     (case app_image app of
        None \<Rightarrow> []
      | Some i \<Rightarrow> last (Split (CHR ''/'') (img_repository i)))"

definition tag_or_latest :: "string \<Rightarrow> string \<times> pull_policy" where
  "tag_or_latest v = (if v = [] then (''latest'', PullAlways) else (v, PullIfNotPresent))"

definition app_image_ref :: "config \<Rightarrow> workbench_app \<Rightarrow> string \<times> pull_policy" where
  "app_image_ref cfg app =
     (case app_image app of
        None \<Rightarrow>
          (case tag_or_latest (app_version app) of (v, pol) \<Rightarrow>
             (registry_prefix cfg @ repository_prefix cfg @ app_name app @ '':'' @ v, pol))
      | Some i \<Rightarrow>
          (case tag_or_latest (img_tag i) of (v, pol) \<Rightarrow>
             (img_registry i @ ''/'' @ img_repository i @ '':'' @ v, pol)))"

definition init_version :: "workbench \<Rightarrow> string" where
  "init_version w =
     (case ws_init_version (wb_spec w) of
        Some v \<Rightarrow> if v \<noteq> [] then v else ''latest''
      | None \<Rightarrow> ''latest'')"

definition init_image :: "workbench \<Rightarrow> config \<Rightarrow> string" where
  "init_image w cfg =
     (if cfg_init_image cfg \<noteq> [] then cfg_init_image cfg @ '':'' @ init_version w
      else registry_prefix cfg @ ''apps/app-init:'' @ init_version w)"

section \<open>Containers\<close>

definition display_of :: "service \<Rightarrow> string" where
  "display_of svc = om_name (svc_meta svc) @ ''.'' @ om_namespace (svc_meta svc) @ '':80''"

definition identity_env :: "workbench \<Rightarrow> service \<Rightarrow> env_var list" where
  "identity_env w svc =
     [env ''DISPLAY'' (display_of svc),
      env ''CHORUS_USER'' (wb_user w),
      env ''CHORUS_UID'' (Itoa (srv_user_id (ws_server (wb_spec w)))),
      env ''CHORUS_GROUP'' ''chorus'',
      env ''CHORUS_GID'' ''1001'']"

definition nss_env :: "workbench \<Rightarrow> env_var list" where
  "nss_env w =
     [env ''LD_PRELOAD'' ''/usr/lib/x86_64-linux-gnu/libnss_wrapper.so'',
      env ''NSS_WRAPPER_PASSWD'' ''/home/.chorus-auth/passwd'',
      env ''NSS_WRAPPER_GROUP'' ''/home/.chorus-auth/group'',
      env ''HOME'' (''/home/'' @ wb_user w),
      env ''USER'' (wb_user w)]"

definition kiosk_env :: "string \<Rightarrow> workbench_app \<Rightarrow> env_var list" where
  "kiosk_env img app =
     (case app_kiosk app of
        None \<Rightarrow> []
      | Some k \<Rightarrow>
          if Contains img ''apps/kiosk'' then
            [env ''KIOSK_URL'' (kc_url k)] @
            (if kc_jwt_url k \<noteq> [] \<and> kc_jwt_token k \<noteq> []
             then [env ''KIOSK_JWT_URL'' (kc_jwt_url k), env ''KIOSK_JWT_TOKEN'' (kc_jwt_token k)]
             else [])
          else [])"

definition home_mount :: volume_mount where
  "home_mount = \<lparr>vm_name = ''home'', vm_path = ''/home'', vm_sub_path = []\<rparr>"

definition shm_volumes :: "workbench_app \<Rightarrow> volume list" where
  "shm_volumes app =
     (case app_shm_size app of
        None \<Rightarrow> []
      | Some q \<Rightarrow> [\<lparr>vol_name = ''shm'', vol_source = EmptyDir ''Memory'' (Some q)\<rparr>])"

definition shm_mounts :: "workbench_app \<Rightarrow> volume_mount list" where
  "shm_mounts app =
     (case app_shm_size app of
        None \<Rightarrow> []
      | Some _ \<Rightarrow> [\<lparr>vm_name = ''shm'', vm_path = ''/dev/shm'', vm_sub_path = []\<rparr>])"

definition home_volume :: volume where
  "home_volume = \<lparr>vol_name = ''home'', vol_source = EmptyDir [] None\<rparr>"

definition app_container ::
  "config \<Rightarrow> workbench \<Rightarrow> workbench_app \<Rightarrow> service \<Rightarrow> volume_mount list \<Rightarrow> container" where
  "app_container cfg w app svc storageMounts =
     (new_container (getAppName app) (fst (app_image_ref cfg app)))
       \<lparr>ct_pull_policy := Some (snd (app_image_ref cfg app)),
        ct_resources := effective_resources (app_resources app),
        ct_env := identity_env w svc @ nss_env w @ [env ''APP_NAME'' (getAppName app)] @
                  kiosk_env (fst (app_image_ref cfg app)) app,
        ct_security := Some (buildAppSecurityContext (cfg_debug cfg) (srv_user_id (ws_server (wb_spec w))) 1001),
        ct_mounts := shm_mounts app @ [home_mount] @ storageMounts\<rparr>"

definition init_container ::
  "config \<Rightarrow> workbench \<Rightarrow> workbench_app \<Rightarrow> service \<Rightarrow> volume_mount list \<Rightarrow> container" where
  "init_container cfg w app svc storageMounts =
     (new_container ''app-init'' (init_image w cfg))
       \<lparr>ct_pull_policy := Some (if init_version w = ''latest'' then PullAlways else PullIfNotPresent),
        ct_command := [''/docker-entrypoint.sh''],
        ct_security := Some init_security,
        ct_env := identity_env w svc @ [env ''APP_NAME'' (app_name app)],
        ct_resources :=
          \<lparr>res_limits = Some [(''cpu'', Quantity ''100m''), (''memory'', Quantity ''64Mi''),
             (''ephemeral-storage'', Quantity ''1Gi'')],
           res_requests = Some [(''cpu'', Quantity ''10m''), (''memory'', Quantity ''16Mi''),
             (''ephemeral-storage'', Quantity ''100Mi'')]\<rparr>,
        ct_mounts := [home_mount] @ storageMounts\<rparr>"

section \<open>The job\<close>

definition app_job_name :: "workbench \<Rightarrow> string \<Rightarrow> workbench_app \<Rightarrow> string" where
  "app_job_name w uid app = wb_name w @ ''-'' @ uid @ ''-'' @ app_name app"

definition app_suspended :: "workbench_app \<Rightarrow> bool" where
  "app_suspended app =
     ((if app_state app = AppStateUnset then AppRunning else app_state app) \<noteq> AppRunning)"

definition build_job ::
  "config \<Rightarrow> workbench \<Rightarrow> string \<Rightarrow> workbench_app \<Rightarrow> service \<Rightarrow> volume list \<Rightarrow> volume_mount list \<Rightarrow> job" where
  "build_job cfg w uid app svc storageVolumes storageMounts =
     \<lparr>job_meta = new_meta (app_job_name w uid app) (wb_namespace w) [(matchingLabel, wb_name w)],
      job_suspend = Some (app_suspended app),
      job_ttl = Some (24 * 3600),
      job_backoff = None,
      job_template =
        \<lparr>pt_labels = [],
         pt_annotations = (if cfg_debug cfg then debug_annotations [] else []),
         pt_spec = empty_pod_spec
           \<lparr>sp_service_account := ws_service_account (wb_spec w),
            sp_priority_class := cfg_application_priority cfg,
            sp_hostname := app_name app,
            sp_restart_policy := ''OnFailure'',
            sp_volumes := shm_volumes app @ [home_volume] @ storageVolumes,
            sp_pull_secrets := ws_pull_secrets (wb_spec w),
            sp_init_containers := [init_container cfg w app svc storageMounts],
            sp_containers := [app_container cfg w app svc storageMounts],
            sp_security := Some job_pod_security\<rparr>\<rparr>,
      job_active = 0, job_succeeded = 0, job_ready = None\<rparr>"

section \<open>Inspection of the image\<close>

definition newline :: char where "newline = CHR 10"

definition line_collision :: "string \<Rightarrow> string list" where
  "line_collision line =
     (if line = [] then []
      else
        let fields = Split (CHR '':'') line in
        if length fields < 3 then []
        else
          (case Atoi (fields ! 2) of
             None \<Rightarrow> []
           | Some uid \<Rightarrow>
               if 1001 \<le> uid \<and> uid \<le> 9999
               then [''UID '' @ Itoa uid @ '' ('' @ fields ! 0 @ '')''] else []))"

definition passwd_collisions :: "string \<Rightarrow> string list" where
  "passwd_collisions output = concat (map line_collision (Split newline output))"

definition inspect_argv :: "string \<Rightarrow> string \<Rightarrow> string list" where
  "inspect_argv tool img = [tool, ''run'', ''--rm'', ''--entrypoint'', ''cat'', img, ''/etc/passwd'']"

definition checkImageForUIDCollisions :: "'w reconciler \<Rightarrow> string \<Rightarrow> ('w, go_error + string list) prog" where
  "checkImageForUIDCollisions r imageName = do {
     docker \<leftarrow> LookPath r ''docker'';
     found \<leftarrow> (case docker of
         Some d \<Rightarrow> State_Monad.return (Some d)
       | None \<Rightarrow> LookPath r ''podman'');
     case found of
       None \<Rightarrow> State_Monad.return (Inr [])
     | Some tool \<Rightarrow> do {
         out \<leftarrow> RunCommand r (inspect_argv tool imageName);
         State_Monad.return (case out of
             None \<Rightarrow> Inr []
           | Some output \<Rightarrow> Inr (passwd_collisions output))
       }
   }"

definition validateAppImage :: "'w reconciler \<Rightarrow> string \<Rightarrow> ('w, go_error + unit) prog" where
  "validateAppImage r appImage = do {
     c \<leftarrow> checkImageForUIDCollisions r appImage;
     State_Monad.return (case c of
         Inl _ \<Rightarrow> Inr ()
       | Inr collisions \<Rightarrow>
           if length collisions > 0 then Inl (ImageCollision appImage collisions) else Inr ())
   }"

definition initJob ::
  "'w reconciler \<Rightarrow> config \<Rightarrow> workbench \<Rightarrow> string \<Rightarrow> workbench_app \<Rightarrow> service \<Rightarrow> manager \<Rightarrow>
   ('w, go_error + job) prog" where
  "initJob r cfg w uid app svc sm = do {
     st \<leftarrow> GetVolumeAndMountSpecs r sm w (wb_user w) (wb_namespace w);
     v \<leftarrow> validateAppImage r (fst (app_image_ref cfg app));
     case v of
       Inl e \<Rightarrow> State_Monad.return (Inl e)
     | Inr _ \<Rightarrow>
         if getAppName app = [] then State_Monad.return (Inl (ImageMissing (app_name app)))
         else State_Monad.return (Inr (case st of
             Inl _ \<Rightarrow> build_job cfg w uid app svc [] []
           | Inr (storageVolumes, storageMounts) \<Rightarrow>
               build_job cfg w uid app svc storageVolumes storageMounts))
   }"

section \<open>Update and deletion\<close>

definition updateJob :: "job \<Rightarrow> job \<Rightarrow> bool \<times> job" where
  "updateJob source destination =
     (case job_suspend source of
        None \<Rightarrow> (False, destination)
      | Some b \<Rightarrow>
          if job_suspend destination = None \<or> the (job_suspend destination) \<noteq> b
          then (True, destination\<lparr>job_suspend := Some b\<rparr>)
          else (False, destination))"

definition findJobs :: "'w reconciler \<Rightarrow> workbench \<Rightarrow> ('w, job list reply) prog" where
  "findJobs r w = ListJobs r [(matchingLabel, wb_name w)]"

definition deleteJob :: "'w reconciler \<Rightarrow> job \<Rightarrow> ('w, unit reply) prog" where
  "deleteJob r j = DeleteJob r j"

definition deleteJobs :: "'w reconciler \<Rightarrow> workbench \<Rightarrow> ('w, go_error + nat) prog" where
  "deleteJobs r w = do {
     l \<leftarrow> findJobs r w;
     case l of
       Inl e \<Rightarrow> State_Monad.return (Inl (ApiFailure e))
     | Inr items \<Rightarrow>
         if length items = 0 then State_Monad.return (Inr 0)
         else do {
           d \<leftarrow> DeleteAllJobs r (wb_namespace w) [(matchingLabel, wb_name w)];
           case d of
             Inl e \<Rightarrow> State_Monad.return (Inl (ApiFailure e))
           | Inr _ \<Rightarrow> State_Monad.return (Inr (length items))
         }
   }"

section \<open>Selectors of the job\<close>

lemma build_job_sel [simp]:
  "job_meta (build_job cfg w uid app svc vs ms) =
     new_meta (app_job_name w uid app) (wb_namespace w) [(matchingLabel, wb_name w)]"
  "job_suspend (build_job cfg w uid app svc vs ms) = Some (app_suspended app)"
  "sp_volumes (job_spec (build_job cfg w uid app svc vs ms)) = shm_volumes app @ [home_volume] @ vs"
  "sp_containers (job_spec (build_job cfg w uid app svc vs ms)) = [app_container cfg w app svc ms]"
  "sp_init_containers (job_spec (build_job cfg w uid app svc vs ms)) = [init_container cfg w app svc ms]"
  by (simp_all add: build_job_def)

lemma app_container_sel [simp]:
  "ct_mounts (app_container cfg w app svc ms) = shm_mounts app @ [home_mount] @ ms"
  "ct_image (app_container cfg w app svc ms) = fst (app_image_ref cfg app)"
  "ct_security (app_container cfg w app svc ms) =
     Some (buildAppSecurityContext (cfg_debug cfg) (srv_user_id (ws_server (wb_spec w))) 1001)"
  by (simp_all add: app_container_def new_container_def)

lemma init_container_sel [simp]:
  "ct_mounts (init_container cfg w app svc ms) = [home_mount] @ ms"
  "ct_security (init_container cfg w app svc ms) = Some init_security"
  by (simp_all add: init_container_def)

section \<open>Calls of the inspection\<close>

definition collision_seen :: "string list \<Rightarrow> call \<Rightarrow> bool" where
  "collision_seen found c = (case c of
       RanCommand _ (Some output) \<Rightarrow> passwd_collisions output = found | _ \<Rightarrow> False)"

definition clean_run :: "call \<Rightarrow> bool" where
  "clean_run c = (case c of RanCommand _ (Some output) \<Rightarrow> passwd_collisions output = [] | _ \<Rightarrow> True)"

definition inspection_call :: "string \<Rightarrow> call \<Rightarrow> bool" where
  "inspection_call img c = (case c of
       RanCommand argv _ \<Rightarrow> \<exists>tool. argv = inspect_argv tool img | _ \<Rightarrow> False)"

lemma collision_seen_none: "collision_seen [] c \<Longrightarrow> clean_run c"
  by (cases c) (auto simp: collision_seen_def clean_run_def split: option.splits)

lemma checkImage_emits:
  "emits (checkImageForUIDCollisions r img) (\<lambda>x cs. \<exists>found. x = Inr found \<and>
     (cs = [] \<and> found = [] \<or>
      (\<exists>c. cs = [c] \<and> inspection_call img c \<and> (found = [] \<and> clean_run c \<or> collision_seen found c))))"
  unfolding checkImageForUIDCollisions_def LookPath_def RunCommand_def
  apply (rule emits_bind [OF emits_observe [where Q = "\<lambda>_ cs. cs = []"]], simp)
  apply (rule emits_bind [where R = "\<lambda>_ cs. cs = []"])
   apply (intro emits_intros; simp)
  apply (rule emits_option)
   apply simp
  apply (rule emits_bind [OF emits_perform [where Q = "\<lambda>a cs. \<exists>tool. cs = [RanCommand (inspect_argv tool img) a]"]])
   apply blast
  apply (auto simp: collision_seen_def inspection_call_def clean_run_def split: option.splits)
  done

lemma validateAppImage_emits:
  "emits (validateAppImage r img) (\<lambda>x cs. list_all (inspection_call img) cs \<and> length cs \<le> 1 \<and>
     (case x of
        Inl e \<Rightarrow> \<exists>found. found \<noteq> [] \<and> e = ImageCollision img found \<and> list_ex (collision_seen found) cs
      | Inr _ \<Rightarrow> list_all clean_run cs))"
  unfolding validateAppImage_def
  by (rule emits_bind [OF checkImage_emits]) (auto dest: collision_seen_none)

lemma inspection_reads: "inspection_call img c \<Longrightarrow> reads_only c"
  by (cases c) (auto simp: inspection_call_def reads_only_def call_kind_defs)

definition secret_read :: "call \<Rightarrow> bool" where
  "secret_read c = (case c of GotSecret _ _ \<Rightarrow> True | _ \<Rightarrow> False)"

text \<open>The providers look at secrets and nothing else to answer \<open>HasSecret\<close>.\<close>

lemma HasSecret_only_secrets: "only_calls secret_read (HasSecret r p)"
  by (cases p)
     (auto simp: s3_HasSecret_def nfs_HasSecret_def local_HasSecret_def s3_getSecretConfig_def
       nfs_getSecretConfig_def base_getSecret_def GetSecret_def secret_read_def intro!: only_intros)

lemma collect_volumes_secrets: "only_calls secret_read (collect_volumes r w user ns ps vs ms)"
  by (induction ps arbitrary: vs ms) (auto intro!: only_intros HasSecret_only_secrets)

lemma GetVolumeAndMountSpecs_secrets: "only_calls secret_read (GetVolumeAndMountSpecs r sm w user ns)"
  unfolding GetVolumeAndMountSpecs_def by (intro only_intros collect_volumes_secrets)

lemma secret_read_facts:
  "secret_read c \<Longrightarrow> reads_only c \<and> clean_run c"
  by (cases c) (auto simp: secret_read_def reads_only_def call_kind_defs clean_run_def)

text \<open>Everything \<open>initJob\<close> may do, on each of its branches.\<close>

definition initJob_result ::
  "config \<Rightarrow> workbench \<Rightarrow> string \<Rightarrow> workbench_app \<Rightarrow> service \<Rightarrow> manager \<Rightarrow> go_error + job \<Rightarrow> call list \<Rightarrow> bool" where
  "initJob_result cfg w uid app svc sm x cs = (case x of
       Inl e \<Rightarrow>
         (getAppName app = [] \<and> e = ImageMissing (app_name app) \<and> list_all clean_run cs) \<or>
         (\<exists>found. found \<noteq> [] \<and> e = ImageCollision (fst (app_image_ref cfg app)) found \<and>
            list_ex (collision_seen found) cs)
     | Inr j \<Rightarrow> getAppName app \<noteq> [] \<and> list_all clean_run cs \<and>
         (\<exists>qs. subseq qs (GetEnabledProviders sm w) \<and>
            j = build_job cfg w uid app svc (volumes_of w qs) (mounts_of (wb_user w) (wb_namespace w) qs)))"

lemma initJob_emits:
  "emits (initJob r cfg w uid app svc sm) (\<lambda>x cs.
     list_all (\<lambda>c. secret_read c \<or> inspection_call (fst (app_image_ref cfg app)) c) cs \<and>
     initJob_result cfg w uid app svc sm x cs)"
proof -
  let ?img = "fst (app_image_ref cfg app)"
  have clean: "list_all secret_read cs \<Longrightarrow> list_all clean_run cs" for cs
    by (induction cs) (auto simp: secret_read_facts)
  have calls: "list_all secret_read cs \<Longrightarrow> list_all (\<lambda>c. secret_read c \<or> inspection_call ?img c) cs"
      "list_all (inspection_call ?img) cs \<Longrightarrow> list_all (\<lambda>c. secret_read c \<or> inspection_call ?img c) cs" for cs
    by (auto simp: list_all_iff)
  have st: "emits (GetVolumeAndMountSpecs r sm w (wb_user w) (wb_namespace w)) (\<lambda>x cs.
      (\<exists>qs. subseq qs (GetEnabledProviders sm w) \<and>
         x = Inr (volumes_of w qs, mounts_of (wb_user w) (wb_namespace w) qs)) \<and> list_all secret_read cs)"
    by (rule emits_post [OF emits_conj [OF GetVolumeAndMountSpecs_emits
            GetVolumeAndMountSpecs_secrets [unfolded only_calls_def]]]) blast
  show ?thesis
    unfolding initJob_def
    apply (rule emits_bind [OF st])
    apply (rule emits_bind [OF validateAppImage_emits])
    apply (rule emits_sum)
    subgoal by (auto simp: initJob_result_def calls)
    subgoal
      apply (rule emits_if)
       apply (auto simp: initJob_result_def calls clean)
      done
    done
qed

lemma initJob_reads: "emits (initJob r cfg w uid app svc sm) (\<lambda>_ cs. list_all reads_only cs)"
proof (rule emits_post [OF initJob_emits])
  fix x cs
  assume "list_all (\<lambda>c. secret_read c \<or> inspection_call (fst (app_image_ref cfg app)) c) cs \<and>
     initJob_result cfg w uid app svc sm x cs"
  then show "list_all reads_only cs"
    using secret_read_facts inspection_reads by (fastforce simp: list_all_iff)
qed

section \<open>Every branch of \<open>initJob\<close>\<close>

text \<open>
  The image is inspected with \<open>docker\<close> if that is on the path, else with \<open>podman\<close>, else not at all;
  a run that fails reports nothing.
\<close>

definition inspection_tool :: "'w platform \<Rightarrow> 'w \<Rightarrow> string option" where
  "inspection_tool p y = (case pf_look_path p ''docker'' y of
       Some d \<Rightarrow> Some d | None \<Rightarrow> pf_look_path p ''podman'' y)"

definition image_inspected :: "'w platform \<Rightarrow> 'w \<Rightarrow> string \<Rightarrow> call list \<Rightarrow> bool" where
  "image_inspected p y img cs = (case inspection_tool p y of
       None \<Rightarrow> cs = [] | Some tool \<Rightarrow> (\<exists>out. cs = [RanCommand (inspect_argv tool img) out]))"

definition reported :: "call list \<Rightarrow> string list" where
  "reported cs = concat (map (\<lambda>c. case c of RanCommand _ (Some output) \<Rightarrow> passwd_collisions output | _ \<Rightarrow> []) cs)"

lemma checkImage_does:
  "does (checkImageForUIDCollisions r img) (\<lambda>x a cs y. image_inspected (rc_platform r) x img cs \<and> a = Inr (reported cs))"
proof -
  let ?p = "rc_platform r"
  have tool: "does (case d of Some t \<Rightarrow> State_Monad.return (Some t) | None \<Rightarrow> LookPath r ''podman'')
      (\<lambda>x a cs y. cs = [] \<and> y = x \<and> a = (case d of Some t \<Rightarrow> Some t | None \<Rightarrow> pf_look_path ?p ''podman'' x))" for d
    unfolding LookPath_def by (cases d) (auto intro: does_return does_observe)
  have found: "does (LookPath r ''docker'' \<bind> (\<lambda>d. case d of Some t \<Rightarrow> State_Monad.return (Some t) | None \<Rightarrow> LookPath r ''podman''))
      (\<lambda>x a cs y. cs = [] \<and> y = x \<and> a = inspection_tool ?p x)"
    by (rule does_bind [where R = "\<lambda>x a cs y. cs = [] \<and> y = x \<and> a = pf_look_path ?p ''docker'' x"])
      (auto simp: LookPath_def inspection_tool_def intro: does_observe does_post [OF tool])
  have run: "does (case t of None \<Rightarrow> State_Monad.return (Inr []) | Some tool \<Rightarrow>
        RunCommand r (inspect_argv tool img) \<bind> (\<lambda>out. State_Monad.return (case out of
           None \<Rightarrow> Inr [] | Some output \<Rightarrow> Inr (passwd_collisions output))))
      (\<lambda>x a cs y. t = inspection_tool ?p x \<longrightarrow> image_inspected ?p x img cs \<and> a = Inr (reported cs))" for t
  proof (cases t)
    case (Some tool)
    have "does (RunCommand r (inspect_argv tool img)) (\<lambda>x a cs y. cs = [RanCommand (inspect_argv tool img) a])"
      unfolding RunCommand_def by (rule does_perform) simp
    then show ?thesis
      unfolding Some option.case
      by (rule does_bind)
        (auto simp: image_inspected_def reported_def dest!: sym [of "Some tool"] split: option.splits intro!: does_return)
  qed (auto simp: image_inspected_def reported_def intro!: does_return)
  show ?thesis
    unfolding checkImageForUIDCollisions_def State_Monad.bind_assoc [symmetric]
    by (rule does_bind [OF found]) (auto intro!: does_post [OF run])
qed

lemma validateAppImage_does:
  "does (validateAppImage r img) (\<lambda>x a cs y. image_inspected (rc_platform r) x img cs \<and>
     a = (if reported cs \<noteq> [] then Inl (ImageCollision img (reported cs)) else Inr ()))"
  unfolding validateAppImage_def by (rule does_bind [OF checkImage_does]) (auto intro!: does_return)

text \<open>What \<open>initJob\<close> returns, from the providers that serve the job and what the inspection reports.\<close>

definition initJob_value ::
  "config \<Rightarrow> workbench \<Rightarrow> string \<Rightarrow> workbench_app \<Rightarrow> service \<Rightarrow> provider list \<Rightarrow> string list \<Rightarrow> go_error + job" where
  "initJob_value cfg w uid app svc qs found =
     (if found \<noteq> [] then Inl (ImageCollision (fst (app_image_ref cfg app)) found)
      else if getAppName app = [] then Inl (ImageMissing (app_name app))
      else Inr (build_job cfg w uid app svc (volumes_of w qs) (mounts_of (wb_user w) (wb_namespace w) qs)))"

lemma initJob_does:
  "does (initJob r cfg w uid app svc sm) (\<lambda>x a cs z. \<exists>css y ins. cs = concat css @ ins \<and>
     replays (rc_platform r) x (concat css) y \<and> secrets_looked_up r (GetEnabledProviders sm w) css \<and>
     image_inspected (rc_platform r) y (fst (app_image_ref cfg app)) ins \<and>
     a = initJob_value cfg w uid app svc (serving r (GetEnabledProviders sm w) css) (reported ins))"
proof -
  let ?ps = "GetEnabledProviders sm w"
  have st: "does (GetVolumeAndMountSpecs r sm w (wb_user w) (wb_namespace w)) (\<lambda>x a cs y. replays (rc_platform r) x cs y \<and>
      (\<exists>css. cs = concat css \<and> secrets_looked_up r ?ps css \<and>
        a = Inr (volumes_of w (serving r ?ps css), mounts_of (wb_user w) (wb_namespace w) (serving r ?ps css))))"
    by (rule faithful_emits [OF _ GetVolumeAndMountSpecs_served])
      (unfold GetVolumeAndMountSpecs_def, intro faithful_intros)
  show ?thesis
    unfolding initJob_def
    apply (rule does_bind [OF st])
    apply (rule does_bind [OF validateAppImage_does])
    apply (rule does_cases(2))
    subgoal by (rule does_return) (auto simp: initJob_value_def split: if_splits)
    subgoal
      apply (rule does_cases(1); rule does_return)
       apply (auto simp: initJob_value_def split: if_splits)
      done
    done
qed

section \<open>Convergence of the update, and deletion\<close>

interpretation job_update: convergent_update updateJob "\<lambda>_. True" "\<lambda>_. True"
proof
  fix s d :: job
  show "fst (updateJob s d) \<longleftrightarrow> snd (updateJob s d) \<noteq> d"
    by (cases d; cases "job_suspend d") (auto simp: updateJob_def split: option.split)
  show "snd (updateJob s (snd (updateJob s d))) = snd (updateJob s d)"
    by (auto simp: updateJob_def split: option.split)
qed simp

lemma findJobs_emits: "emits (findJobs r w) (\<lambda>l cs. cs = [ListedJobs [(matchingLabel, wb_name w)] l])"
  by (simp add: findJobs_def ListJobs_def emits_perform)

lemma deleteJobs_emits:
  "emits (deleteJobs r w) (\<lambda>x cs. \<exists>l tl. cs = ListedJobs [(matchingLabel, wb_name w)] l # tl \<and>
     (case l of
        Inl e \<Rightarrow> x = Inl (ApiFailure e) \<and> tl = []
      | Inr items \<Rightarrow>
          if items = [] then x = Inr 0 \<and> tl = []
          else \<exists>d. tl = [DeletedAllJobs (wb_namespace w) [(matchingLabel, wb_name w)] d] \<and>
            x = (case d of Inl e \<Rightarrow> Inl (ApiFailure e) | Inr _ \<Rightarrow> Inr (length items))))"
  unfolding deleteJobs_def DeleteAllJobs_def
  apply (rule emits_bind [OF findJobs_emits])
  apply (rule emits_sum)
   apply simp
  apply (rule emits_if)
   apply simp
  apply (rule emits_bind [OF emits_perform [where
        Q = "\<lambda>a cs. cs = [DeletedAllJobs (wb_namespace w) [(matchingLabel, wb_name w)] a]"]])
   apply simp
  apply (rule emits_sum)
   apply simp_all
  done

end
