(* ===== verification/App_Job_Safety.thy ===== *)
theory App_Job_Safety
  imports App_Job
begin

text \<open>
  Properties of the job that \<open>initJob\<close> returns: the API server accepts its pod, it mounts only
  the directories of its namespace, its containers have the privileges intended for them, its
  name and environment identify the application, and its image passed the inspection.
\<close>

section \<open>Mount paths\<close>

lemma subseq_concat_map: "subseq xs ys \<Longrightarrow> subseq (concat (map f xs)) (concat (map f ys))"
proof (induction rule: list_emb.induct)
  case (list_emb_Cons xs ys y)
  then show ?case by (simp add: list_emb_append2)
qed (auto intro: list_emb_append_mono)

text \<open>Both object storage and local storage bring their own \<open>/mnt/app_data\<close>.\<close>

definition two_app_data :: "config \<Rightarrow> workbench \<Rightarrow> bool" where
  "two_app_data cfg w \<longleftrightarrow> st_s3 (storage_of w) \<and> st_local (storage_of w) \<and> cfg_local_enabled cfg"

text \<open>A job that both of them serve.\<close>

definition doubly_served :: "config \<Rightarrow> provider list \<Rightarrow> bool" where
  "doubly_served cfg qs \<longleftrightarrow> S3Provider (NewS3Provider cfg) \<in> set qs \<and> LocalProvider NewLocalProvider \<in> set qs"

abbreviation all_providers :: "config \<Rightarrow> provider list" where
  "all_providers cfg \<equiv>
     [S3Provider (NewS3Provider cfg), NFSProvider (NewNFSProvider cfg), LocalProvider NewLocalProvider]"

lemma enabled_of_all: "subseq (GetEnabledProviders (NewStorageManager cfg) w) (all_providers cfg)"
  by (auto simp: enabled_providers)

lemma doubly_served_enabled:
  assumes "subseq qs (GetEnabledProviders (NewStorageManager cfg) w)" "doubly_served cfg qs"
  shows "two_app_data cfg w"
proof -
  have "doubly_served cfg (GetEnabledProviders (NewStorageManager cfg) w)"
    using subseq_set [OF assms(1)] assms(2) by (auto simp: doubly_served_def)
  then show ?thesis by (auto simp: doubly_served_def two_app_data_def enabled_providers split: if_splits)
qed

lemma sublists_of_all:
  "subseq qs (all_providers cfg) \<Longrightarrow> qs \<in> set (subseqs (all_providers cfg))"
  by (simp only: in_set_subseqs)

lemma mount_paths_distinct:
  assumes "subseq qs (GetEnabledProviders (NewStorageManager cfg) w)" "\<not> doubly_served cfg qs"
  shows "distinct (map vm_path (mounts_of user ns qs))"
    and "''/home'' \<notin> set (map vm_path (mounts_of user ns qs))"
    and "''/dev/shm'' \<notin> set (map vm_path (mounts_of user ns qs))"
proof -
  have "qs \<in> set (subseqs (all_providers cfg))"
    by (rule sublists_of_all [OF subseq_order.order_trans [OF assms(1) enabled_of_all]])
  then have "distinct (map vm_path (mounts_of user ns qs)) \<and> ''/home'' \<notin> set (map vm_path (mounts_of user ns qs)) \<and>
      ''/dev/shm'' \<notin> set (map vm_path (mounts_of user ns qs))"
    using assms(2) by (auto simp: Let_def doubly_served_def simp del: set_map)
  then show "distinct (map vm_path (mounts_of user ns qs))"
    "''/home'' \<notin> set (map vm_path (mounts_of user ns qs))"
    "''/dev/shm'' \<notin> set (map vm_path (mounts_of user ns qs))" by blast+
qed

lemma reserved_names:
  assumes "subseq qs (GetEnabledProviders (NewStorageManager cfg) w)"
  shows "set (map vol_name (volumes_of w qs)) \<inter> {''shm'', ''home''} = {}"
proof -
  have "set (map GetVolumeName qs) \<subseteq> set (map GetVolumeName (GetEnabledProviders (NewStorageManager cfg) w))"
    using subseq_set [OF assms] by auto
  moreover have "set (map GetVolumeName (GetEnabledProviders (NewStorageManager cfg) w)) \<inter> {''shm'', ''home''} = {}"
    by (auto simp: enabled_providers)
  ultimately show ?thesis unfolding volumes_names by blast
qed

lemma own_mounts:
  "map vol_name (shm_volumes app) = map vm_name (shm_mounts app)"
  "set (map vm_name (shm_mounts app)) \<subseteq> {''shm''}" "set (map vm_path (shm_mounts app)) \<subseteq> {''/dev/shm''}"
  "distinct (map vm_name (shm_mounts app))" "distinct (map vm_path (shm_mounts app))"
  "list_all (\<lambda>m. vm_sub_path m = []) (shm_mounts app)"
  by (cases "app_shm_size app"; simp add: shm_volumes_def shm_mounts_def)+

lemma home_names [simp]:
  "vm_name home_mount = ''home''" "vol_name home_volume = ''home''" "vm_path home_mount = ''/home''"
  "vm_sub_path home_mount = []"
  by (simp_all add: home_mount_def home_volume_def)

lemma build_job_pod_ok:
  assumes qs: "subseq qs (GetEnabledProviders (NewStorageManager cfg) w)" and one: "\<not> doubly_served cfg qs"
  shows "pod_spec_ok (job_spec (build_job cfg w uid app svc (volumes_of w qs) (mounts_of user ns qs)))"
proof -
  let ?vs = "volumes_of w qs" and ?ms = "mounts_of user ns qs"
  have resolve: "m \<in> set ?ms \<Longrightarrow> vm_name m \<in> set (map vol_name ?vs)" for m by (rule mounts_covered)
  have shm: "m \<in> set (shm_mounts app) \<Longrightarrow> vm_name m \<in> set (map vol_name (shm_volumes app))" for m
    unfolding own_mounts(1) by simp
  have names: "distinct (map vol_name (shm_volumes app @ [home_volume] @ ?vs))"
    using volumes_distinct [OF qs] reserved_names [OF qs] own_mounts(1,2,4) [of app] by auto
  have paths: "distinct (map vm_path (shm_mounts app @ [home_mount] @ ?ms))"
  proof -
    have "set (map vm_path (shm_mounts app)) \<inter> set (map vm_path ([home_mount] @ ?ms)) = {}"
    proof -
      have "''/dev/shm'' \<notin> set (map vm_path ([home_mount] @ ?ms))"
        using mount_paths_distinct(3) [OF qs one, of user ns] by simp
      then show ?thesis using own_mounts(3) [of app] by blast
    qed
    then show ?thesis
      using mount_paths_distinct(1,2) [OF qs one, of user ns] own_mounts(5) [of app]
      unfolding map_append distinct_append by simp
  qed
  show ?thesis
    unfolding pod_spec_ok_def mounts_resolve_def mount_paths_unique_def
    using names paths resolve shm by (auto simp: list_all_iff)
qed

definition app_data_mounts :: "container \<Rightarrow> nat" where
  "app_data_mounts c = length (filter (\<lambda>m. vm_path m = ''/mnt/app_data'') (ct_mounts c))"

lemma build_job_app_data:
  assumes "subseq qs (GetEnabledProviders (NewStorageManager cfg) w)" "doubly_served cfg qs"
  shows "list_all (\<lambda>c. app_data_mounts c = 2)
    (let p = job_spec (build_job cfg w uid app svc vs (mounts_of user ns qs)) in sp_init_containers p @ sp_containers p)"
proof -
  have own: "filter (\<lambda>m. vm_path m = ''/mnt/app_data'') (shm_mounts app) = []"
    by (simp add: shm_mounts_def split: option.split)
  have paths: "length (filter (\<lambda>m. vm_path m = a) ms) = count_list (map vm_path ms) a" for a ms
    by (induction ms) auto
  have "qs \<in> set (subseqs (all_providers cfg))"
    by (rule sublists_of_all [OF subseq_order.order_trans [OF assms(1) enabled_of_all]])
  then have "count_list (map vm_path (mounts_of user ns qs)) ''/mnt/app_data'' = 2"
    using assms(2) by (auto simp: Let_def doubly_served_def simp del: set_map)
  then show ?thesis by (simp add: Let_def app_data_mounts_def own flip: paths)
qed

lemma doubly_mounted_rejected:
  assumes "app_data_mounts c = 2" "c \<in> set (sp_init_containers p @ sp_containers p)"
  shows "\<not> pod_spec_ok p"
proof -
  have once: "distinct (map vm_path ms) \<Longrightarrow> length (filter (\<lambda>m. vm_path m = a) ms) \<le> 1" for a ms
    by (induction ms) (auto simp: filter_empty_conv image_iff)
  have "\<not> distinct (map vm_path (ct_mounts c))"
  proof
    assume "distinct (map vm_path (ct_mounts c))"
    from once [OF this, of "''/mnt/app_data''"] show False using assms(1) by (simp add: app_data_mounts_def)
  qed
  then show ?thesis
    using assms(2) by (auto simp: pod_spec_ok_def mount_paths_unique_def list_all_iff)
qed

section \<open>The job that \<open>initJob\<close> returns\<close>

lemma initJob_built:
  assumes "result_of (initJob r cfg w uid app svc (NewStorageManager cfg)) x = Inr j"
  obtains qs where "subseq qs (GetEnabledProviders (NewStorageManager cfg) w)"
    "j = build_job cfg w uid app svc (volumes_of w qs) (mounts_of (wb_user w) (wb_namespace w) qs)"
  using emits_start [OF initJob_emits [of r cfg w uid app svc "NewStorageManager cfg"], of x] assms
  by (auto simp: initJob_result_def)

text \<open>The job of a run, from the calls the run made.\<close>

definition juicefs_secret_found :: "call \<Rightarrow> bool" where
  "juicefs_secret_found c = (case c of GotSecret _ (Inr s) \<Rightarrow> secret_field s ''name'' \<noteq> [] | _ \<Rightarrow> False)"

lemma serving_subseq: "secrets_looked_up r ps css \<Longrightarrow> subseq (serving r ps css) ps"
proof -
  assume "secrets_looked_up r ps css"
  then have "map fst (zip ps css) = ps" by (simp add: secrets_looked_up_def list_all2_lengthD)
  moreover have "subseq (serving r ps css) (map fst (zip ps css))"
    unfolding serving_def by (intro subseq_map subseq_filter_left)
  ultimately show ?thesis by simp
qed

lemma serving_both:
  assumes "secrets_looked_up r (GetEnabledProviders (NewStorageManager (rc_config r)) w) css"
  shows "doubly_served (rc_config r) (serving r (GetEnabledProviders (NewStorageManager (rc_config r)) w) css) \<longleftrightarrow>
    two_app_data (rc_config r) w \<and> juicefs_secret_found (hd (concat css @ ins))"
proof (cases "two_app_data (rc_config r) w")
  case True
  let ?s3 = "S3Provider (NewS3Provider (rc_config r))" and ?nfs = "NFSProvider (NewNFSProvider (rc_config r))"
  have ps: "GetEnabledProviders (NewStorageManager (rc_config r)) w =
      ?s3 # (if st_nfs (storage_of w) then [?nfs] else []) @ [LocalProvider NewLocalProvider]"
    and local: "serves r (LocalProvider NewLocalProvider) cs" for cs
    using True by (simp_all add: enabled_providers two_app_data_def serves_def)
  obtain cs css' where css: "css = cs # css'" "secret_lookup r ?s3 (serves r ?s3 cs) cs"
    "list_all2 (\<lambda>p cs. secret_lookup r p (serves r p cs) cs) ((if st_nfs (storage_of w) then [?nfs] else []) @ [LocalProvider NewLocalProvider]) css'"
    using assms unfolding ps secrets_looked_up_def by (auto simp: list_all2_Cons1)
  obtain k g where cs: "cs = [GotSecret k g]" using css(2) by (auto simp: secret_lookup_def secret_call_def)
  have "doubly_served (rc_config r) (serving r (GetEnabledProviders (NewStorageManager (rc_config r)) w) css) \<longleftrightarrow> serves r ?s3 cs"
    using css(3) local unfolding ps css(1) by (auto simp: doubly_served_def serving_def list_all2_Cons1 simp del: set_map set_filter split: if_splits)
  also have "\<dots> \<longleftrightarrow> juicefs_secret_found (hd (concat css @ ins))"
    by (cases g) (simp_all add: css(1) cs serves_def juicefs_secret_found_def complete_secret_def)
  finally show ?thesis using True by simp
qed (use doubly_served_enabled [OF serving_subseq [OF assms]] in auto)

lemma initJob_served:
  assumes "result_of (initJob r cfg w uid app svc (NewStorageManager cfg)) x = Inr j"
  obtains css ins where
    "calls_of (initJob r cfg w uid app svc (NewStorageManager cfg)) x = concat css @ ins"
    "secrets_looked_up r (GetEnabledProviders (NewStorageManager cfg) w) css"
    "j = build_job cfg w uid app svc (volumes_of w (serving r (GetEnabledProviders (NewStorageManager cfg) w) css))
       (mounts_of (wb_user w) (wb_namespace w) (serving r (GetEnabledProviders (NewStorageManager cfg) w) css))"
  using does_start [OF initJob_does [of r cfg w uid app svc "NewStorageManager cfg"], of x] assms
  by (auto simp: initJob_value_def split: if_splits)

lemma initJob_admissible:
  assumes "result_of (initJob r (rc_config r) w uid app svc (NewStorageManager (rc_config r))) x = Inr j"
  defines "both \<equiv> two_app_data (rc_config r) w \<and>
    juicefs_secret_found (hd (calls_of (initJob r (rc_config r) w uid app svc (NewStorageManager (rc_config r))) x))"
  shows "pod_spec_ok (job_spec j) \<longleftrightarrow> \<not> both"
    and "both \<Longrightarrow> list_all (\<lambda>c. app_data_mounts c = 2) (sp_init_containers (job_spec j) @ sp_containers (job_spec j))"
proof -
  let ?ps = "GetEnabledProviders (NewStorageManager (rc_config r)) w"
  obtain css ins where run:
    "calls_of (initJob r (rc_config r) w uid app svc (NewStorageManager (rc_config r))) x = concat css @ ins"
    and css: "secrets_looked_up r ?ps css"
    and j: "j = build_job (rc_config r) w uid app svc (volumes_of w (serving r ?ps css))
        (mounts_of (wb_user w) (wb_namespace w) (serving r ?ps css))"
    by (rule initJob_served [OF assms(1)])
  have both: "both \<longleftrightarrow> doubly_served (rc_config r) (serving r ?ps css)"
    unfolding both_def run using serving_both [OF css] by simp
  show mounts: "list_all (\<lambda>c. app_data_mounts c = 2) (sp_init_containers (job_spec j) @ sp_containers (job_spec j))" if both
    using build_job_app_data [OF serving_subseq [OF css]] that both unfolding j Let_def by blast
  show "pod_spec_ok (job_spec j) \<longleftrightarrow> \<not> both"
  proof
    assume "\<not> both"
    then show "pod_spec_ok (job_spec j)"
      unfolding j using build_job_pod_ok [OF serving_subseq [OF css]] both by blast
  next
    assume "pod_spec_ok (job_spec j)"
    then show "\<not> both"
      using doubly_mounted_rejected [of "hd (sp_containers (job_spec j))" "job_spec j"] mounts
      by (auto simp: j)
  qed
qed

section \<open>Confinement to the namespace\<close>

text \<open>
  Scratch volumes of the pod are mounted whole; everything else is mounted below
  \<open>workspaces/<namespace>/\<close>, from a claim of an enabled provider.
\<close>

definition confined_mount :: "string \<Rightarrow> volume_mount \<Rightarrow> bool" where
  "confined_mount ns m \<longleftrightarrow>
     (vm_name m \<in> {''shm'', ''home''} \<and> vm_sub_path m = []) \<or>
     (vm_name m \<notin> {''shm'', ''home''} \<and> prefix (''workspaces/'' @ ns @ ''/'') (vm_sub_path m))"

definition confined_volume :: "string \<Rightarrow> provider list \<Rightarrow> volume \<Rightarrow> bool" where
  "confined_volume ns ps v = (case vol_source v of
       EmptyDir _ _ \<Rightarrow> vol_name v \<in> {''shm'', ''home''}
     | ClaimSource c \<Rightarrow> c \<in> set (map (\<lambda>p. GetPVCName p ns) ps)
     | _ \<Rightarrow> False)"

definition confined_job :: "string \<Rightarrow> provider list \<Rightarrow> job \<Rightarrow> bool" where
  "confined_job ns ps j \<longleftrightarrow> job_namespace j = ns \<and>
     list_all (confined_volume ns ps) (sp_volumes (job_spec j)) \<and>
     list_all (\<lambda>c. list_all (confined_mount ns) (ct_mounts c))
       (sp_init_containers (job_spec j) @ sp_containers (job_spec j))"

lemma build_job_confined:
  assumes qs: "subseq qs (GetEnabledProviders (NewStorageManager cfg) w)"
  shows "confined_job (wb_namespace w) (GetEnabledProviders (NewStorageManager cfg) w)
    (build_job cfg w uid app svc (volumes_of w qs) (mounts_of user (wb_namespace w) qs))"
proof -
  let ?ns = "wb_namespace w"
  have storage: "list_all (confined_mount ?ns) (mounts_of user ?ns qs)"
    unfolding list_all_iff confined_mount_def
    using mounts_in_namespace [of _ user ?ns qs] mounts_covered [of _ user ?ns qs w] reserved_names [OF qs]
    by blast
  have shm: "list_all (confined_mount ?ns) (shm_mounts app)"
    by (simp add: shm_mounts_def confined_mount_def split: option.split)
  have home: "confined_mount ?ns home_mount" by (simp add: confined_mount_def)
  have vols: "list_all (confined_volume ?ns (GetEnabledProviders (NewStorageManager cfg) w)) (volumes_of w qs)"
    using subseq_set [OF qs] by (auto simp: list_all_iff confined_volume_def provider.volume_claims)
  have own: "list_all (confined_volume ?ns ps) (shm_volumes app @ [home_volume])" for ps
    by (simp add: shm_volumes_def home_volume_def confined_volume_def split: option.split)
  show ?thesis
    using storage shm home vols own by (simp add: confined_job_def)
qed

section \<open>Privileges\<close>

definition privileged :: "container \<Rightarrow> bool" where
  "privileged c = (case ct_security c of None \<Rightarrow> False | Some s \<Rightarrow> sc_privileged s = Some True)"

definition hardened :: "int \<Rightarrow> container \<Rightarrow> bool" where
  "hardened user c = (case ct_security c of
       None \<Rightarrow> False
     | Some s \<Rightarrow> sc_run_as_user s = Some user \<and> sc_run_as_non_root s = Some True \<and>
         sc_allow_escalation s = Some False \<and> sc_capabilities s = Some \<lparr>cap_add = [], cap_drop = [''ALL'']\<rparr>)"

text \<open>What the init container may do: root, with the capabilities to prepare a home directory.\<close>

definition init_capabilities :: "string list" where
  "init_capabilities = [''CHOWN'', ''SETUID'', ''SETGID'', ''DAC_OVERRIDE'', ''FOWNER'']"

definition restricted_root :: "container \<Rightarrow> bool" where
  "restricted_root c = (case ct_security c of
       None \<Rightarrow> False
     | Some s \<Rightarrow> sc_privileged s \<noteq> Some True \<and> sc_allow_escalation s = Some False \<and>
         (case sc_capabilities s of
            None \<Rightarrow> False
          | Some caps \<Rightarrow> set (cap_add caps) \<subseteq> set init_capabilities \<and> cap_drop caps = [''ALL'']))"

lemma build_job_privileges:
  "list_all (hardened (srv_user_id (ws_server (wb_spec w))))
     (sp_containers (job_spec (build_job cfg w uid app svc vs ms))) \<longleftrightarrow> \<not> cfg_debug cfg"
  "list_ex privileged (sp_containers (job_spec (build_job cfg w uid app svc vs ms))) \<longleftrightarrow> cfg_debug cfg"
  "list_all restricted_root (sp_init_containers (job_spec (build_job cfg w uid app svc vs ms)))"
  by (simp_all add: hardened_def privileged_def restricted_root_def buildAppSecurityContext_def debug_security_def
      init_security_def init_capabilities_def)

section \<open>Names\<close>

lemma split_at_first:
  "c \<notin> set u \<Longrightarrow> c \<notin> set u' \<Longrightarrow> u @ c # n = u' @ c # n' \<Longrightarrow> u = u' \<and> n = n'"
  by (induction u arbitrary: u') (auto simp: Cons_eq_append_conv)

section \<open>The environment of the containers\<close>

definition env_value :: "container \<Rightarrow> string \<Rightarrow> string option" where
  "env_value c n = map_of (map (\<lambda>e. (ev_name e, ev_value e)) (ct_env c)) n"

text \<open>The identity that both containers are given, and what only the application is told.\<close>

definition identity_value :: "workbench \<Rightarrow> service \<Rightarrow> string \<Rightarrow> string option" where
  "identity_value w svc n =
     (if n = ''DISPLAY'' then Some (om_name (svc_meta svc) @ ''.'' @ om_namespace (svc_meta svc) @ '':80'')
      else if n = ''CHORUS_USER'' then Some (wb_user w)
      else if n = ''CHORUS_UID'' then Some (Itoa (srv_user_id (ws_server (wb_spec w))))
      else if n = ''CHORUS_GROUP'' then Some ''chorus''
      else if n = ''CHORUS_GID'' then Some ''1001''
      else None)"

definition kiosk_value :: "string \<Rightarrow> kiosk_config option \<Rightarrow> string \<Rightarrow> string option" where
  "kiosk_value img kiosk n = (case kiosk of
       None \<Rightarrow> None
     | Some k \<Rightarrow>
         if \<not> Contains img ''apps/kiosk'' then None
         else if n = ''KIOSK_URL'' then Some (kc_url k)
         else if kc_jwt_url k = [] \<or> kc_jwt_token k = [] then None
         else if n = ''KIOSK_JWT_URL'' then Some (kc_jwt_url k)
         else if n = ''KIOSK_JWT_TOKEN'' then Some (kc_jwt_token k)
         else None)"

definition app_value :: "workbench \<Rightarrow> workbench_app \<Rightarrow> string \<Rightarrow> string option" where
  "app_value w app n =
     (if n = ''APP_NAME'' then Some (getAppName app)
      else if n = ''HOME'' then Some (''/home/'' @ wb_user w)
      else if n = ''USER'' then Some (wb_user w)
      else if n = ''LD_PRELOAD'' then Some ''/usr/lib/x86_64-linux-gnu/libnss_wrapper.so''
      else if n = ''NSS_WRAPPER_PASSWD'' then Some ''/home/.chorus-auth/passwd''
      else if n = ''NSS_WRAPPER_GROUP'' then Some ''/home/.chorus-auth/group''
      else None)"

definition either :: "'a option \<Rightarrow> 'a option \<Rightarrow> 'a option" where
  "either a b = (case a of None \<Rightarrow> b | Some _ \<Rightarrow> a)"

lemma env_names_distinct:
  "distinct (map ev_name (ct_env (app_container cfg w app svc ms)))"
  "distinct (map ev_name (ct_env (init_container cfg w app svc ms)))"
  by (auto simp: app_container_def init_container_def identity_env_def nss_env_def kiosk_env_def split: option.split)

lemma env_values:
  "env_value (app_container cfg w app svc ms) n =
     either (identity_value w svc n) (either (app_value w app n) (kiosk_value (fst (app_image_ref cfg app)) (app_kiosk app) n))"
  "env_value (init_container cfg w app svc ms) n =
     either (identity_value w svc n) (if n = ''APP_NAME'' then Some (app_name app) else None)"
  by (simp_all add: env_value_def app_container_def init_container_def identity_env_def nss_env_def kiosk_env_def
      identity_value_def app_value_def kiosk_value_def either_def display_of_def split: option.split)

section \<open>The password file of an image\<close>

text \<open>An entry: login name, user id and the fields after it.\<close>

type_synonym passwd_entry = "string \<times> int \<times> string list"

definition passwd_line :: "passwd_entry \<Rightarrow> string" where
  "passwd_line = (\<lambda>(n, u, fs). Join (n # ''x'' # Itoa u # fs) '':'')"

definition passwd_file :: "passwd_entry list \<Rightarrow> string" where
  "passwd_file es = Join (map passwd_line es) [newline]"

definition plain_field :: "string \<Rightarrow> bool" where
  "plain_field s \<longleftrightarrow> CHR '':'' \<notin> set s \<and> newline \<notin> set s"

definition entry_ok :: "passwd_entry \<Rightarrow> bool" where
  "entry_ok = (\<lambda>(n, u, fs). plain_field n \<and> list_all plain_field fs \<and> int64_ok u)"

definition collision_message :: "passwd_entry \<Rightarrow> string" where
  "collision_message = (\<lambda>(n, u, fs). ''UID '' @ Itoa u @ '' ('' @ n @ '')'')"

definition reserved_uid :: "passwd_entry \<Rightarrow> bool" where
  "reserved_uid = (\<lambda>(n, u, fs). 1001 \<le> u \<and> u \<le> 9999)"

lemma Itoa_chars: "c \<in> set (Itoa i) \<Longrightarrow> is_digit c \<or> c = CHR ''-''"
  using nat_digits_are_digits by (auto simp: Itoa_def list_all_iff split: if_splits)

lemma plain_Itoa: "plain_field (Itoa i)"
  using Itoa_chars [of "CHR '':''" i] Itoa_chars [of newline i] by (auto simp: plain_field_def newline_def is_digit_def)

lemma Join_chars: "c \<in> set (Join ps sep) \<Longrightarrow> c \<in> set sep \<or> (\<exists>p \<in> set ps. c \<in> set p)"
  by (induction ps sep rule: Join.induct) auto

lemma passwd_fields:
  assumes "entry_ok (n, u, fs)"
  shows "Split (CHR '':'') (passwd_line (n, u, fs)) = n # ''x'' # Itoa u # fs"
    and "newline \<notin> set (passwd_line (n, u, fs))"
proof -
  let ?ps = "n # ''x'' # Itoa u # fs"
  have plain: "\<forall>p \<in> set ?ps. plain_field p"
    using assms plain_Itoa [of u] by (auto simp: entry_ok_def list_all_iff plain_field_def newline_def)
  show "Split (CHR '':'') (passwd_line (n, u, fs)) = ?ps"
    unfolding passwd_line_def prod.case using plain by (intro Split_Join) (auto simp: plain_field_def)
  show "newline \<notin> set (passwd_line (n, u, fs))"
    unfolding passwd_line_def prod.case using plain Join_chars [of newline ?ps "'':''"]
    by (auto simp: plain_field_def newline_def)
qed

lemma line_collision_entry:
  assumes "entry_ok e"
  shows "line_collision (passwd_line e) = (if reserved_uid e then [collision_message e] else [])"
proof -
  obtain n u fs where e: "e = (n, u, fs)" by (metis prod_cases3)
  have nonempty: "passwd_line e \<noteq> []"
    using passwd_fields(1) assms unfolding e by force
  have "Atoi (Itoa u) = Some u" using assms by (simp add: e entry_ok_def Atoi_Itoa)
  then show ?thesis
    using nonempty passwd_fields(1) assms unfolding line_collision_def e
    by (simp add: reserved_uid_def collision_message_def)
qed

lemma collisions_of_file:
  assumes "list_all entry_ok es"
  shows "passwd_collisions (passwd_file es) = map collision_message (filter reserved_uid es)"
proof (cases "es = []")
  case True
  then show ?thesis by (simp add: passwd_collisions_def passwd_file_def line_collision_def)
next
  case False
  have "\<forall>l \<in> set (map passwd_line es). newline \<notin> set l"
    using assms passwd_fields(2) by (auto simp: list_all_iff)
  then have "Split newline (passwd_file es) = map passwd_line es"
    unfolding passwd_file_def using False by (intro Split_Join) auto
  moreover have "concat (map line_collision (map passwd_line es)) = map collision_message (filter reserved_uid es)"
    using assms by (induction es) (auto simp: line_collision_entry)
  ultimately show ?thesis by (simp add: passwd_collisions_def)
qed

section \<open>Properties\<close>

text \<open>C16: A job runs exactly when its application is set to run (or says nothing): the job built for
  any other state is suspended, and updating a job found in the cluster gives it the same setting and
  changes nothing else of it.\<close>

theorem suspended_iff_not_running:
  "(job_suspend (build_job cfg w uid app svc vs ms) = Some False \<longleftrightarrow>
      app_state app = AppRunning \<or> app_state app = AppStateUnset) \<and>
   snd (updateJob (build_job cfg w uid app svc vs ms) found) =
     found\<lparr>job_suspend := job_suspend (build_job cfg w uid app svc vs ms)\<rparr>"
  by (cases found) (auto simp: app_suspended_def updateJob_def)

text \<open>C17: However often a job is compared with its model, at most one write is asked for, the first
  time, and only when the suspension differs.\<close>

theorem job_update_converges:
  "update_flags updateJob s (Suc n) d =
     (case job_suspend s of None \<Rightarrow> False | Some b \<Rightarrow> job_suspend d \<noteq> Some b) # replicate n False"
  using job_update.flags_once [where s = s and d = d] by (auto simp: updateJob_def split: option.split)

text \<open>C20: From a well-formed password file the inspection reports exactly the accounts whose user id
  is in the reserved range 1001 to 9999, in the order of the file, with their ids and names.\<close>

theorem collisions_found_exactly:
  assumes "list_all entry_ok es"
  shows "passwd_collisions (passwd_file es) = map collision_message (filter reserved_uid es)"
  using assms by (rule collisions_of_file)

theorem collisions_found_exactly_witness:
  "passwd_collisions (passwd_file [(''root'', 0, [''0'']), (''app'', 1500, [''1500'', ''/home/app'']), (''nobody'', 65534, [])]) =
     [''UID 1500 (app)'']"
proof -
  let ?es = "[(''root'', 0, [''0'']), (''app'', 1500, [''1500'', ''/home/app'']), (''nobody'', 65534, [])] :: passwd_entry list"
  have "list_all entry_ok ?es" by code_simp
  then have "passwd_collisions (passwd_file ?es) = map collision_message (filter reserved_uid ?es)"
    by (rule collisions_found_exactly)
  also have "\<dots> = [''UID 1500 (app)'']" by code_simp
  finally show ?thesis .
qed

text \<open>C28: Two applications of a workbench have different jobs, as long as their ids contain no dash:
  the name of the job determines the id and the name of the application.\<close>

theorem app_job_names_injective:
  assumes "CHR ''-'' \<notin> set uid" "CHR ''-'' \<notin> set uid'" "app_job_name w uid app = app_job_name w uid' app'"
  shows "uid = uid' \<and> app_name app = app_name app'"
  using assms split_at_first [of "CHR ''-''" uid uid'] by (simp add: app_job_name_def)

theorem app_job_names_injective_witness:
  "''7'' = ''7'' \<and> app_name (sample_app ''kitty'' AppRunning) = app_name (sample_app ''kitty'' AppStopped)"
  by (rule app_job_names_injective [of _ _ live_workbench]) (simp_all add: app_job_name_def sample_app_def)

text \<open>C29: The environment of a job's containers, name by name and value by value. No name occurs twice. The
  application is told its display, its user and group, where its home and its password file are, and its name; the
  address of a kiosk exactly when the application has kiosk settings and its image is a kiosk image, and
  of these the token and its address exactly when both are given. The init container gets the identity and the name, and
  nothing else.\<close>

theorem app_environment_exact:
  "\<exists>c i. sp_containers (job_spec (build_job cfg w uid app svc vs ms)) = [c] \<and>
     sp_init_containers (job_spec (build_job cfg w uid app svc vs ms)) = [i] \<and>
     distinct (map ev_name (ct_env c)) \<and> distinct (map ev_name (ct_env i)) \<and>
     (\<forall>n. env_value c n =
        either (identity_value w svc n) (either (app_value w app n) (kiosk_value (ct_image c) (app_kiosk app) n))) \<and>
     (\<forall>n. env_value i n =
        either (identity_value w svc n) (if n = ''APP_NAME'' then Some (app_name app) else None))"
  by (simp add: env_names_distinct env_values)

end
