(* ===== verification/Manager_Main.thy ===== *)
theory Manager_Main
  imports Storage_Manager App_Job_Safety
begin

text \<open>
  \<open>cmd/main.go\<close>: the command line with its flags and defaults, the configuration of the
  reconciler made from them, the options of the manager with its TLS options, and the start-up with
  its exit status. The syntax of the command line is that of Go's \<open>flag\<close> package. The flags that
  other packages declare (those of the logger, \<open>kubeconfig\<close>) are a parameter: which names there
  are, which of them are switches, and which values each accepts. Creating the manager, registering
  the controller and the probes, and running it, are calls of controller-runtime; a parameter says
  of each whether it returns without an error.
\<close>

section \<open>Flags\<close>

record options =
  op_metrics_addr :: string
  op_probe_addr :: string
  op_leader_elect :: bool
  op_metrics_secure :: bool
  op_enable_http2 :: bool
  op_config :: config

definition default_options :: options where
  "default_options =
     \<lparr>op_metrics_addr = ''0'', op_probe_addr = '':8081'', op_leader_elect = False,
      op_metrics_secure = False, op_enable_http2 = False,
      op_config =
        \<lparr>cfg_registry = ''harbor.build.chorus-tre.local'', cfg_apps_repository = ''apps'',
         cfg_socat_image = [], cfg_xpra_image = [], cfg_init_image = [],
         cfg_juicefs_secret = ''juicefs-secret'', cfg_juicefs_namespace = ''kube-system'',
         cfg_nfs_secret = ''nfs-secret'', cfg_nfs_namespace = ''kube-system'',
         cfg_local_enabled = False, cfg_local_path = ''/tmp/workbench-local-storage'',
         cfg_debug = False, cfg_workbench_priority = [], cfg_application_priority = []\<rparr>\<rparr>"

text \<open>\<open>strconv.ParseBool\<close>, which boolean flags use.\<close>

definition ParseBool :: "string \<Rightarrow> bool option" where
  "ParseBool s =
     (if s \<in> set [''1'', ''t'', ''T'', ''true'', ''TRUE'', ''True''] then Some True
      else if s \<in> set [''0'', ''f'', ''F'', ''false'', ''FALSE'', ''False''] then Some False
      else None)"

definition on_config :: "(config \<Rightarrow> config) \<Rightarrow> options \<Rightarrow> options" where
  "on_config f o' = o'\<lparr>op_config := f (op_config o')\<rparr>"

definition set_flag :: "string \<Rightarrow> string \<Rightarrow> options \<Rightarrow> options option" where
  "set_flag n v p =
     (if n = ''metrics-bind-address'' then Some (p\<lparr>op_metrics_addr := v\<rparr>)
      else if n = ''health-probe-bind-address'' then Some (p\<lparr>op_probe_addr := v\<rparr>)
      else if n = ''leader-elect'' then map_option (\<lambda>b. p\<lparr>op_leader_elect := b\<rparr>) (ParseBool v)
      else if n = ''metrics-secure'' then map_option (\<lambda>b. p\<lparr>op_metrics_secure := b\<rparr>) (ParseBool v)
      else if n = ''enable-http2'' then map_option (\<lambda>b. p\<lparr>op_enable_http2 := b\<rparr>) (ParseBool v)
      else if n = ''registry'' then Some (on_config (cfg_registry_update (\<lambda>_. v)) p)
      else if n = ''apps-repository'' then Some (on_config (cfg_apps_repository_update (\<lambda>_. v)) p)
      else if n = ''xpra-server-image'' then Some (on_config (cfg_xpra_image_update (\<lambda>_. v)) p)
      else if n = ''init-container-image'' then Some (on_config (cfg_init_image_update (\<lambda>_. v)) p)
      else if n = ''socat-image'' then Some (on_config (cfg_socat_image_update (\<lambda>_. v)) p)
      else if n = ''juicefs-secret-name'' then Some (on_config (cfg_juicefs_secret_update (\<lambda>_. v)) p)
      else if n = ''juicefs-secret-namespace'' then Some (on_config (cfg_juicefs_namespace_update (\<lambda>_. v)) p)
      else if n = ''nfs-secret-name'' then Some (on_config (cfg_nfs_secret_update (\<lambda>_. v)) p)
      else if n = ''nfs-secret-namespace'' then Some (on_config (cfg_nfs_namespace_update (\<lambda>_. v)) p)
      else if n = ''local-storage-enabled'' then
        map_option (\<lambda>b. on_config (cfg_local_enabled_update (\<lambda>_. b)) p) (ParseBool v)
      else if n = ''local-storage-host-path'' then Some (on_config (cfg_local_path_update (\<lambda>_. v)) p)
      else if n = ''debug-mode-enabled'' then
        map_option (\<lambda>b. on_config (cfg_debug_update (\<lambda>_. b)) p) (ParseBool v)
      else if n = ''workbench-priority-class-name'' then Some (on_config (cfg_workbench_priority_update (\<lambda>_. v)) p)
      else if n = ''application-priority-class-name'' then Some (on_config (cfg_application_priority_update (\<lambda>_. v)) p)
      else None)"

section \<open>The command line\<close>

text \<open>Flags declared outside the operator: a switch may stand without a value.\<close>

record foreign_flag =
  ff_switch :: bool
  ff_accepts :: "string \<Rightarrow> bool"

type_synonym foreign_flags = "string \<Rightarrow> foreign_flag option"

definition switches :: "string list" where
  "switches = [''leader-elect'', ''metrics-secure'', ''enable-http2'', ''local-storage-enabled'', ''debug-mode-enabled'']"

definition text_flags :: "string list" where
  "text_flags = [''metrics-bind-address'', ''health-probe-bind-address'', ''registry'', ''apps-repository'',
     ''xpra-server-image'', ''init-container-image'', ''socat-image'', ''juicefs-secret-name'',
     ''juicefs-secret-namespace'', ''nfs-secret-name'', ''nfs-secret-namespace'', ''local-storage-host-path'',
     ''workbench-priority-class-name'', ''application-priority-class-name'']"

definition own_flag :: "string \<Rightarrow> bool" where
  "own_flag n \<longleftrightarrow> n \<in> set switches \<or> n \<in> set text_flags"

definition is_switch :: "foreign_flags \<Rightarrow> string \<Rightarrow> bool" where
  "is_switch ff n = (if own_flag n then n \<in> set switches
     else (case ff n of None \<Rightarrow> False | Some f \<Rightarrow> ff_switch f))"

datatype flag_error = HelpRequested | BadSyntax string | NotDefined string | NeedsArgument string | InvalidValue string string

text \<open>The name and the value after the first \<open>=\<close>, which cannot be the first character.\<close>

definition split_value :: "string \<Rightarrow> string \<times> string option" where
  "split_value s = (case dropWhile (\<lambda>c. c \<noteq> CHR ''='') (tl s) of
       [] \<Rightarrow> (s, None)
     | _ # v \<Rightarrow> (hd s # takeWhile (\<lambda>c. c \<noteq> CHR ''='') (tl s), Some v))"

text \<open>One flag off the front of the arguments, as \<open>FlagSet.parseOne\<close> takes it; \<open>Inr None\<close> at the end of the flags.\<close>

definition next_flag :: "foreign_flags \<Rightarrow> string list \<Rightarrow> flag_error + ((string \<times> string) \<times> string list) option" where
  "next_flag ff args = (case args of
       [] \<Rightarrow> Inr None
     | s # rest \<Rightarrow>
         if length s < 2 \<or> hd s \<noteq> CHR ''-'' \<or> s = ''--'' then Inr None
         else let name = (if s ! 1 = CHR ''-'' then drop 2 s else drop 1 s) in
           if hd name = CHR ''-'' \<or> hd name = CHR ''='' then Inl (BadSyntax s)
           else (case split_value name of (n, given) \<Rightarrow>
             if \<not> own_flag n \<and> ff n = None then Inl (if n = ''help'' \<or> n = ''h'' then HelpRequested else NotDefined n)
             else (case given of
                 Some v \<Rightarrow> Inr (Some ((n, v), rest))
               | None \<Rightarrow>
                   if is_switch ff n then Inr (Some ((n, ''true''), rest))
                   else (case rest of [] \<Rightarrow> Inl (NeedsArgument n) | v # rest' \<Rightarrow> Inr (Some ((n, v), rest'))))))"

lemma next_flag_shorter:
  "next_flag ff args = Inr (Some (nv, rest)) \<Longrightarrow> length rest < length args"
  by (auto simp: next_flag_def Let_def split: list.splits if_splits prod.splits option.splits)

definition apply_flag :: "foreign_flags \<Rightarrow> string \<Rightarrow> string \<Rightarrow> options \<Rightarrow> options option" where
  "apply_flag ff n v p =
     (if own_flag n then set_flag n v p
      else (case ff n of Some f \<Rightarrow> if ff_accepts f v then Some p else None | None \<Rightarrow> None))"

text \<open>\<open>flag.Parse\<close>.\<close>

function parse_flags :: "foreign_flags \<Rightarrow> string list \<Rightarrow> options \<Rightarrow> flag_error + options" where
  "parse_flags ff args p = (case next_flag ff args of
       Inl e \<Rightarrow> Inl e
     | Inr None \<Rightarrow> Inr p
     | Inr (Some ((n, v), rest)) \<Rightarrow>
         (case apply_flag ff n v p of None \<Rightarrow> Inl (InvalidValue n v) | Some p' \<Rightarrow> parse_flags ff rest p'))"
  by pat_completeness auto
termination
  by (relation "measure (\<lambda>(_, args, _). length args)") (auto dest: next_flag_shorter)

declare parse_flags.simps [simp del]

text \<open>The names and values a command line gives, in their order.\<close>

function given_flags :: "foreign_flags \<Rightarrow> string list \<Rightarrow> (string \<times> string) list" where
  "given_flags ff args = (case next_flag ff args of
       Inr (Some (nv, rest)) \<Rightarrow> nv # given_flags ff rest
     | _ \<Rightarrow> [])"
  by pat_completeness auto
termination
  by (relation "measure (\<lambda>(_, args). length args)") (auto dest: next_flag_shorter)

declare given_flags.simps [simp del]

section \<open>TLS and start-up\<close>

record tls_config =
  tls_next_protos :: "string list"

definition disableHTTP2 :: "tls_config \<Rightarrow> tls_config" where
  "disableHTTP2 c = c\<lparr>tls_next_protos := [''http/1.1'']\<rparr>"

definition tls_options :: "options \<Rightarrow> (tls_config \<Rightarrow> tls_config) list" where
  "tls_options p = (if \<not> op_enable_http2 p then [disableHTTP2] else [])"

text \<open>The options of \<open>ctrl.NewManager\<close>; the same TLS options go to the metrics and the webhook server.\<close>

record manager_options =
  mo_metrics_addr :: string
  mo_metrics_secure :: bool
  mo_metrics_tls :: "(tls_config \<Rightarrow> tls_config) list"
  mo_webhook_tls :: "(tls_config \<Rightarrow> tls_config) list"
  mo_probe_addr :: string
  mo_leader_election :: bool
  mo_leader_election_id :: string

definition manager_of :: "options \<Rightarrow> manager_options" where
  "manager_of p =
     \<lparr>mo_metrics_addr = op_metrics_addr p, mo_metrics_secure = op_metrics_secure p,
      mo_metrics_tls = tls_options p, mo_webhook_tls = tls_options p, mo_probe_addr = op_probe_addr p,
      mo_leader_election = op_leader_elect p, mo_leader_election_id = ''744cc179.chorus-tre.ch''\<rparr>"

text \<open>
  The calls into controller-runtime with the arguments the operator passes. Whether one returns
  without an error is the argument \<open>ok\<close>; \<open>GotRestConfig\<close> is \<open>ctrl.GetConfigOrDie\<close>, which itself
  exits with status 1 when it finds no configuration. \<open>os_exit\<close> ends the program with a status; falling
  off the end of \<open>main\<close> is status 0.
\<close>

datatype startup_call =
    GotRestConfig
  | MadeManager manager_options
  | SetUpReconciler string config
  | AddedHealthzCheck string
  | AddedReadyzCheck string
  | StartedManager

type_synonym 'a startup = "(startup_call list, 'a) state"

definition attempt :: "(startup_call \<Rightarrow> bool) \<Rightarrow> startup_call \<Rightarrow> bool startup" where
  "attempt ok c = State (\<lambda>made. (ok c, made @ [c]))"

definition os_exit :: "nat \<Rightarrow> nat startup" where
  "os_exit status = State_Monad.return status"

definition run_manager :: "(startup_call \<Rightarrow> bool) \<Rightarrow> options \<Rightarrow> nat startup" where
  "run_manager ok p = do {
     found \<leftarrow> attempt ok GotRestConfig;
     if \<not> found then os_exit 1 else do {
     mgr \<leftarrow> attempt ok (MadeManager (manager_of p));
     if \<not> mgr then os_exit 1 else do {
     controller \<leftarrow> attempt ok (SetUpReconciler ''workbench-controller'' (op_config p));
     if \<not> controller then os_exit 1 else do {
     health \<leftarrow> attempt ok (AddedHealthzCheck ''healthz'');
     if \<not> health then os_exit 1 else do {
     ready \<leftarrow> attempt ok (AddedReadyzCheck ''readyz'');
     if \<not> ready then os_exit 1 else do {
     ran \<leftarrow> attempt ok StartedManager;
     if \<not> ran then os_exit 1 else State_Monad.return 0 } } } } } }"

text \<open>
  The whole program: its exit status and the calls it made. The \<open>flag\<close> package exits with status 0
  after it was asked for help, else with 2.
\<close>

definition main_program :: "foreign_flags \<Rightarrow> string list \<Rightarrow> (startup_call \<Rightarrow> bool) \<Rightarrow> nat \<times> startup_call list" where
  "main_program ff args ok =
     (case parse_flags ff args default_options of
        Inl e \<Rightarrow> (if e = HelpRequested then 0 else 2, [])
      | Inr p \<Rightarrow> run_state (run_manager ok p) [])"

section \<open>Lemmas\<close>

lemma set_flag_debug:
  "set_flag n v p = Some q \<Longrightarrow>
   cfg_debug (op_config q) = (if n = ''debug-mode-enabled'' then the (ParseBool v) else cfg_debug (op_config p)) \<and>
   cfg_local_enabled (op_config q) =
     (if n = ''local-storage-enabled'' then the (ParseBool v) else cfg_local_enabled (op_config p))"
  unfolding set_flag_def on_config_def by (simp split: if_split_asm) auto

text \<open>The names of the lists are those declared, and only a value that is no boolean is refused.\<close>

lemma set_flag_defined:
  "set_flag n v p \<noteq> None \<longleftrightarrow> n \<in> set text_flags \<or> (n \<in> set switches \<and> ParseBool v \<noteq> None)"
  unfolding set_flag_def text_flags_def switches_def by (simp split: if_split)

lemma apply_flag_debug:
  "apply_flag ff n v p = Some q \<Longrightarrow>
   cfg_debug (op_config q) = (if n = ''debug-mode-enabled'' then the (ParseBool v) else cfg_debug (op_config p)) \<and>
   cfg_local_enabled (op_config q) =
     (if n = ''local-storage-enabled'' then the (ParseBool v) else cfg_local_enabled (op_config p))"
proof (cases "own_flag n")
  case True
  then show "apply_flag ff n v p = Some q \<Longrightarrow> ?thesis" by (simp add: apply_flag_def set_flag_debug)
next
  case False
  moreover have "own_flag ''debug-mode-enabled''" "own_flag ''local-storage-enabled''" by code_simp+
  ultimately show "apply_flag ff n v p = Some q \<Longrightarrow> ?thesis"
    by (auto simp: apply_flag_def split: if_splits option.splits)
qed

lemma parse_flags_switches:
  "parse_flags ff args p = Inr q \<Longrightarrow>
   cfg_debug (op_config q) = (case map_of (rev (given_flags ff args)) ''debug-mode-enabled'' of
       None \<Rightarrow> cfg_debug (op_config p) | Some v \<Rightarrow> the (ParseBool v)) \<and>
   cfg_local_enabled (op_config q) = (case map_of (rev (given_flags ff args)) ''local-storage-enabled'' of
       None \<Rightarrow> cfg_local_enabled (op_config p) | Some v \<Rightarrow> the (ParseBool v))"
proof (induction ff args p rule: parse_flags.induct)
  case (1 ff args p)
  show ?case
  proof (cases "\<exists>n v rest. next_flag ff args = Inr (Some ((n, v), rest))")
    case True
    then obtain n v rest where flag: "next_flag ff args = Inr (Some ((n, v), rest))" by blast
    then obtain p' where p': "apply_flag ff n v p = Some p'" "parse_flags ff rest p' = Inr q"
      using "1.prems" by (subst (asm) parse_flags.simps) (auto split: option.splits)
    have "given_flags ff args = (n, v) # given_flags ff rest" by (subst given_flags.simps) (simp add: flag)
    then show ?thesis using "1.IH" [OF flag refl refl refl p'] apply_flag_debug [OF p'(1)]
      by (auto simp: map_add_def split: option.splits)
  next
    case False
    have "q = p"
      using "1.prems" False by (subst (asm) parse_flags.simps) (auto split: sum.splits option.splits)
    moreover have "given_flags ff args = []"
      using False by (subst given_flags.simps) (auto split: sum.splits option.splits)
    ultimately show ?thesis by simp
  qed
qed

lemma run_attempt [simp]: "run_state (attempt ok c) made = (ok c, made @ [c])"
  by (simp add: attempt_def)

lemma run_exit [simp]: "run_state (os_exit n) made = (n, made)"
  by (simp add: os_exit_def)

lemma run_manager_calls:
  "run_state (run_manager ok p) [] =
     (let calls = [GotRestConfig, MadeManager (manager_of p), SetUpReconciler ''workbench-controller'' (op_config p),
                   AddedHealthzCheck ''healthz'', AddedReadyzCheck ''readyz'', StartedManager]
      in (if list_all ok calls then 0 else 1, takeWhile ok calls @ take 1 (dropWhile ok calls)))"
  by (simp add: run_manager_def)

section \<open>Properties\<close>

text \<open>C32: Debug mode and local storage are off unless a flag of the command line says otherwise, and the
  last value given counts; when they are off, no container of an application is privileged and no
  workbench gets local storage, whatever it asks for.\<close>

theorem unsafe_modes_need_flags:
  assumes "parse_flags ff args default_options = Inr p"
  shows "(cfg_debug (op_config p) \<longleftrightarrow>
      (case map_of (rev (given_flags ff args)) ''debug-mode-enabled'' of None \<Rightarrow> False | Some v \<Rightarrow> the (ParseBool v))) \<and>
    (cfg_local_enabled (op_config p) \<longleftrightarrow>
      (case map_of (rev (given_flags ff args)) ''local-storage-enabled'' of None \<Rightarrow> False | Some v \<Rightarrow> the (ParseBool v))) \<and>
    (list_ex privileged (sp_containers (job_spec (build_job (op_config p) w uid app svc vs ms))) \<longleftrightarrow>
      cfg_debug (op_config p)) \<and>
    (cfg_local_enabled (op_config p) \<or>
      list_all (\<lambda>q. GetStorageType q \<noteq> StorageTypeLocal)
        (GetEnabledProviders (NewStorageManager (op_config p)) w))"
proof -
  have "\<not> cfg_debug (op_config default_options)" "\<not> cfg_local_enabled (op_config default_options)"
    by (simp_all add: default_options_def)
  then show ?thesis
    using parse_flags_switches [OF assms] build_job_privileges(2) [of "op_config p"]
    by (auto simp: enabled_providers split: option.splits)
qed

definition no_foreign_flags :: foreign_flags where
  "no_foreign_flags = (\<lambda>_. None)"

definition sample_args :: "string list" where
  "sample_args = [''--debug-mode-enabled'', ''-registry'', ''r'', ''--debug-mode-enabled=false'', ''--'', ''--local-storage-enabled'']"

theorem unsafe_modes_need_flags_witness:
  "\<exists>p. parse_flags no_foreign_flags sample_args default_options = Inr p \<and>
     \<not> cfg_debug (op_config p) \<and> \<not> cfg_local_enabled (op_config p)"
proof -
  have "\<not> isl (parse_flags no_foreign_flags sample_args default_options)" by code_simp
  then obtain p where p: "parse_flags no_foreign_flags sample_args default_options = Inr p"
    by (cases "parse_flags no_foreign_flags sample_args default_options") auto
  have "map_of (rev (given_flags no_foreign_flags sample_args)) ''debug-mode-enabled'' = Some ''false''"
    "map_of (rev (given_flags no_foreign_flags sample_args)) ''local-storage-enabled'' = None"
    by code_simp+
  then have "\<not> cfg_debug (op_config p) \<and> \<not> cfg_local_enabled (op_config p)"
    using unsafe_modes_need_flags [OF p] by (simp add: ParseBool_def)
  then show ?thesis using p by blast
qed

text \<open>C33: The start-up makes six calls, in this order and with these arguments: the cluster's
  configuration, the manager with the options of the command line, the reconciler with its configuration, the
  health and the readiness probe, and the run. The first that fails is the last that is made, and the exit status is 1
  exactly when one failed. When the command line is not understood none is made, and the status
  is 2, or 0 after a request for help. HTTP/2 is off in the TLS configuration of the metrics and of the webhook
  server unless its flag is set.\<close>

theorem startup_stops_at_first_error:
  "main_program ff args ok =
     (case parse_flags ff args default_options of
        Inl e \<Rightarrow> (if e = HelpRequested then 0 else 2, [])
      | Inr p \<Rightarrow>
          (let calls = [GotRestConfig, MadeManager (manager_of p), SetUpReconciler ''workbench-controller'' (op_config p),
                        AddedHealthzCheck ''healthz'', AddedReadyzCheck ''readyz'', StartedManager]
           in (if list_all ok calls then 0 else 1, takeWhile ok calls @ take 1 (dropWhile ok calls)))) \<and>
   tls_next_protos (fold (\<lambda>f c. f c) (mo_metrics_tls (manager_of p)) c0) =
     (if op_enable_http2 p then tls_next_protos c0 else [''http/1.1'']) \<and>
   mo_webhook_tls (manager_of p) = mo_metrics_tls (manager_of p)"
  unfolding main_program_def run_manager_calls
  by (simp add: manager_of_def tls_options_def disableHTTP2_def split: sum.split)

end
