(* ===== verification/Go_Memory.thy ===== *)
theory Go_Memory
  imports Prelude
begin

text \<open>
  Go's memory, as far as the generated deep copies use it: a growing list of cells, of which
  a pointer holds the index. Cells are never freed, so a cell is newer than a moment exactly if
  its address is not below the length the memory had then. A program on it is an \<open>action\<close>:
  it returns a value and the next memory, or \<open>None\<close> when a pointer does not point to a cell
  of its type, which Go's type system excludes.

  What a value means in a memory is a reading function \<open>'c memory \<Rightarrow> 'a \<Rightarrow> 'v option\<close>.
  The contract of a deep copy is the locale \<open>deep_copy\<close>: the copy can be read, with the
  same meaning, from the cells made since. Then no write to an older cell can reach the copy,
  and no write to a newer one the original. The combinators for pointers, slices and maps keep it.
\<close>

type_synonym addr = nat
type_synonym 'c store = "'c list"
type_synonym 'c memory = "addr \<rightharpoonup> 'c"
type_synonym ('c, 'a) action = "'c store \<Rightarrow> ('a \<times> 'c store) option"

definition cells :: "'c store \<Rightarrow> 'c memory" where
  "cells st a = (if a < length st then Some (st ! a) else None)"

definition new_cells :: "'c store \<Rightarrow> 'c store \<Rightarrow> 'c memory" where
  "new_cells st st' a = (if a < length st then None else cells st' a)"

lemma new_cells_le: "new_cells st st' \<subseteq>\<^sub>m cells st'"
  by (auto simp: map_le_def new_cells_def split: if_splits)

lemma cells_mono: "prefix st st' \<Longrightarrow> cells st \<subseteq>\<^sub>m cells st'"
  by (auto simp: map_le_def cells_def prefix_def nth_append split: if_splits)

lemma new_cells_mono:
  "prefix st0 st1 \<Longrightarrow> prefix st2 st3 \<Longrightarrow> new_cells st1 st2 \<subseteq>\<^sub>m new_cells st0 st3"
  by (auto simp: map_le_def new_cells_def cells_def prefix_def nth_append split: if_splits)

section \<open>Actions\<close>

definition pure :: "'a \<Rightarrow> ('c, 'a) action" where
  "pure x st = Some (x, st)"

definition chain :: "('c, 'a) action \<Rightarrow> ('a \<Rightarrow> ('c, 'b) action) \<Rightarrow> ('c, 'b) action" where
  "chain m f st = (case m st of None \<Rightarrow> None | Some (x, st') \<Rightarrow> f x st')"

definition allocate :: "'c \<Rightarrow> ('c, addr) action" where
  "allocate c st = Some (length st, st @ [c])"

definition load :: "('c \<Rightarrow> 'a option) \<Rightarrow> addr \<Rightarrow> ('c, 'a) action" where
  "load view a st =
     (case cells st a of None \<Rightarrow> None | Some c \<Rightarrow> (case view c of None \<Rightarrow> None | Some x \<Rightarrow> Some (x, st)))"

definition assign :: "addr \<Rightarrow> 'c \<Rightarrow> ('c, unit) action" where
  "assign a c st = (if a < length st then Some ((), st[a := c]) else None)"

text \<open>
  \<open>delivers base st m P\<close>: from \<open>st\<close>, the action ends, keeps every cell, and \<open>P\<close> holds of
  its result in the cells made since \<open>base\<close>.
\<close>

definition delivers ::
  "'c store \<Rightarrow> 'c store \<Rightarrow> ('c, 'a) action \<Rightarrow> ('a \<Rightarrow> 'c memory \<Rightarrow> bool) \<Rightarrow> bool" where
  "delivers base st m P \<longleftrightarrow> (\<exists>y st'. m st = Some (y, st') \<and> prefix st st' \<and> P y (new_cells base st'))"

lemma delivers_pure: "P x (new_cells base st) \<Longrightarrow> delivers base st (pure x) P"
  by (simp add: delivers_def pure_def)

lemma delivers_chain:
  assumes "delivers base st m P"
    and "\<And>y st'. prefix st st' \<Longrightarrow> P y (new_cells base st') \<Longrightarrow> delivers base st' (f y) Q"
  shows "delivers base st (chain m f) Q"
  using assms unfolding delivers_def chain_def by (fastforce intro: prefix_order.trans)

lemma delivers_post: "delivers base st m P \<Longrightarrow> (\<And>y m'. P y m' \<Longrightarrow> Q y m') \<Longrightarrow> delivers base st m Q"
  unfolding delivers_def by blast

lemma delivers_allocate:
  "length base \<le> length st \<Longrightarrow> (\<And>m. m (length st) = Some c \<Longrightarrow> P (length st) m) \<Longrightarrow> delivers base st (allocate c) P"
  by (auto simp: delivers_def allocate_def new_cells_def cells_def)

lemma delivers_load:
  "cells st a = Some c \<Longrightarrow> view c = Some x \<Longrightarrow> P x (new_cells base st) \<Longrightarrow> delivers base st (load view a) P"
  by (simp add: delivers_def load_def)

section \<open>The contract of a deep copy\<close>

locale deep_copy =
  fixes rd :: "'c memory \<Rightarrow> 'a \<Rightarrow> 'v option" and cp :: "'a \<Rightarrow> ('c, 'a) action"
  assumes reads_mono: "rd m x = Some v \<Longrightarrow> m \<subseteq>\<^sub>m m' \<Longrightarrow> rd m' x = Some v"
    and copies: "rd (cells st) x = Some v \<Longrightarrow> delivers st st (cp x) (\<lambda>y m. rd m y = Some v)"
begin

lemma delivers_copy:
  assumes "rd (cells st) x = Some v" "prefix base st"
  shows "delivers base st (cp x) (\<lambda>y m. rd m y = Some v)"
proof -
  obtain y st' where "cp x st = Some (y, st')" "prefix st st'" "rd (new_cells st st') y = Some v"
    using copies [OF assms(1)] unfolding delivers_def by blast
  then show ?thesis unfolding delivers_def
    using reads_mono [OF _ new_cells_mono [OF assms(2)]] by fastforce
qed

text \<open>Independence: the copy survives any change of older cells, the original any of newer ones.\<close>

lemma copy_independent:
  assumes "rd (cells st) x = Some v"
  shows "\<exists>y st'. cp x st = Some (y, st') \<and>
    (\<forall>m. cells st \<subseteq>\<^sub>m m \<longrightarrow> rd m x = Some v) \<and> (\<forall>m. new_cells st st' \<subseteq>\<^sub>m m \<longrightarrow> rd m y = Some v) \<and>
    cells st \<subseteq>\<^sub>m cells st'"
proof -
  obtain y st' where "cp x st = Some (y, st')" "prefix st st'" "rd (new_cells st st') y = Some v"
    using copies [OF assms] unfolding delivers_def by blast
  then show ?thesis using reads_mono [OF assms] reads_mono cells_mono by blast
qed

end

text \<open>A value without pointers is copied by assignment.\<close>

definition read_by :: "('a \<Rightarrow> 'v option) \<Rightarrow> 'c memory \<Rightarrow> 'a \<Rightarrow> 'v option" where
  "read_by f m x = f x"

lemma assigned_deep_copy: "deep_copy (read_by f) pure"
  by unfold_locales (simp_all add: read_by_def delivers_pure)

definition read_flat :: "('a \<Rightarrow> 'v) \<Rightarrow> 'c memory \<Rightarrow> 'a \<Rightarrow> 'v option" where
  "read_flat f m x = Some (f x)"

lemma flat_deep_copy: "deep_copy (read_flat f) pure"
  by unfold_locales (simp_all add: read_flat_def delivers_pure)

section \<open>Pointers\<close>

text \<open>
  A copied pointer: \<open>nil\<close> stays \<open>nil\<close>; otherwise a new cell is made, first with the zero value
  of its type (\<open>zero\<close>), then filled with the copy of what the pointer points to.
\<close>

definition copy_into ::
  "('a \<Rightarrow> 'c) \<Rightarrow> ('c \<Rightarrow> 'a option) \<Rightarrow> 'c \<Rightarrow> ('a \<Rightarrow> ('c, 'a) action) \<Rightarrow> addr \<Rightarrow> ('c, addr) action" where
  "copy_into tag view zero cp a =
     chain (allocate zero) (\<lambda>out. chain (load view a) (\<lambda>x. chain (cp x) (\<lambda>y.
       chain (assign out (tag y)) (\<lambda>_. pure out))))"

definition copy_pointer ::
  "('a \<Rightarrow> 'c) \<Rightarrow> ('c \<Rightarrow> 'a option) \<Rightarrow> 'c \<Rightarrow> ('a \<Rightarrow> ('c, 'a) action) \<Rightarrow> addr option \<Rightarrow> ('c, addr option) action" where
  "copy_pointer tag view zero cp p =
     (case p of None \<Rightarrow> pure None | Some a \<Rightarrow> chain (copy_into tag view zero cp a) (\<lambda>out. pure (Some out)))"

definition read_cell ::
  "('c \<Rightarrow> 'a option) \<Rightarrow> ('c memory \<Rightarrow> 'a \<Rightarrow> 'v option) \<Rightarrow> 'c memory \<Rightarrow> addr \<Rightarrow> 'v option" where
  "read_cell view rd m a =
     (case m a of None \<Rightarrow> None | Some c \<Rightarrow> (case view c of None \<Rightarrow> None | Some x \<Rightarrow> rd m x))"

definition read_pointer ::
  "('c \<Rightarrow> 'a option) \<Rightarrow> ('c memory \<Rightarrow> 'a \<Rightarrow> 'v option) \<Rightarrow> 'c memory \<Rightarrow> addr option \<Rightarrow> 'v option option" where
  "read_pointer view rd m p =
     (case p of None \<Rightarrow> Some None | Some a \<Rightarrow> map_option Some (read_cell view rd m a))"

lemma read_cell_Some:
  "read_cell view rd m a = Some v \<longleftrightarrow> (\<exists>c x. m a = Some c \<and> view c = Some x \<and> rd m x = Some v)"
  by (auto simp: read_cell_def split: option.splits)

lemma read_pointer_Some:
  "read_pointer view rd m p = Some v \<longleftrightarrow>
     (p = None \<and> v = None) \<or> (\<exists>a u. p = Some a \<and> v = Some u \<and> read_cell view rd m a = Some u)"
  by (auto simp: read_pointer_def split: option.splits)

lemma map_leD: "m a = Some c \<Longrightarrow> m \<subseteq>\<^sub>m m' \<Longrightarrow> m' a = Some c"
  by (metis domI map_le_def)

text \<open>The one place that writes: into the cell allocated just before.\<close>

lemma delivers_copy_into:
  assumes a: "cells st a = Some c" "view c = Some x"
    and cp: "\<And>st'. prefix st st' \<Longrightarrow> delivers st' st' (cp x) P"
    and mono: "\<And>y m m'. P y m \<Longrightarrow> m \<subseteq>\<^sub>m m' \<Longrightarrow> P y m'"
  shows "delivers st st (copy_into tag view zero cp a) (\<lambda>b m. \<exists>y. m b = Some (tag y) \<and> P y m)"
proof -
  let ?s = "st @ [zero]"
  have s: "prefix st ?s" by simp
  have a': "cells ?s a = Some c" using map_leD [OF a(1) cells_mono [OF s]] .
  obtain y t where y: "cp x ?s = Some (y, t)" "prefix ?s t" "P y (new_cells ?s t)"
    using cp [OF s] unfolding delivers_def by blast
  then obtain u where t: "t = ?s @ u" by (auto simp: prefix_def)
  let ?t = "t[length st := tag y]"
  have final: "?t = (st @ [tag y]) @ u" by (simp add: t list_update_append)
  have "copy_into tag view zero cp a st = Some (length st, ?t)"
    using a' a(2) y(1) t by (simp add: copy_into_def chain_def allocate_def load_def assign_def pure_def)
  moreover have "new_cells ?s t \<subseteq>\<^sub>m new_cells st ?t"
    unfolding final t by (auto simp: map_le_def new_cells_def cells_def nth_append split: if_splits)
  then have "P y (new_cells st ?t)" by (rule mono [OF y(3)])
  moreover have "new_cells st ?t (length st) = Some (tag y)"
    unfolding final by (simp add: new_cells_def cells_def nth_append)
  moreover have "prefix st ?t" unfolding final by simp
  ultimately show ?thesis unfolding delivers_def by blast
qed

context deep_copy
begin

lemma cell_reads_mono:
  "read_cell view rd m a = Some v \<Longrightarrow> m \<subseteq>\<^sub>m m' \<Longrightarrow> read_cell view rd m' a = Some v"
  unfolding read_cell_Some by (elim exE conjE) (intro exI conjI, rule map_leD, assumption+, rule reads_mono)

text \<open>Cells and pointers.\<close>

lemma delivers_copy_cell:
  assumes "read_cell view rd (cells st) a = Some v" "\<And>y. view (tag y) = Some y"
  shows "delivers st st (copy_into tag view zero cp a) (\<lambda>b m. read_cell view rd m b = Some v)"
proof -
  obtain c x where c: "cells st a = Some c" "view c = Some x" "rd (cells st) x = Some v"
    using assms(1) unfolding read_cell_Some by blast
  have "delivers st' st' (cp x) (\<lambda>y m. rd m y = Some v)" if "prefix st st'" for st'
    using copies [OF reads_mono [OF c(3) cells_mono [OF that]]] .
  then have "delivers st st (copy_into tag view zero cp a)
      (\<lambda>b m. \<exists>y. m b = Some (tag y) \<and> rd m y = Some v)"
    by (rule delivers_copy_into [where view = view and cp = cp and P = "\<lambda>y m. rd m y = Some v", OF c(1,2)])
      (assumption, erule (1) reads_mono)
  then show ?thesis by (rule delivers_post) (use assms(2) in \<open>auto simp: read_cell_Some\<close>)
qed

lemma pointer_deep_copy:
  assumes "\<And>y. view (tag y) = Some y"
  shows "deep_copy (read_pointer view rd) (copy_pointer tag view zero cp)"
proof
  fix m m' p v
  show "read_pointer view rd m p = Some v \<Longrightarrow> m \<subseteq>\<^sub>m m' \<Longrightarrow> read_pointer view rd m' p = Some v"
    by (cases p) (auto simp: read_pointer_def intro: cell_reads_mono)
next
  fix st p v assume "read_pointer view rd (cells st) p = Some v"
  then consider "p = None" "v = None"
    | a u where "p = Some a" "v = Some u" "read_cell view rd (cells st) a = Some u"
    unfolding read_pointer_Some by blast
  then show "delivers st st (copy_pointer tag view zero cp p) (\<lambda>q m. read_pointer view rd m q = Some v)"
  proof cases
    case 1
    then show ?thesis by (simp add: copy_pointer_def read_pointer_def delivers_pure)
  next
    case 2
    then show ?thesis
      unfolding copy_pointer_def read_pointer_Some
      by (auto intro!: delivers_chain [OF delivers_copy_cell [OF 2(3) assms]] delivers_pure)
  qed
qed

end

section \<open>Slices and maps\<close>

text \<open>A slice that is not \<open>nil\<close>: its array, the offset of its first element, and its length.\<close>

type_synonym slice = "(addr \<times> nat \<times> nat) option"

fun read_each :: "('c memory \<Rightarrow> 'a \<Rightarrow> 'v option) \<Rightarrow> 'c memory \<Rightarrow> 'a list \<Rightarrow> 'v list option" where
  "read_each rd m [] = Some []"
| "read_each rd m (x # xs) =
     (case rd m x of None \<Rightarrow> None | Some v \<Rightarrow> map_option (Cons v) (read_each rd m xs))"

fun copy_each :: "('a \<Rightarrow> ('c, 'a) action) \<Rightarrow> 'a list \<Rightarrow> ('c, 'a list) action" where
  "copy_each cp [] = pure []"
| "copy_each cp (x # xs) = chain (cp x) (\<lambda>y. chain (copy_each cp xs) (\<lambda>ys. pure (y # ys)))"

definition read_slice ::
  "('c \<Rightarrow> 'a list option) \<Rightarrow> ('c memory \<Rightarrow> 'a \<Rightarrow> 'v option) \<Rightarrow> 'c memory \<Rightarrow> slice \<Rightarrow> 'v list option option" where
  "read_slice view rd m s = (case s of
       None \<Rightarrow> Some None
     | Some (a, off, n) \<Rightarrow> (case m a of
           None \<Rightarrow> None
         | Some c \<Rightarrow> (case view c of
               None \<Rightarrow> None
             | Some xs \<Rightarrow> if off + n \<le> length xs
                 then map_option Some (read_each rd m (take n (drop off xs))) else None)))"

text \<open>\<open>make\<close> gives an array of exactly the length of the slice, in which the copies are stored.\<close>

definition copy_slice ::
  "('a list \<Rightarrow> 'c) \<Rightarrow> ('c \<Rightarrow> 'a list option) \<Rightarrow> 'c \<Rightarrow> ('a \<Rightarrow> ('c, 'a) action) \<Rightarrow> slice \<Rightarrow> ('c, slice) action" where
  "copy_slice tag view zero cp s = (case s of
       None \<Rightarrow> pure None
     | Some (a, off, n) \<Rightarrow>
         chain (copy_into tag view zero (\<lambda>xs. copy_each cp (take n (drop off xs))) a)
           (\<lambda>out. pure (Some (out, 0, n))))"

fun copy_entries :: "('a \<Rightarrow> ('c, 'a) action) \<Rightarrow> 'a gomap \<Rightarrow> 'a gomap \<Rightarrow> ('c, 'a gomap) action" where
  "copy_entries cp [] out = pure out"
| "copy_entries cp ((k, val) # es) out = chain (cp val) (\<lambda>y. copy_entries cp es (map_put k y out))"

text \<open>The keys of a Go map are distinct.\<close>

definition read_entries :: "('c memory \<Rightarrow> 'a \<Rightarrow> 'v option) \<Rightarrow> 'c memory \<Rightarrow> 'a gomap \<Rightarrow> 'v gomap option" where
  "read_entries rd m es =
     (if distinct (map fst es) then map_option (zip (map fst es)) (read_each rd m (map snd es)) else None)"

definition copy_map :: "('a \<Rightarrow> ('c, 'a) action) \<Rightarrow> 'a gomap \<Rightarrow> ('c, 'a gomap) action" where
  "copy_map cp es = copy_entries cp es []"

lemma read_each_append:
  "read_each rd m xs = Some us \<Longrightarrow> read_each rd m ys = Some vs \<Longrightarrow> read_each rd m (xs @ ys) = Some (us @ vs)"
  by (induction xs arbitrary: us) (auto split: option.splits)

lemma read_each_length: "read_each rd m xs = Some vs \<Longrightarrow> length vs = length xs"
  by (induction xs arbitrary: vs) (auto split: option.splits)

lemma map_put_new: "k \<notin> set (map fst m) \<Longrightarrow> map_put k v m = m @ [(k, v)]"
  by (induction m) auto

context deep_copy
begin

lemma each_reads_mono:
  "read_each rd m xs = Some vs \<Longrightarrow> m \<subseteq>\<^sub>m m' \<Longrightarrow> read_each rd m' xs = Some vs"
  by (induction xs arbitrary: vs) (auto split: option.splits dest: reads_mono)

lemma delivers_copy_each:
  "read_each rd (cells st) xs = Some vs \<Longrightarrow> prefix base st \<Longrightarrow>
   delivers base st (copy_each cp xs) (\<lambda>ys m. read_each rd m ys = Some vs)"
proof (induction xs arbitrary: vs st)
  case Nil
  then show ?case by (simp add: delivers_pure)
next
  case (Cons x xs)
  then obtain u us where u: "rd (cells st) x = Some u" "read_each rd (cells st) xs = Some us" "vs = u # us"
    by (auto split: option.splits)
  show ?case unfolding copy_each.simps
  proof (rule delivers_chain [OF delivers_copy [OF u(1) Cons.prems(2)]])
    fix y st' assume st': "prefix st st'" "rd (new_cells base st') y = Some u"
    have base: "prefix base st'" using Cons.prems(2) st'(1) by (rule prefix_order.trans)
    have "delivers base st' (copy_each cp xs) (\<lambda>ys m. read_each rd m ys = Some us)"
      using Cons.IH [OF each_reads_mono [OF u(2) cells_mono [OF st'(1)]] base] .
    then show "delivers base st' (chain (copy_each cp xs) (\<lambda>ys. pure (y # ys)))
        (\<lambda>ys m. read_each rd m ys = Some vs)"
    proof (rule delivers_chain)
      fix ys st'' assume "prefix st' st''" "read_each rd (new_cells base st'') ys = Some us"
      then show "delivers base st'' (pure (y # ys)) (\<lambda>ys m. read_each rd m ys = Some vs)"
        using reads_mono [OF st'(2) new_cells_mono [of base base]] u(3) by (simp add: delivers_pure)
    qed
  qed
qed

lemma slice_deep_copy:
  assumes "\<And>y. view (tag y) = Some y"
  shows "deep_copy (read_slice view rd) (copy_slice tag view zero cp)"
proof
  fix m m' s v
  show "read_slice view rd m s = Some v \<Longrightarrow> m \<subseteq>\<^sub>m m' \<Longrightarrow> read_slice view rd m' s = Some v"
    by (auto simp: read_slice_def split: option.splits prod.splits if_splits dest!: map_leD [of m _ _ m']
        intro: each_reads_mono)
next
  fix st s v assume rd: "read_slice view rd (cells st) s = Some v"
  show "delivers st st (copy_slice tag view zero cp s) (\<lambda>q m. read_slice view rd m q = Some v)"
  proof (cases s)
    case None
    then show ?thesis using rd by (simp add: copy_slice_def read_slice_def delivers_pure)
  next
    case (Some t)
    then obtain a off n where s: "s = Some (a, off, n)" by (cases t) auto
    then obtain c xs vs where c: "cells st a = Some c" "view c = Some xs" "off + n \<le> length xs"
      "read_each rd (cells st) (take n (drop off xs)) = Some vs" "v = Some vs"
      using rd by (auto simp: read_slice_def split: option.splits if_splits)
    have n: "length vs = n" using read_each_length [OF c(4)] c(3) by simp
    let ?cp = "\<lambda>xs. copy_each cp (take n (drop off xs))"
    have "delivers st' st' (?cp xs) (\<lambda>ys m. read_each rd m ys = Some vs)" if "prefix st st'" for st'
      by (rule delivers_copy_each [OF each_reads_mono [OF c(4) cells_mono [OF that]]]) simp
    then have "delivers st st (copy_into tag view zero ?cp a)
        (\<lambda>b m. \<exists>ys. m b = Some (tag ys) \<and> read_each rd m ys = Some vs)"
      by (rule delivers_copy_into [where view = view and cp = ?cp and P = "\<lambda>ys m. read_each rd m ys = Some vs", OF c(1,2)])
        (assumption, erule (1) each_reads_mono)
    then show ?thesis unfolding s copy_slice_def option.case prod.case
    proof (rule delivers_chain)
      fix b st'
      assume "\<exists>ys. new_cells st st' b = Some (tag ys) \<and> read_each rd (new_cells st st') ys = Some vs"
      then obtain ys where ys: "new_cells st st' b = Some (tag ys)" "read_each rd (new_cells st st') ys = Some vs"
        by blast
      have "length ys = n" using read_each_length [OF ys(2)] n by simp
      then show "delivers st st' (pure (Some (b, 0, n))) (\<lambda>q m. read_slice view rd m q = Some v)"
        using ys by (simp add: delivers_pure read_slice_def assms c(5))
    qed
  qed
qed

lemma delivers_copy_entries:
  assumes "read_each rd (cells st) (map snd es) = Some vs" "prefix base st"
    "read_each rd (new_cells base st) (map snd out) = Some us" "distinct (map fst out @ map fst es)"
  shows "delivers base st (copy_entries cp es out)
     (\<lambda>ys m. map fst ys = map fst out @ map fst es \<and> read_each rd m (map snd ys) = Some (us @ vs))"
  using assms
proof (induction es arbitrary: vs st out us)
  case Nil
  then show ?case by (simp add: delivers_pure)
next
  case (Cons e es)
  obtain k val where e: "e = (k, val)" by (cases e)
  obtain w ws where w: "rd (cells st) val = Some w" "read_each rd (cells st) (map snd es) = Some ws" "vs = w # ws"
    using Cons.prems(1) e by (auto split: option.splits)
  show ?case unfolding e copy_entries.simps
  proof (rule delivers_chain [OF delivers_copy [OF w(1) Cons.prems(2)]])
    fix y st' assume st': "prefix st st'" "rd (new_cells base st') y = Some w"
    have put: "map_put k y out = out @ [(k, y)]"
      by (rule map_put_new) (use Cons.prems(4) e in auto)
    have base: "prefix base st'" using Cons.prems(2) st'(1) by (rule prefix_order.trans)
    have "read_each rd (new_cells base st') (map snd out) = Some us"
      using each_reads_mono [OF Cons.prems(3) new_cells_mono [OF _ st'(1)]] by simp
    then have "read_each rd (new_cells base st') (map snd (map_put k y out)) = Some (us @ [w])"
      using st'(2) by (simp add: put read_each_append)
    moreover have "distinct (map fst (map_put k y out) @ map fst es)"
      using Cons.prems(4) e put by simp
    ultimately show "delivers base st' (copy_entries cp es (map_put k y out))
        (\<lambda>ys m. map fst ys = map fst out @ map fst ((k, val) # es) \<and>
           read_each rd m (map snd ys) = Some (us @ vs))"
      using Cons.IH [OF each_reads_mono [OF w(2) cells_mono [OF st'(1)]] base, of "map_put k y out" "us @ [w]"] w(3)
      by (simp add: put)
  qed
qed

lemma map_deep_copy: "deep_copy (read_entries rd) (copy_map cp)"
proof
  fix m m' es v
  show "read_entries rd m es = Some v \<Longrightarrow> m \<subseteq>\<^sub>m m' \<Longrightarrow> read_entries rd m' es = Some v"
    by (auto simp: read_entries_def split: if_splits dest: each_reads_mono)
next
  fix st es v assume "read_entries rd (cells st) es = Some v"
  then obtain vs where vs: "distinct (map fst es)" "read_each rd (cells st) (map snd es) = Some vs"
    "v = zip (map fst es) vs"
    by (auto simp: read_entries_def split: if_splits)
  then show "delivers st st (copy_map cp es) (\<lambda>ys m. read_entries rd m ys = Some v)"
    unfolding copy_map_def
    by (intro delivers_post [OF delivers_copy_entries [where us = "[]"]])
      (auto simp: read_entries_def)
qed

end

section \<open>Structs\<close>

text \<open>
  A struct is copied field by field: fields one after another, and the rest of the struct by the
  assignment \<open>*out = *in\<close>. \<open>part\<close> selects the copied fields, \<open>build\<close> puts their copies in.
\<close>

lemma chain_pure [simp]: "chain m pure = m" "chain (pure x) f = f x"
  by (auto simp: chain_def pure_def fun_eq_iff split: option.splits)

lemma chain_assoc [simp]: "chain (chain m f) g = chain m (\<lambda>x. chain (f x) g)"
  by (auto simp: chain_def fun_eq_iff split: option.splits)

definition copy_both ::
  "('a \<Rightarrow> ('c, 'a) action) \<Rightarrow> ('b \<Rightarrow> ('c, 'b) action) \<Rightarrow> 'a \<times> 'b \<Rightarrow> ('c, 'a \<times> 'b) action" where
  "copy_both cp1 cp2 x = chain (cp1 (fst x)) (\<lambda>y1. chain (cp2 (snd x)) (\<lambda>y2. pure (y1, y2)))"

definition read_both ::
  "('c memory \<Rightarrow> 'a \<Rightarrow> 'u option) \<Rightarrow> ('c memory \<Rightarrow> 'b \<Rightarrow> 'v option) \<Rightarrow> 'c memory \<Rightarrow> 'a \<times> 'b \<Rightarrow> ('u \<times> 'v) option" where
  "read_both rd1 rd2 m x =
     (case rd1 m (fst x) of None \<Rightarrow> None | Some u \<Rightarrow> map_option (Pair u) (rd2 m (snd x)))"

lemma both_deep_copy:
  assumes "deep_copy rd1 cp1" "deep_copy rd2 cp2"
  shows "deep_copy (read_both rd1 rd2) (copy_both cp1 cp2)"
proof
  fix m m' x v
  show "read_both rd1 rd2 m x = Some v \<Longrightarrow> m \<subseteq>\<^sub>m m' \<Longrightarrow> read_both rd1 rd2 m' x = Some v"
    using deep_copy.reads_mono [OF assms(1), of m "fst x" _ m'] deep_copy.reads_mono [OF assms(2), of m "snd x" _ m']
    by (auto simp: read_both_def split: option.splits)
next
  fix st x v assume "read_both rd1 rd2 (cells st) x = Some v"
  then obtain u w where u: "rd1 (cells st) (fst x) = Some u" "rd2 (cells st) (snd x) = Some w" "v = (u, w)"
    by (auto simp: read_both_def split: option.splits)
  show "delivers st st (copy_both cp1 cp2 x) (\<lambda>y m. read_both rd1 rd2 m y = Some v)"
    unfolding copy_both_def
  proof (rule delivers_chain [OF deep_copy.copies [OF assms(1) u(1)]])
    fix y st' assume st': "prefix st st'" "rd1 (new_cells st st') y = Some u"
    have "rd2 (cells st') (snd x) = Some w"
      using deep_copy.reads_mono [OF assms(2) u(2) cells_mono [OF st'(1)]] .
    then show "delivers st st' (chain (cp2 (snd x)) (\<lambda>z. pure (y, z))) (\<lambda>y m. read_both rd1 rd2 m y = Some v)"
    proof (rule delivers_chain [OF deep_copy.delivers_copy [OF assms(2) _ st'(1)]])
      fix z st'' assume st'': "prefix st' st''" "rd2 (new_cells st st'') z = Some w"
      have "rd1 (new_cells st st'') y = Some u"
        using deep_copy.reads_mono [OF assms(1) st'(2) new_cells_mono [OF _ st''(1)]] by simp
      then show "delivers st st'' (pure (y, z)) (\<lambda>y m. read_both rd1 rd2 m y = Some v)"
        using st''(2) u(3) by (simp add: delivers_pure read_both_def)
    qed
  qed
qed

lemma struct_deep_copy:
  assumes "deep_copy rd cp"
    and "\<And>m x. rd' m x = map_option (meaning x) (rd m (part x))"
    and "\<And>x. cp' x = chain (cp (part x)) (\<lambda>y. pure (build x y))"
    and "\<And>x y. part (build x y) = y" "\<And>x y. meaning (build x y) = meaning x"
  shows "deep_copy rd' cp'"
proof
  fix m m' x v
  show "rd' m x = Some v \<Longrightarrow> m \<subseteq>\<^sub>m m' \<Longrightarrow> rd' m' x = Some v"
    by (auto simp: assms(2) dest: deep_copy.reads_mono [OF assms(1)])
next
  fix st x v assume "rd' (cells st) x = Some v"
  then obtain u where u: "rd (cells st) (part x) = Some u" "v = meaning x u" by (auto simp: assms(2))
  show "delivers st st (cp' x) (\<lambda>y m. rd' m y = Some v)" unfolding assms(3)
    by (rule delivers_chain [OF deep_copy.copies [OF assms(1) u(1)]])
      (simp add: delivers_pure assms(2,4,5) u(2))
qed

end
