(* ===== verification/Deep_Copy.thy ===== *)
theory Deep_Copy
  imports Go_Memory Workbench_Types
begin

text \<open>
  \<open>api/v1alpha1/zz_generated.deepcopy.go\<close>: \<open>DeepCopyInto\<close> and \<open>DeepCopy\<close> of every type of the API
  group, on the memory of \<open>Go_Memory\<close>. The records ending in \<open>_mem\<close> are the Go structs as they lie in memory,
  with their pointers; the reading functions give the values of \<open>Workbench_Types\<close>
  they stand for. \<open>DeepCopyInto\<close> overwrites all of \<open>*out\<close>, so it is modelled as returning the struct it
  leaves there. A nested struct is part of its parent's cell.

  The structs of the Kubernetes libraries (object metadata, quantities, resource requirements) are
  values of a type parameter with their own pointers into the same memory; their deep copies and
  what they mean are the record \<open>library\<close>, of which \<open>library_laws\<close> states that they are deep copies.
\<close>

section \<open>Structs and cells\<close>

record type_meta =
  tm_kind :: string
  tm_api_version :: string

record list_meta =
  lm_resource_version :: string
  lm_continue :: string

record app_mem =
  am_name :: string
  am_version :: string
  am_state :: app_state
  am_image :: "addr option"
  am_shm_size :: "addr option"
  am_resources :: "addr option"
  am_kiosk :: "addr option"

record spec_mem =
  sm_server :: server_spec
  sm_init :: "addr option"
  sm_apps :: "addr option"
  sm_service_account :: string
  sm_pull_secrets :: slice
  sm_storage :: "addr option"

record server_mem =
  svm_revision :: int
  svm_status :: server_status
  svm_pod :: "addr option"

record status_mem =
  stm_server :: server_mem
  stm_apps :: "addr option"

record 'x workbench_mem =
  wm_type :: type_meta
  wm_meta :: 'x
  wm_spec :: spec_mem
  wm_status :: status_mem

record 'x list_mem =
  wl_type :: type_meta
  wl_meta :: 'x
  wl_items :: slice

text \<open>
  What a cell can hold: a struct, the entries of a map, the array of a slice. \<open>ZeroCell\<close> is what
  \<open>new\<close> and \<open>make\<close> give; every such cell is written before it is read.
\<close>

datatype 'x cell =
    ZeroCell
  | ImageCell image
  | InitCell string
  | KioskCell kiosk_config
  | HealthCell pod_health
  | StorageCell storage_config
  | ServerCell server_spec
  | AppCell app_mem
  | StatusAppCell app_entry
  | StatusServerCell server_mem
  | SpecCell spec_mem
  | StatusCell status_mem
  | WorkbenchCell "'x workbench_mem"
  | WorkbenchListCell "'x list_mem"
  | AppsCell "app_mem gomap"
  | StatusAppsCell "app_entry gomap"
  | StringsCell "string list"
  | WorkbenchesCell "'x workbench_mem list"
  | QuantityCell 'x
  | ResourcesCell 'x
  | LibraryCell 'x

definition as_image where "as_image c = (case c of ImageCell x \<Rightarrow> Some x | _ \<Rightarrow> None)"
definition as_init where "as_init c = (case c of InitCell x \<Rightarrow> Some x | _ \<Rightarrow> None)"
definition as_kiosk where "as_kiosk c = (case c of KioskCell x \<Rightarrow> Some x | _ \<Rightarrow> None)"
definition as_health where "as_health c = (case c of HealthCell x \<Rightarrow> Some x | _ \<Rightarrow> None)"
definition as_storage where "as_storage c = (case c of StorageCell x \<Rightarrow> Some x | _ \<Rightarrow> None)"
definition as_server where "as_server c = (case c of ServerCell x \<Rightarrow> Some x | _ \<Rightarrow> None)"
definition as_app where "as_app c = (case c of AppCell x \<Rightarrow> Some x | _ \<Rightarrow> None)"
definition as_status_app where "as_status_app c = (case c of StatusAppCell x \<Rightarrow> Some x | _ \<Rightarrow> None)"
definition as_status_server where "as_status_server c = (case c of StatusServerCell x \<Rightarrow> Some x | _ \<Rightarrow> None)"
definition as_spec where "as_spec c = (case c of SpecCell x \<Rightarrow> Some x | _ \<Rightarrow> None)"
definition as_status where "as_status c = (case c of StatusCell x \<Rightarrow> Some x | _ \<Rightarrow> None)"
definition as_workbench where "as_workbench c = (case c of WorkbenchCell x \<Rightarrow> Some x | _ \<Rightarrow> None)"
definition as_workbench_list where "as_workbench_list c = (case c of WorkbenchListCell x \<Rightarrow> Some x | _ \<Rightarrow> None)"
definition as_apps where "as_apps c = (case c of AppsCell x \<Rightarrow> Some x | _ \<Rightarrow> None)"
definition as_status_apps where "as_status_apps c = (case c of StatusAppsCell x \<Rightarrow> Some x | _ \<Rightarrow> None)"
definition as_strings where "as_strings c = (case c of StringsCell x \<Rightarrow> Some x | _ \<Rightarrow> None)"
definition as_workbenches where "as_workbenches c = (case c of WorkbenchesCell x \<Rightarrow> Some x | _ \<Rightarrow> None)"
definition as_quantity where "as_quantity c = (case c of QuantityCell x \<Rightarrow> Some x | _ \<Rightarrow> None)"
definition as_resources where "as_resources c = (case c of ResourcesCell x \<Rightarrow> Some x | _ \<Rightarrow> None)"

lemmas as_defs = as_image_def as_init_def as_kiosk_def as_health_def as_storage_def as_server_def
  as_app_def as_status_app_def as_status_server_def as_spec_def as_status_def as_workbench_def
  as_workbench_list_def as_apps_def as_status_apps_def as_strings_def as_workbenches_def
  as_quantity_def as_resources_def

section \<open>The libraries\<close>

record 'x library =
  lib_copy_quantity :: "'x \<Rightarrow> ('x cell, 'x) action"
  lib_copy_resources :: "'x \<Rightarrow> ('x cell, 'x) action"
  lib_copy_meta :: "'x \<Rightarrow> ('x cell, 'x) action"
  lib_copy_list_meta :: "'x \<Rightarrow> ('x cell, 'x) action"
  lib_quantity :: "'x cell memory \<Rightarrow> 'x \<Rightarrow> quantity option"
  lib_resources :: "'x cell memory \<Rightarrow> 'x \<Rightarrow> resources option"
  lib_meta :: "'x cell memory \<Rightarrow> 'x \<Rightarrow> object_meta option"
  lib_list_meta :: "'x cell memory \<Rightarrow> 'x \<Rightarrow> list_meta option"

definition library_laws :: "'x library \<Rightarrow> bool" where
  "library_laws lib \<longleftrightarrow>
     deep_copy (lib_quantity lib) (lib_copy_quantity lib) \<and>
     deep_copy (lib_resources lib) (lib_copy_resources lib) \<and>
     deep_copy (lib_meta lib) (lib_copy_meta lib) \<and>
     deep_copy (lib_list_meta lib) (lib_copy_list_meta lib)"

section \<open>The copies\<close>

text \<open>Structs without pointers.\<close>

definition Image_DeepCopyInto :: "image \<Rightarrow> ('x cell, image) action" where
  "Image_DeepCopyInto x = pure x"

definition Image_DeepCopy :: "addr option \<Rightarrow> ('x cell, addr option) action" where
  "Image_DeepCopy = copy_pointer ImageCell as_image ZeroCell Image_DeepCopyInto"

definition InitContainerConfig_DeepCopyInto :: "string \<Rightarrow> ('x cell, string) action" where
  "InitContainerConfig_DeepCopyInto x = pure x"

definition InitContainerConfig_DeepCopy :: "addr option \<Rightarrow> ('x cell, addr option) action" where
  "InitContainerConfig_DeepCopy = copy_pointer InitCell as_init ZeroCell InitContainerConfig_DeepCopyInto"

definition KioskConfig_DeepCopyInto :: "kiosk_config \<Rightarrow> ('x cell, kiosk_config) action" where
  "KioskConfig_DeepCopyInto x = pure x"

definition KioskConfig_DeepCopy :: "addr option \<Rightarrow> ('x cell, addr option) action" where
  "KioskConfig_DeepCopy = copy_pointer KioskCell as_kiosk ZeroCell KioskConfig_DeepCopyInto"

definition ServerPodHealth_DeepCopyInto :: "pod_health \<Rightarrow> ('x cell, pod_health) action" where
  "ServerPodHealth_DeepCopyInto x = pure x"

definition ServerPodHealth_DeepCopy :: "addr option \<Rightarrow> ('x cell, addr option) action" where
  "ServerPodHealth_DeepCopy = copy_pointer HealthCell as_health ZeroCell ServerPodHealth_DeepCopyInto"

definition StorageConfig_DeepCopyInto :: "storage_config \<Rightarrow> ('x cell, storage_config) action" where
  "StorageConfig_DeepCopyInto x = pure x"

definition StorageConfig_DeepCopy :: "addr option \<Rightarrow> ('x cell, addr option) action" where
  "StorageConfig_DeepCopy = copy_pointer StorageCell as_storage ZeroCell StorageConfig_DeepCopyInto"

definition WorkbenchServer_DeepCopyInto :: "server_spec \<Rightarrow> ('x cell, server_spec) action" where
  "WorkbenchServer_DeepCopyInto x = pure x"

definition WorkbenchServer_DeepCopy :: "addr option \<Rightarrow> ('x cell, addr option) action" where
  "WorkbenchServer_DeepCopy = copy_pointer ServerCell as_server ZeroCell WorkbenchServer_DeepCopyInto"

definition WorkbenchStatusApp_DeepCopyInto :: "app_entry \<Rightarrow> ('x cell, app_entry) action" where
  "WorkbenchStatusApp_DeepCopyInto x = pure x"

definition WorkbenchStatusApp_DeepCopy :: "addr option \<Rightarrow> ('x cell, addr option) action" where
  "WorkbenchStatusApp_DeepCopy = copy_pointer StatusAppCell as_status_app ZeroCell WorkbenchStatusApp_DeepCopyInto"

text \<open>Applications.\<close>

definition WorkbenchApp_DeepCopyInto :: "'x library \<Rightarrow> app_mem \<Rightarrow> ('x cell, app_mem) action" where
  "WorkbenchApp_DeepCopyInto lib x =
     chain (copy_pointer ImageCell as_image ZeroCell pure (am_image x)) (\<lambda>img.
     chain (copy_pointer QuantityCell as_quantity ZeroCell (lib_copy_quantity lib) (am_shm_size x)) (\<lambda>shm.
     chain (copy_pointer ResourcesCell as_resources ZeroCell (lib_copy_resources lib) (am_resources x)) (\<lambda>rs.
     chain (copy_pointer KioskCell as_kiosk ZeroCell pure (am_kiosk x)) (\<lambda>kiosk.
     pure (x\<lparr>am_image := img, am_shm_size := shm, am_resources := rs, am_kiosk := kiosk\<rparr>)))))"

definition WorkbenchApp_DeepCopy :: "'x library \<Rightarrow> addr option \<Rightarrow> ('x cell, addr option) action" where
  "WorkbenchApp_DeepCopy lib = copy_pointer AppCell as_app ZeroCell (WorkbenchApp_DeepCopyInto lib)"

text \<open>The body of the loop over the applications, \<open>*val.DeepCopy()\<close>: \<open>val\<close> is a variable of its own.\<close>

definition copied_app :: "'x library \<Rightarrow> app_mem \<Rightarrow> ('x cell, app_mem) action" where
  "copied_app lib val =
     chain (allocate (AppCell val)) (\<lambda>a.
     chain (WorkbenchApp_DeepCopy lib (Some a)) (\<lambda>p.
     case p of None \<Rightarrow> (\<lambda>_. None) | Some b \<Rightarrow> load as_app b))"

definition WorkbenchSpec_DeepCopyInto :: "'x library \<Rightarrow> spec_mem \<Rightarrow> ('x cell, spec_mem) action" where
  "WorkbenchSpec_DeepCopyInto lib x =
     chain (copy_pointer InitCell as_init ZeroCell pure (sm_init x)) (\<lambda>init.
     chain (copy_pointer AppsCell as_apps ZeroCell (copy_map (copied_app lib)) (sm_apps x)) (\<lambda>apps.
     chain (copy_slice StringsCell as_strings ZeroCell pure (sm_pull_secrets x)) (\<lambda>secrets.
     chain (copy_pointer StorageCell as_storage ZeroCell pure (sm_storage x)) (\<lambda>storage.
     pure (x\<lparr>sm_init := init, sm_apps := apps, sm_pull_secrets := secrets, sm_storage := storage\<rparr>)))))"

definition WorkbenchSpec_DeepCopy :: "'x library \<Rightarrow> addr option \<Rightarrow> ('x cell, addr option) action" where
  "WorkbenchSpec_DeepCopy lib = copy_pointer SpecCell as_spec ZeroCell (WorkbenchSpec_DeepCopyInto lib)"

text \<open>Status.\<close>

definition WorkbenchStatusServer_DeepCopyInto :: "server_mem \<Rightarrow> ('x cell, server_mem) action" where
  "WorkbenchStatusServer_DeepCopyInto x =
     chain (copy_pointer HealthCell as_health ZeroCell pure (svm_pod x)) (\<lambda>p. pure (x\<lparr>svm_pod := p\<rparr>))"

definition WorkbenchStatusServer_DeepCopy :: "addr option \<Rightarrow> ('x cell, addr option) action" where
  "WorkbenchStatusServer_DeepCopy =
     copy_pointer StatusServerCell as_status_server ZeroCell WorkbenchStatusServer_DeepCopyInto"

definition WorkbenchStatus_DeepCopyInto :: "status_mem \<Rightarrow> ('x cell, status_mem) action" where
  "WorkbenchStatus_DeepCopyInto x =
     chain (WorkbenchStatusServer_DeepCopyInto (stm_server x)) (\<lambda>server.
     chain (copy_pointer StatusAppsCell as_status_apps ZeroCell (copy_map pure) (stm_apps x)) (\<lambda>apps.
     pure (x\<lparr>stm_server := server, stm_apps := apps\<rparr>)))"

definition WorkbenchStatus_DeepCopy :: "addr option \<Rightarrow> ('x cell, addr option) action" where
  "WorkbenchStatus_DeepCopy = copy_pointer StatusCell as_status ZeroCell WorkbenchStatus_DeepCopyInto"

text \<open>The resource and lists of it.\<close>

definition Workbench_DeepCopyInto :: "'x library \<Rightarrow> 'x workbench_mem \<Rightarrow> ('x cell, 'x workbench_mem) action" where
  "Workbench_DeepCopyInto lib x =
     chain (lib_copy_meta lib (wm_meta x)) (\<lambda>meta.
     chain (WorkbenchSpec_DeepCopyInto lib (wm_spec x)) (\<lambda>spec.
     chain (WorkbenchStatus_DeepCopyInto (wm_status x)) (\<lambda>status.
     pure (x\<lparr>wm_meta := meta, wm_spec := spec, wm_status := status\<rparr>))))"

definition Workbench_DeepCopy :: "'x library \<Rightarrow> addr option \<Rightarrow> ('x cell, addr option) action" where
  "Workbench_DeepCopy lib = copy_pointer WorkbenchCell as_workbench ZeroCell (Workbench_DeepCopyInto lib)"

definition WorkbenchList_DeepCopyInto :: "'x library \<Rightarrow> 'x list_mem \<Rightarrow> ('x cell, 'x list_mem) action" where
  "WorkbenchList_DeepCopyInto lib x =
     chain (lib_copy_list_meta lib (wl_meta x)) (\<lambda>meta.
     chain (copy_slice WorkbenchesCell as_workbenches ZeroCell (Workbench_DeepCopyInto lib) (wl_items x)) (\<lambda>items.
     pure (x\<lparr>wl_meta := meta, wl_items := items\<rparr>)))"

definition WorkbenchList_DeepCopy :: "'x library \<Rightarrow> addr option \<Rightarrow> ('x cell, addr option) action" where
  "WorkbenchList_DeepCopy lib =
     copy_pointer WorkbenchListCell as_workbench_list ZeroCell (WorkbenchList_DeepCopyInto lib)"

text \<open>
  \<open>runtime.Object\<close>: an interface is \<open>nil\<close> (\<open>None\<close>) only when it holds no pointer at all, which
  the code sees to by returning \<open>nil\<close> itself rather than a \<open>nil\<close> pointer.
\<close>

datatype runtime_object = WorkbenchObject "addr option" | WorkbenchListObject "addr option"

definition Workbench_DeepCopyObject :: "'x library \<Rightarrow> addr option \<Rightarrow> ('x cell, runtime_object option) action" where
  "Workbench_DeepCopyObject lib p = chain (Workbench_DeepCopy lib p) (\<lambda>c.
     pure (if c \<noteq> None then Some (WorkbenchObject c) else None))"

definition WorkbenchList_DeepCopyObject :: "'x library \<Rightarrow> addr option \<Rightarrow> ('x cell, runtime_object option) action" where
  "WorkbenchList_DeepCopyObject lib p = chain (WorkbenchList_DeepCopy lib p) (\<lambda>c.
     pure (if c \<noteq> None then Some (WorkbenchListObject c) else None))"

text \<open>A call through the interface goes to the method of the type it holds.\<close>

definition DeepCopyObject :: "'x library \<Rightarrow> runtime_object \<Rightarrow> ('x cell, runtime_object option) action" where
  "DeepCopyObject lib ob = (case ob of
       WorkbenchObject p \<Rightarrow> Workbench_DeepCopyObject lib p
     | WorkbenchListObject p \<Rightarrow> WorkbenchList_DeepCopyObject lib p)"

section \<open>What the structs mean\<close>

definition read_app :: "'x library \<Rightarrow> 'x cell memory \<Rightarrow> app_mem \<Rightarrow> workbench_app option" where
  "read_app lib m x = do {
     img \<leftarrow> read_pointer as_image (read_flat id) m (am_image x);
     shm \<leftarrow> read_pointer as_quantity (lib_quantity lib) m (am_shm_size x);
     rs \<leftarrow> read_pointer as_resources (lib_resources lib) m (am_resources x);
     kiosk \<leftarrow> read_pointer as_kiosk (read_flat id) m (am_kiosk x);
     Some \<lparr>app_name = am_name x, app_version = am_version x, app_state = am_state x, app_image = img,
       app_shm_size = shm, app_resources = rs, app_kiosk = kiosk\<rparr>
   }"

text \<open>As on the wire, a missing map or slice means an empty one.\<close>

definition or_empty :: "'a list option \<Rightarrow> 'a list" where
  "or_empty l = (case l of None \<Rightarrow> [] | Some xs \<Rightarrow> xs)"

definition read_spec :: "'x library \<Rightarrow> 'x cell memory \<Rightarrow> spec_mem \<Rightarrow> workbench_spec option" where
  "read_spec lib m x = do {
     init \<leftarrow> read_pointer as_init (read_flat id) m (sm_init x);
     apps \<leftarrow> read_pointer as_apps (read_entries (read_app lib)) m (sm_apps x);
     secrets \<leftarrow> read_slice as_strings (read_flat id) m (sm_pull_secrets x);
     storage \<leftarrow> read_pointer as_storage (read_flat id) m (sm_storage x);
     Some \<lparr>ws_server = sm_server x, ws_init_version = init, ws_apps = or_empty apps,
       ws_service_account = sm_service_account x, ws_pull_secrets = or_empty secrets, ws_storage = storage\<rparr>
   }"

definition read_server :: "'x cell memory \<Rightarrow> server_mem \<Rightarrow> server_state option" where
  "read_server m x = do {
     health \<leftarrow> read_pointer as_health (read_flat id) m (svm_pod x);
     Some \<lparr>ss_revision = svm_revision x, ss_status = svm_status x, ss_pod = health\<rparr>
   }"

definition read_status :: "'x cell memory \<Rightarrow> status_mem \<Rightarrow> workbench_status option" where
  "read_status m x = do {
     server \<leftarrow> read_server m (stm_server x);
     apps \<leftarrow> read_pointer as_status_apps (read_entries (read_flat id)) m (stm_apps x);
     Some \<lparr>wst_server = server, wst_apps = or_empty apps\<rparr>
   }"

definition read_workbench :: "'x library \<Rightarrow> 'x cell memory \<Rightarrow> 'x workbench_mem \<Rightarrow> (type_meta \<times> workbench) option" where
  "read_workbench lib m x = do {
     meta \<leftarrow> lib_meta lib m (wm_meta x);
     spec \<leftarrow> read_spec lib m (wm_spec x);
     status \<leftarrow> read_status m (wm_status x);
     Some (wm_type x, \<lparr>wb_meta = meta, wb_spec = spec, wb_status = status\<rparr>)
   }"

definition read_list ::
  "'x library \<Rightarrow> 'x cell memory \<Rightarrow> 'x list_mem \<Rightarrow> (type_meta \<times> list_meta \<times> (type_meta \<times> workbench) list) option" where
  "read_list lib m x = do {
     meta \<leftarrow> lib_list_meta lib m (wl_meta x);
     items \<leftarrow> read_slice as_workbenches (read_workbench lib) m (wl_items x);
     Some (wl_type x, meta, or_empty items)
   }"

type_synonym object_value = "(type_meta \<times> workbench) + (type_meta \<times> list_meta \<times> (type_meta \<times> workbench) list)"

definition read_object :: "'x library \<Rightarrow> 'x cell memory \<Rightarrow> runtime_object \<Rightarrow> object_value option" where
  "read_object lib m ob = (case ob of
       WorkbenchObject (Some a) \<Rightarrow> map_option Inl (read_cell as_workbench (read_workbench lib) m a)
     | WorkbenchListObject (Some a) \<Rightarrow> map_option Inr (read_cell as_workbench_list (read_list lib) m a)
     | _ \<Rightarrow> None)"

section \<open>Every copy is deep\<close>

lemma as_cell [simp]:
  "as_image (ImageCell i) = Some i" "as_init (InitCell s) = Some s" "as_kiosk (KioskCell k) = Some k"
  "as_health (HealthCell h) = Some h" "as_storage (StorageCell g) = Some g" "as_server (ServerCell v) = Some v"
  "as_app (AppCell a) = Some a" "as_status_app (StatusAppCell e) = Some e"
  "as_status_server (StatusServerCell r) = Some r" "as_spec (SpecCell p) = Some p"
  "as_status (StatusCell t) = Some t" "as_workbench (WorkbenchCell w) = Some w"
  "as_workbench_list (WorkbenchListCell l) = Some l" "as_apps (AppsCell es) = Some es"
  "as_status_apps (StatusAppsCell us) = Some us" "as_strings (StringsCell ss) = Some ss"
  "as_workbenches (WorkbenchesCell ws) = Some ws" "as_quantity (QuantityCell q) = Some q"
  "as_resources (ResourcesCell z) = Some z"
  by (simp_all add: as_defs)

lemmas read_copy_defs = read_both_def copy_both_def option.map_comp

text \<open>Structs one level up are built from the copies of their fields.\<close>

lemma app_deep_copy:
  assumes "library_laws lib"
  shows "deep_copy (read_app lib) (WorkbenchApp_DeepCopyInto lib)"
proof -
  have "deep_copy
      (read_both (read_pointer as_image (read_flat id)) (read_both (read_pointer as_quantity (lib_quantity lib))
        (read_both (read_pointer as_resources (lib_resources lib)) (read_pointer as_kiosk (read_flat id)))))
      (copy_both (copy_pointer ImageCell as_image ZeroCell pure) (copy_both
        (copy_pointer QuantityCell as_quantity ZeroCell (lib_copy_quantity lib)) (copy_both
        (copy_pointer ResourcesCell as_resources ZeroCell (lib_copy_resources lib))
        (copy_pointer KioskCell as_kiosk ZeroCell pure))))"
    using assms unfolding library_laws_def
    by (intro both_deep_copy deep_copy.pointer_deep_copy flat_deep_copy) simp_all
  then show ?thesis
    by (rule struct_deep_copy [where part = "\<lambda>x. (am_image x, am_shm_size x, am_resources x, am_kiosk x)"
          and build = "\<lambda>x (i, q, r, k). x\<lparr>am_image := i, am_shm_size := q, am_resources := r, am_kiosk := k\<rparr>"
          and meaning = "\<lambda>x (i, q, r, k). \<lparr>app_name = am_name x, app_version = am_version x,
            app_state = am_state x, app_image = i, app_shm_size = q, app_resources = r, app_kiosk = k\<rparr>"])
      (auto simp: read_app_def WorkbenchApp_DeepCopyInto_def read_both_def copy_both_def
        split: Option.bind_splits option.splits)
qed

lemma copied_app_deep_copy:
  assumes "library_laws lib"
  shows "deep_copy (read_app lib) (copied_app lib)"
proof
  note app = app_deep_copy [OF assms]
  show "read_app lib m x = Some v \<Longrightarrow> m \<subseteq>\<^sub>m m' \<Longrightarrow> read_app lib m' x = Some v" for m m' x v
    by (rule deep_copy.reads_mono [OF app])
  fix st x v assume x: "read_app lib (cells st) x = Some v"
  let ?s = "st @ [AppCell x]"
  have s: "prefix st ?s" by simp
  have "read_app lib (cells ?s) x = Some v"
    using deep_copy.reads_mono [OF app x cells_mono [OF s]] .
  then have "read_pointer as_app (read_app lib) (cells ?s) (Some (length st)) = Some (Some v)"
    by (simp add: read_pointer_def read_cell_def cells_def)
  then have copy: "delivers st ?s (WorkbenchApp_DeepCopy lib (Some (length st)))
      (\<lambda>q m. read_pointer as_app (read_app lib) m q = Some (Some v))"
    unfolding WorkbenchApp_DeepCopy_def
    by (intro deep_copy.delivers_copy [OF deep_copy.pointer_deep_copy [OF app]] s) simp_all
  have "delivers st ?s (chain (WorkbenchApp_DeepCopy lib (Some (length st)))
      (\<lambda>p. case p of None \<Rightarrow> (\<lambda>_. None) | Some b \<Rightarrow> load as_app b)) (\<lambda>y m. read_app lib m y = Some v)"
  proof (rule delivers_chain [OF copy])
    fix q st' assume "read_pointer as_app (read_app lib) (new_cells st st') q = Some (Some v)"
    then obtain b c y where b: "q = Some b" "new_cells st st' b = Some c" "as_app c = Some y"
      "read_app lib (new_cells st st') y = Some v"
      unfolding read_pointer_Some read_cell_Some by blast
    then show "delivers st st' (case q of None \<Rightarrow> (\<lambda>_. None) | Some b \<Rightarrow> load as_app b)
        (\<lambda>y m. read_app lib m y = Some v)"
      using map_leD [OF b(2) new_cells_le] by (simp add: delivers_load)
  qed
  then show "delivers st st (copied_app lib x) (\<lambda>y m. read_app lib m y = Some v)"
    by (simp add: copied_app_def delivers_def chain_def [of "allocate _"] allocate_def prefix_def)
       (blast)
qed

lemma spec_deep_copy:
  assumes "library_laws lib"
  shows "deep_copy (read_spec lib) (WorkbenchSpec_DeepCopyInto lib)"
proof -
  have "deep_copy
      (read_both (read_pointer as_init (read_flat id)) (read_both (read_pointer as_apps (read_entries (read_app lib)))
        (read_both (read_slice as_strings (read_flat id)) (read_pointer as_storage (read_flat id)))))
      (copy_both (copy_pointer InitCell as_init ZeroCell pure) (copy_both
        (copy_pointer AppsCell as_apps ZeroCell (copy_map (copied_app lib))) (copy_both
        (copy_slice StringsCell as_strings ZeroCell pure)
        (copy_pointer StorageCell as_storage ZeroCell pure))))"
    by (intro both_deep_copy deep_copy.pointer_deep_copy deep_copy.slice_deep_copy flat_deep_copy
        deep_copy.map_deep_copy copied_app_deep_copy [OF assms]) simp_all
  then show ?thesis
    by (rule struct_deep_copy [where part = "\<lambda>x. (sm_init x, sm_apps x, sm_pull_secrets x, sm_storage x)"
          and build = "\<lambda>x (i, a, p, g). x\<lparr>sm_init := i, sm_apps := a, sm_pull_secrets := p, sm_storage := g\<rparr>"
          and meaning = "\<lambda>x (i, a, p, g). \<lparr>ws_server = sm_server x, ws_init_version = i, ws_apps = or_empty a,
            ws_service_account = sm_service_account x, ws_pull_secrets = or_empty p, ws_storage = g\<rparr>"])
      (auto simp: read_spec_def WorkbenchSpec_DeepCopyInto_def read_both_def copy_both_def
        split: Option.bind_splits option.splits)
qed

lemma server_deep_copy: "deep_copy read_server WorkbenchStatusServer_DeepCopyInto"
proof -
  have "deep_copy (read_pointer as_health (read_flat id)) (copy_pointer HealthCell as_health ZeroCell pure)"
    by (intro deep_copy.pointer_deep_copy flat_deep_copy) simp
  then show ?thesis
    by (rule struct_deep_copy [where part = svm_pod and build = "\<lambda>x p. x\<lparr>svm_pod := p\<rparr>"
          and meaning = "\<lambda>x p. \<lparr>ss_revision = svm_revision x, ss_status = svm_status x, ss_pod = p\<rparr>"])
      (auto simp: read_server_def WorkbenchStatusServer_DeepCopyInto_def split: Option.bind_splits)
qed

lemma status_deep_copy: "deep_copy read_status WorkbenchStatus_DeepCopyInto"
proof -
  have "deep_copy (read_both read_server (read_pointer as_status_apps (read_entries (read_flat id))))
      (copy_both WorkbenchStatusServer_DeepCopyInto (copy_pointer StatusAppsCell as_status_apps ZeroCell (copy_map pure)))"
    by (intro both_deep_copy deep_copy.pointer_deep_copy flat_deep_copy deep_copy.map_deep_copy server_deep_copy) simp
  then show ?thesis
    by (rule struct_deep_copy [where part = "\<lambda>x. (stm_server x, stm_apps x)"
          and build = "\<lambda>x (s, a). x\<lparr>stm_server := s, stm_apps := a\<rparr>"
          and meaning = "\<lambda>x (s, a). \<lparr>wst_server = s, wst_apps = or_empty a\<rparr>"])
      (auto simp: read_status_def WorkbenchStatus_DeepCopyInto_def read_both_def copy_both_def
        split: Option.bind_splits option.splits)
qed

lemma workbench_deep_copy:
  assumes "library_laws lib"
  shows "deep_copy (read_workbench lib) (Workbench_DeepCopyInto lib)"
proof -
  have "deep_copy (read_both (lib_meta lib) (read_both (read_spec lib) read_status))
      (copy_both (lib_copy_meta lib) (copy_both (WorkbenchSpec_DeepCopyInto lib) WorkbenchStatus_DeepCopyInto))"
    using assms unfolding library_laws_def
    by (intro both_deep_copy spec_deep_copy [OF assms] status_deep_copy) simp
  then show ?thesis
    by (rule struct_deep_copy [where part = "\<lambda>x. (wm_meta x, wm_spec x, wm_status x)"
          and build = "\<lambda>x (m, s, t). x\<lparr>wm_meta := m, wm_spec := s, wm_status := t\<rparr>"
          and meaning = "\<lambda>x (m, s, t). (wm_type x, \<lparr>wb_meta = m, wb_spec = s, wb_status = t\<rparr>)"])
      (auto simp: read_workbench_def Workbench_DeepCopyInto_def read_both_def copy_both_def
        split: Option.bind_splits option.splits)
qed

lemma list_deep_copy:
  assumes "library_laws lib"
  shows "deep_copy (read_list lib) (WorkbenchList_DeepCopyInto lib)"
proof -
  have "deep_copy (read_both (lib_list_meta lib) (read_slice as_workbenches (read_workbench lib)))
      (copy_both (lib_copy_list_meta lib) (copy_slice WorkbenchesCell as_workbenches ZeroCell (Workbench_DeepCopyInto lib)))"
    using assms unfolding library_laws_def
    by (intro both_deep_copy deep_copy.slice_deep_copy workbench_deep_copy [OF assms]) simp_all
  then show ?thesis
    by (rule struct_deep_copy [where part = "\<lambda>x. (wl_meta x, wl_items x)"
          and build = "\<lambda>x (m, s). x\<lparr>wl_meta := m, wl_items := s\<rparr>"
          and meaning = "\<lambda>x (m, s). (wl_type x, m, or_empty s)"])
      (auto simp: read_list_def WorkbenchList_DeepCopyInto_def read_both_def copy_both_def
        split: Option.bind_splits option.splits)
qed

text \<open>The exported functions on pointers.\<close>

lemma Workbench_DeepCopy_deep:
  "library_laws lib \<Longrightarrow>
   deep_copy (read_pointer as_workbench (read_workbench lib)) (Workbench_DeepCopy lib)"
  unfolding Workbench_DeepCopy_def by (intro deep_copy.pointer_deep_copy workbench_deep_copy) simp_all

lemma WorkbenchList_DeepCopy_deep:
  "library_laws lib \<Longrightarrow>
   deep_copy (read_pointer as_workbench_list (read_list lib)) (WorkbenchList_DeepCopy lib)"
  unfolding WorkbenchList_DeepCopy_def by (intro deep_copy.pointer_deep_copy list_deep_copy) simp_all

interpretation image_copy: deep_copy "read_pointer as_image (read_flat id)" Image_DeepCopy
  unfolding Image_DeepCopy_def Image_DeepCopyInto_def [abs_def]
  by (intro deep_copy.pointer_deep_copy flat_deep_copy) simp

interpretation status_copy: deep_copy "read_pointer as_status read_status" WorkbenchStatus_DeepCopy
  unfolding WorkbenchStatus_DeepCopy_def by (intro deep_copy.pointer_deep_copy status_deep_copy) simp

lemma nil_object_copies: "DeepCopyObject lib (WorkbenchObject None) st = Some (None, st)"
  by (simp add: DeepCopyObject_def Workbench_DeepCopyObject_def Workbench_DeepCopy_def copy_pointer_def)
    (simp add: pure_def)

lemma copied_pointer:
  assumes "deep_copy (read_pointer view rd) cp" "read_cell view rd (cells st) a = Some u"
  shows "\<exists>b st'. cp (Some a) st = Some (Some b, st') \<and> cells st \<subseteq>\<^sub>m cells st' \<and>
    (\<forall>m. cells st \<subseteq>\<^sub>m m \<longrightarrow> read_cell view rd m a = Some u) \<and>
    (\<forall>m. new_cells st st' \<subseteq>\<^sub>m m \<longrightarrow> read_cell view rd m b = Some u)"
proof -
  have "read_pointer view rd (cells st) (Some a) = Some (Some u)" using assms(2) by (simp add: read_pointer_def)
  from deep_copy.copy_independent [OF assms(1) this]
  obtain q st' where q: "cp (Some a) st = Some (q, st')" "cells st \<subseteq>\<^sub>m cells st'"
    "\<And>m. cells st \<subseteq>\<^sub>m m \<Longrightarrow> read_pointer view rd m (Some a) = Some (Some u)"
    "\<And>m. new_cells st st' \<subseteq>\<^sub>m m \<Longrightarrow> read_pointer view rd m q = Some (Some u)"
    by blast
  obtain b where "q = Some b" using q(4) [OF map_le_refl] by (auto simp: read_pointer_Some)
  with q show ?thesis by (auto simp: read_pointer_def)
qed

section \<open>Library structs of a small heap\<close>

text \<open>
  One library that meets the laws: object metadata with its labels behind a pointer, and
  quantities, requirements and list metadata without pointers.
\<close>

datatype sample_struct =
    NamedStruct string string "addr option"
  | LabelsStruct "string gomap"
  | QuantityStruct quantity
  | ResourcesStruct resources
  | ListStruct list_meta

definition as_library where "as_library c = (case c of LibraryCell x \<Rightarrow> Some x | _ \<Rightarrow> None)"
definition labels_of where "labels_of x = (case x of LabelsStruct ls \<Rightarrow> Some ls | _ \<Rightarrow> None)"

definition copy_named :: "sample_struct \<Rightarrow> (sample_struct cell, sample_struct) action" where
  "copy_named x = (case x of
       NamedStruct n ns p \<Rightarrow>
         chain (copy_pointer LibraryCell as_library ZeroCell pure p) (\<lambda>q. pure (NamedStruct n ns q))
     | _ \<Rightarrow> pure x)"

definition read_named :: "sample_struct cell memory \<Rightarrow> sample_struct \<Rightarrow> object_meta option" where
  "read_named m x = (case x of
       NamedStruct n ns p \<Rightarrow> map_option (\<lambda>ls. new_meta n ns (or_empty ls))
         (read_pointer as_library (read_by labels_of) m p)
     | _ \<Rightarrow> None)"

definition sample_library :: "sample_struct library" where
  "sample_library =
     \<lparr>lib_copy_quantity = pure, lib_copy_resources = pure, lib_copy_meta = copy_named, lib_copy_list_meta = pure,
      lib_quantity = read_by (\<lambda>x. case x of QuantityStruct q \<Rightarrow> Some q | _ \<Rightarrow> None),
      lib_resources = read_by (\<lambda>x. case x of ResourcesStruct q \<Rightarrow> Some q | _ \<Rightarrow> None),
      lib_meta = read_named,
      lib_list_meta = read_by (\<lambda>x. case x of ListStruct l \<Rightarrow> Some l | _ \<Rightarrow> None)\<rparr>"

lemma named_deep_copy: "deep_copy read_named copy_named"
proof -
  have p: "deep_copy (read_pointer as_library (read_by labels_of)) (copy_pointer LibraryCell as_library ZeroCell pure)"
    by (intro deep_copy.pointer_deep_copy assigned_deep_copy) (simp add: as_library_def)
  show ?thesis
  proof
    show "read_named m x = Some v \<Longrightarrow> m \<subseteq>\<^sub>m m' \<Longrightarrow> read_named m' x = Some v" for m m' x v
      by (cases x) (auto simp: read_named_def dest: deep_copy.reads_mono [OF p])
    show "read_named (cells st) x = Some v \<Longrightarrow> delivers st st (copy_named x) (\<lambda>y m. read_named m y = Some v)" for st x v
      by (cases x) (auto simp: read_named_def copy_named_def intro!: delivers_chain [OF deep_copy.copies [OF p]] delivers_pure)
  qed
qed

lemma sample_library_laws: "library_laws sample_library"
  unfolding library_laws_def sample_library_def by (simp add: assigned_deep_copy named_deep_copy)

text \<open>A memory with a workbench that has an application with an image, shared memory and a kiosk.\<close>

definition sample_memory :: "sample_struct cell store" where
  "sample_memory =
     [ImageCell \<lparr>img_registry = ''r'', img_repository = ''apps/kitty'', img_tag = ''1''\<rparr>,
      QuantityCell (QuantityStruct (Quantity ''1Gi'')),
      KioskCell \<lparr>kc_url = ''u'', kc_jwt_url = [], kc_jwt_token = []\<rparr>,
      AppsCell [(''1'', \<lparr>am_name = ''kitty'', am_version = [], am_state = AppRunning, am_image = Some 0,
        am_shm_size = Some 1, am_resources = None, am_kiosk = Some 2\<rparr>)],
      StringsCell [''unused'', ''secret''],
      LibraryCell (LabelsStruct [(''a'', ''b'')]),
      StatusAppsCell [(''1'', \<lparr>ae_revision = -1, ae_status = AppProgressing\<rparr>)],
      WorkbenchesCell
        [\<lparr>wm_type = \<lparr>tm_kind = ''Workbench'', tm_api_version = ''default.chorus-tre.ch/v1alpha1''\<rparr>,
          wm_meta = NamedStruct ''wb'' ''ns1'' (Some 5),
          wm_spec = \<lparr>sm_server = \<lparr>srv_version = [], srv_width = 0, srv_height = 0, srv_user = ''jane'', srv_user_id = 1001\<rparr>,
            sm_init = None, sm_apps = Some 3, sm_service_account = ''default'', sm_pull_secrets = Some (4, 1, 1), sm_storage = None\<rparr>,
          wm_status = \<lparr>stm_server = \<lparr>svm_revision = -1, svm_status = ServerProgressing, svm_pod = None\<rparr>, stm_apps = Some 6\<rparr>\<rparr>],
      WorkbenchListCell
        \<lparr>wl_type = \<lparr>tm_kind = ''WorkbenchList'', tm_api_version = ''default.chorus-tre.ch/v1alpha1''\<rparr>,
         wl_meta = ListStruct \<lparr>lm_resource_version = ''7'', lm_continue = []\<rparr>, wl_items = Some (7, 0, 1)\<rparr>]"

section \<open>The property\<close>

text \<open>C35: The deep copy of a workbench or of a list of workbenches means what the original means
  and shares no memory with it: it changes no cell that existed, whatever is written to newer cells
  leaves the original as it is, and whatever is written to older cells leaves the copy as it is.\<close>

theorem deep_copy_independent:
  assumes "library_laws lib" "read_object lib (cells st) ob = Some v"
  shows "\<exists>ob' st'. DeepCopyObject lib ob st = Some (Some ob', st') \<and> cells st \<subseteq>\<^sub>m cells st' \<and>
    (\<forall>m. cells st \<subseteq>\<^sub>m m \<longrightarrow> read_object lib m ob = Some v) \<and>
    (\<forall>m. new_cells st st' \<subseteq>\<^sub>m m \<longrightarrow> read_object lib m ob' = Some v)"
proof (cases ob)
  case (WorkbenchObject p)
  then obtain a u where a: "p = Some a" "v = Inl u" "read_cell as_workbench (read_workbench lib) (cells st) a = Some u"
    using assms(2) by (auto simp: read_object_def split: option.splits)
  from copied_pointer [OF Workbench_DeepCopy_deep [OF assms(1)] a(3)] show ?thesis
    by (fastforce simp: WorkbenchObject a DeepCopyObject_def Workbench_DeepCopyObject_def chain_def pure_def read_object_def)
next
  case (WorkbenchListObject p)
  then obtain a u where a: "p = Some a" "v = Inr u" "read_cell as_workbench_list (read_list lib) (cells st) a = Some u"
    using assms(2) by (auto simp: read_object_def split: option.splits)
  from copied_pointer [OF WorkbenchList_DeepCopy_deep [OF assms(1)] a(3)] show ?thesis
    by (fastforce simp: WorkbenchListObject a DeepCopyObject_def WorkbenchList_DeepCopyObject_def chain_def pure_def read_object_def)
qed

theorem deep_copy_independent_witness:
  "\<exists>v ob' st'. read_object sample_library (cells sample_memory) (WorkbenchListObject (Some 8)) = Some v \<and>
     DeepCopyObject sample_library (WorkbenchListObject (Some 8)) sample_memory = Some (Some ob', st') \<and>
     read_object sample_library (new_cells sample_memory st') ob' = Some v"
proof -
  have "read_object sample_library (cells sample_memory) (WorkbenchListObject (Some 8)) \<noteq> None" by code_simp
  then obtain v where v: "read_object sample_library (cells sample_memory) (WorkbenchListObject (Some 8)) = Some v"
    by blast
  then show ?thesis using deep_copy_independent [OF sample_library_laws v] by (meson map_le_refl)
qed

end
