(* ===== verification/Xpra_Service.thy ===== *)
theory Xpra_Service
  imports K8s_Client
begin

text \<open>\<open>internal/controller/service.go\<close>: the service in front of the Xpra server.\<close>

definition initService :: "workbench \<Rightarrow> service" where
  "initService w =
     (let labels = [(matchingLabel, wb_name w)]
      in \<lparr>svc_meta = new_meta (wb_name w) (wb_namespace w) labels,
          svc_selector = labels,
          svc_ports =
            [\<lparr>spt_name = ''http'', spt_protocol = ''TCP'', spt_port = 8080,
              spt_target = FromString ''http''\<rparr>,
             \<lparr>spt_name = ''x11-socket'', spt_protocol = ''TCP'', spt_port = 6080,
              spt_target = FromInt 6080\<rparr>],
          svc_type = ''ClusterIP''\<rparr>)"

definition createService :: "'w reconciler \<Rightarrow> service \<Rightarrow> ('w, go_error + unit) prog" where
  "createService r svc = do {
     g \<leftarrow> GetService r (key (om_name (svc_meta svc)) (om_namespace (svc_meta svc)));
     case g of
       Inl e \<Rightarrow>
         if \<not> IsNotFound e then State_Monad.return (Inl (ApiFailure e))
         else do {
           c \<leftarrow> CreateService r svc;
           case c of
             Inl e' \<Rightarrow> State_Monad.return (Inl (ApiFailure e'))
           | Inr _ \<Rightarrow> State_Monad.return (Inr ())
         }
     | Inr _ \<Rightarrow> State_Monad.return (Inr ())
   }"

end
