(* ===== verification/Status_Updates.thy ===== *)
theory Status_Updates
  imports Workbench_Types
begin

text \<open>
  The methods of \<open>api/v1alpha1/workbench.go\<close> that copy what the operator observes into the
  status of a workbench. A Go method on a pointer receiver that returns whether it changed
  something becomes a function from the workbench to the flag and the new workbench. The
  locale \<open>status_setter\<close> is what the reconciler relies on when it calls them: they leave
  metadata and specification alone, a \<open>False\<close> flag means nothing changed, and applying the same
  observation again changes nothing; \<open>precise_setter\<close> adds that a \<open>True\<close> flag means a change.
\<close>

section \<open>The contract\<close>

locale status_setter =
  fixes upd :: "'e \<Rightarrow> workbench \<Rightarrow> bool \<times> workbench"
  assumes frame: "same_spec w (snd (upd e w))"
    and quiet: "\<not> fst (upd e w) \<Longrightarrow> snd (upd e w) = w"
    and stable: "snd (upd e (snd (upd e w))) = snd (upd e w)"
begin

lemma changes_are_reported: "snd (upd e w) \<noteq> w \<Longrightarrow> fst (upd e w)"
  using quiet by blast

lemma fold_frame: "same_spec w (fold (\<lambda>e w. snd (upd e w)) es w)"
proof (induction es arbitrary: w)
  case (Cons e es)
  show ?case using same_spec_trans [OF frame Cons.IH] by simp
qed simp

lemma iterate_once: "((\<lambda>w. snd (upd e w)) ^^ Suc n) w = snd (upd e w)"
  by (induction n) (simp_all add: stable)

end

locale precise_setter = status_setter +
  assumes loud: "fst (upd e w) \<Longrightarrow> snd (upd e w) \<noteq> w"
begin

lemma flag_iff_changed: "fst (upd e w) \<longleftrightarrow> snd (upd e w) \<noteq> w"
  using loud quiet by blast

text \<open>The second of two equal observations is silent: no status write is repeated.\<close>

lemma settles: "\<not> fst (upd e (snd (upd e w)))"
  by (simp add: flag_iff_changed stable)

end

section \<open>The server deployment\<close>

abbreviation set_server :: "workbench \<Rightarrow> server_state \<Rightarrow> workbench" where
  "set_server w s \<equiv> w\<lparr>wb_status := (wb_status w)\<lparr>wst_server := s\<rparr>\<rparr>"

definition revision_of :: "deployment \<Rightarrow> int" where
  "revision_of d =
     (let revisionString =
        (case map_get (om_annotations (dep_meta d)) ''deployment.kubernetes.io/revision'' of
           None \<Rightarrow> ''-1'' | Some s \<Rightarrow> s)
      in case Atoi revisionString of None \<Rightarrow> -1 | Some i \<Rightarrow> i)"

definition condition_status :: "deployment_condition \<Rightarrow> server_status" where
  "condition_status c =
     (if dc_type c = ''Available'' then ServerRunning
      else if dc_type c = ''Progressing'' then
        (if dc_status c \<noteq> ''True'' then ServerFailed
         else if dc_reason c = ''NewReplicaSetAvailable'' then ServerRunning
         else ServerProgressing)
      else if dc_type c = ''ReplicaFailure'' then zero_server_status
      else ServerFailed)"

text \<open>Go's \<open>switch\<close> does not fall through: \<open>case "ReplicaFailure":\<close> leaves the zero value.\<close>

definition UpdateStatusFromDeployment :: "deployment \<Rightarrow> workbench \<Rightarrow> bool \<times> workbench" where
  "UpdateStatusFromDeployment d w =
     (let revision = revision_of d;
          updated = (revision \<noteq> ss_revision (wb_server w));
          w1 = (if updated then set_server w ((wb_server w)\<lparr>ss_revision := revision\<rparr>) else w)
      in case dep_conditions d of
           [] \<Rightarrow> (True, set_server w1 ((wb_server w1)\<lparr>ss_status := ServerProgressing\<rparr>))
         | c # _ \<Rightarrow>
             let status = condition_status c in
             if status \<noteq> ss_status (wb_server w1)
             then (True, set_server w1 ((wb_server w1)\<lparr>ss_status := status\<rparr>))
             else (updated, w1))"

section \<open>The applications\<close>

abbreviation set_apps :: "workbench \<Rightarrow> app_entry gomap \<Rightarrow> workbench" where
  "set_apps w m \<equiv> w\<lparr>wb_status := (wb_status w)\<lparr>wst_apps := m\<rparr>\<rparr>"

definition job_app_status :: "job \<Rightarrow> app_status" where
  "job_app_status j =
     (if job_active j = 1 then
        (case job_ready j of
           Some n \<Rightarrow> if 1 \<le> n then AppRunningStatus else AppProgressing
         | None \<Rightarrow> AppProgressing)
      else if 1 \<le> job_succeeded j then AppComplete
      else AppFailed)"

definition UpdateStatusFromJob :: "string \<times> job \<Rightarrow> workbench \<Rightarrow> bool \<times> workbench" where
  "UpdateStatusFromJob = (\<lambda>(uid, j) w.
     let w1 = (if map_get (wb_apps w) uid = None
               then set_apps w (map_put uid \<lparr>ae_revision = -1, ae_status = AppUnknown\<rparr> (wb_app_entries w))
               else w);
         app = (case map_get (wb_app_entries w1) uid of None \<Rightarrow> zero_app_entry | Some a \<Rightarrow> a);
         status = job_app_status j
     in if status \<noteq> ae_status app
        then (True, set_apps w1 (map_put uid (app\<lparr>ae_status := status\<rparr>) (wb_app_entries w1)))
        else (False, w1))"

definition SetAppStatusFailed :: "string \<Rightarrow> workbench \<Rightarrow> bool \<times> workbench" where
  "SetAppStatusFailed uid w =
     (let app = (case map_get (wb_app_entries w) uid of
                   None \<Rightarrow> \<lparr>ae_revision = -1, ae_status = zero_app_status\<rparr> | Some a \<Rightarrow> a)
      in if ae_status app \<noteq> AppFailed
         then (True, set_apps w (map_put uid (app\<lparr>ae_status := AppFailed\<rparr>) (wb_app_entries w)))
         else (False, w))"

section \<open>Characteristic facts\<close>

lemma UpdateStatusFromDeployment_effect:
  "snd (UpdateStatusFromDeployment d w) =
     set_server w ((wb_server w)\<lparr>ss_revision := revision_of d,
       ss_status := (case dep_conditions d of [] \<Rightarrow> ServerProgressing | c # _ \<Rightarrow> condition_status c)\<rparr>)"
  by (auto simp: UpdateStatusFromDeployment_def Let_def split: list.splits)

lemma UpdateStatusFromDeployment_flag:
  "fst (UpdateStatusFromDeployment d w) \<longleftrightarrow>
     dep_conditions d = [] \<or> snd (UpdateStatusFromDeployment d w) \<noteq> w"
  by (cases w; cases "wb_status w"; cases "wb_server w")
     (auto simp: UpdateStatusFromDeployment_def Let_def split: list.splits)

lemma revision_of_annotation:
  "revision_of d =
     (case map_get (om_annotations (dep_meta d)) ''deployment.kubernetes.io/revision'' of
        None \<Rightarrow> -1 | Some s \<Rightarrow> (case Atoi s of None \<Rightarrow> -1 | Some i \<Rightarrow> i))"
proof -
  have "Atoi ''-1'' = Some (-1)" by code_simp
  then show ?thesis by (simp add: revision_of_def split: option.split)
qed

lemma revision_of_int64: "int64_ok (revision_of d)"
  by (auto simp: revision_of_def Let_def int64_ok_def split: option.splits
      dest!: Atoi_range)

lemma job_app_status_valid [simp]: "app_status_valid (job_app_status j)"
  by (simp add: app_status_valid_def job_app_status_def split: option.splits)

lemma job_app_status_not_unknown [simp]: "job_app_status j \<noteq> AppUnknown"
  by (simp add: job_app_status_def split: option.splits)

lemma job_app_status_not_zero [simp]: "job_app_status j \<noteq> zero_app_status"
  by (simp add: zero_app_status_def job_app_status_def split: option.splits)

text \<open>Entry of an application after a job was observed: its status, and which revision.\<close>

lemma UpdateStatusFromJob_entry:
  "map_get (wb_app_entries (snd (UpdateStatusFromJob (uid, j) w))) uid =
     Some \<lparr>ae_revision = (case map_get (wb_apps w) uid of
                            None \<Rightarrow> -1
                          | Some _ \<Rightarrow> (case map_get (wb_app_entries w) uid of
                                         None \<Rightarrow> 0 | Some e \<Rightarrow> ae_revision e)),
           ae_status = job_app_status j\<rparr>"
  by (cases "map_get (wb_app_entries w) uid")
     (auto simp: UpdateStatusFromJob_def Let_def zero_app_entry_def split: option.splits)

lemma UpdateStatusFromJob_other:
  "uid' \<noteq> uid \<Longrightarrow>
   map_get (wb_app_entries (snd (UpdateStatusFromJob (uid, j) w))) uid' = map_get (wb_app_entries w) uid'"
  by (simp add: UpdateStatusFromJob_def Let_def)

lemma UpdateStatusFromJob_frame:
  "same_spec w (snd (UpdateStatusFromJob e w))"
  "wb_server (snd (UpdateStatusFromJob e w)) = wb_server w"
  by (simp_all add: UpdateStatusFromJob_def same_spec_def Let_def split: prod.splits)

lemma SetAppStatusFailed_entry:
  "map_get (wb_app_entries (snd (SetAppStatusFailed uid w))) uid =
     Some \<lparr>ae_revision = (case map_get (wb_app_entries w) uid of None \<Rightarrow> -1 | Some e \<Rightarrow> ae_revision e),
           ae_status = AppFailed\<rparr>"
  by (cases "map_get (wb_app_entries w) uid")
     (auto simp: SetAppStatusFailed_def Let_def zero_app_status_def)

section \<open>The methods meet the contract\<close>

interpretation deployment_status: status_setter UpdateStatusFromDeployment
proof
  show "same_spec w (snd (UpdateStatusFromDeployment d w))" for w d
    by (simp add: UpdateStatusFromDeployment_effect same_spec_def)
  show "\<not> fst (UpdateStatusFromDeployment d w) \<Longrightarrow> snd (UpdateStatusFromDeployment d w) = w" for w d
    by (simp add: UpdateStatusFromDeployment_flag)
  show "snd (UpdateStatusFromDeployment d (snd (UpdateStatusFromDeployment d w))) =
      snd (UpdateStatusFromDeployment d w)" for w d
    by (simp add: UpdateStatusFromDeployment_effect)
qed

interpretation failed_status: precise_setter SetAppStatusFailed
proof
  show "same_spec w (snd (SetAppStatusFailed u w))" for w u
    by (simp add: SetAppStatusFailed_def same_spec_def Let_def)
  show "\<not> fst (SetAppStatusFailed u w) \<Longrightarrow> snd (SetAppStatusFailed u w) = w" for w u
    by (simp add: SetAppStatusFailed_def Let_def split: if_splits)
  show "snd (SetAppStatusFailed u (snd (SetAppStatusFailed u w))) = snd (SetAppStatusFailed u w)" for w u
    by (subst SetAppStatusFailed_def) (simp add: SetAppStatusFailed_entry Let_def)
  show "fst (SetAppStatusFailed u w) \<Longrightarrow> snd (SetAppStatusFailed u w) \<noteq> w" for w u
  proof
    assume flag: "fst (SetAppStatusFailed u w)" and eq: "snd (SetAppStatusFailed u w) = w"
    obtain n where "map_get (wb_app_entries w) u = Some \<lparr>ae_revision = n, ae_status = AppFailed\<rparr>"
      using SetAppStatusFailed_entry [of u w] unfolding eq by blast
    with flag show False by (simp add: SetAppStatusFailed_def)
  qed
qed

interpretation job_status: status_setter UpdateStatusFromJob
proof
  show "same_spec w (snd (UpdateStatusFromJob e w))" for w e by (rule UpdateStatusFromJob_frame)
  show "\<not> fst (UpdateStatusFromJob e w) \<Longrightarrow> snd (UpdateStatusFromJob e w) = w" for w e
    by (cases e) (auto simp: UpdateStatusFromJob_def Let_def split: if_splits)
  show "snd (UpdateStatusFromJob e (snd (UpdateStatusFromJob e w))) = snd (UpdateStatusFromJob e w)" for w e
    by (cases e) (auto simp: UpdateStatusFromJob_def Let_def zero_app_entry_def map_put_put map_put_same
        split: option.splits)
qed

section \<open>Properties\<close>

text \<open>C24: Observing a deployment sets the revision and the status of the server, nothing else: the
  metadata, the specification, the pod health and the applications stay. The status is one of the
  three documented ones, unless the first condition is \<open>ReplicaFailure\<close>, which leaves it empty. The
  change is reported whenever there is one.\<close>

theorem deployment_status_effect:
  "same_spec w (snd (UpdateStatusFromDeployment d w)) \<and>
   wb_app_entries (snd (UpdateStatusFromDeployment d w)) = wb_app_entries w \<and>
   ss_pod (wb_server (snd (UpdateStatusFromDeployment d w))) = ss_pod (wb_server w) \<and>
   ss_revision (wb_server (snd (UpdateStatusFromDeployment d w))) = revision_of d \<and>
   (server_status_valid (ss_status (wb_server (snd (UpdateStatusFromDeployment d w)))) \<longleftrightarrow>
      (case dep_conditions d of [] \<Rightarrow> True | c # _ \<Rightarrow> dc_type c \<noteq> ''ReplicaFailure'')) \<and>
   (\<not> fst (UpdateStatusFromDeployment d w) \<longleftrightarrow>
      dep_conditions d \<noteq> [] \<and> snd (UpdateStatusFromDeployment d w) = w)"
  using UpdateStatusFromDeployment_flag [of d w]
  by (auto simp: UpdateStatusFromDeployment_effect same_spec_def server_status_valid_def
      condition_status_def zero_server_status_def split: list.split)

text \<open>C25: The revision the status shows after a deployment was observed is the number in the deployment's
  annotation: what the deployment controller wrote as a decimal comes back. It is minus one when the
  annotation is absent, is no decimal number, or is a number outside the 64-bit range.\<close>

theorem revision_roundtrip:
  "(map_get (om_annotations (dep_meta d)) ''deployment.kubernetes.io/revision'' = Some (Itoa n) \<and> int64_ok n \<longrightarrow>
      ss_revision (wb_server (snd (UpdateStatusFromDeployment d w))) = n) \<and>
   (case map_get (om_annotations (dep_meta d)) ''deployment.kubernetes.io/revision'' of
      None \<Rightarrow> ss_revision (wb_server (snd (UpdateStatusFromDeployment d w))) = -1
    | Some s \<Rightarrow>
        if \<exists>i. decimal s i \<and> int64_ok i
        then decimal s (ss_revision (wb_server (snd (UpdateStatusFromDeployment d w))))
        else ss_revision (wb_server (snd (UpdateStatusFromDeployment d w))) = -1)"
  using Atoi_decimal Atoi_no_decimal
  by (auto simp: UpdateStatusFromDeployment_effect revision_of_annotation Atoi_Itoa split: option.split)

definition annotated_deployment :: "string gomap \<Rightarrow> deployment" where
  "annotated_deployment as =
     \<lparr>dep_meta = (new_meta ''wb-server'' ''ns1'' [])\<lparr>om_annotations := as\<rparr>, dep_selector = None,
      dep_template = empty_template, dep_conditions = []\<rparr>"

theorem revision_roundtrip_witness:
  "\<forall>w. ss_revision (wb_server (snd (UpdateStatusFromDeployment
     (annotated_deployment [(''deployment.kubernetes.io/revision'', Itoa 42)]) w))) = 42 \<and>
   ss_revision (wb_server (snd (UpdateStatusFromDeployment (annotated_deployment []) w))) = -1"
proof
  fix w
  show "ss_revision (wb_server (snd (UpdateStatusFromDeployment
     (annotated_deployment [(''deployment.kubernetes.io/revision'', Itoa 42)]) w))) = 42 \<and>
   ss_revision (wb_server (snd (UpdateStatusFromDeployment (annotated_deployment []) w))) = -1"
    using revision_roundtrip [of "annotated_deployment [(''deployment.kubernetes.io/revision'', Itoa 42)]" 42 w]
      revision_roundtrip [of "annotated_deployment []" 0 w]
    by (simp add: annotated_deployment_def map_get_def int64_ok_def)
qed

text \<open>C26: Observing a job sets the entry of its application and no other, and touches neither the
  specification nor the server. The status is running or progressing while one pod is active,
  complete once one succeeded, else failed. The revision is kept; a new entry gets 0 when the
  application is specified, and minus one only when it is not.\<close>

theorem job_status_effect:
  "map_get (wb_app_entries (snd (UpdateStatusFromJob (uid, j) w))) uid' =
     (if uid' = uid
      then Some \<lparr>ae_revision = (case map_get (wb_apps w) uid of
                                 None \<Rightarrow> -1
                               | Some _ \<Rightarrow> (case map_get (wb_app_entries w) uid of
                                              None \<Rightarrow> 0 | Some e \<Rightarrow> ae_revision e)),
                 ae_status = job_app_status j\<rparr>
      else map_get (wb_app_entries w) uid') \<and>
   same_spec w (snd (UpdateStatusFromJob (uid, j) w)) \<and>
   wb_server (snd (UpdateStatusFromJob (uid, j) w)) = wb_server w \<and>
   app_status_valid (job_app_status j)"
  using UpdateStatusFromJob_entry [of uid j w] UpdateStatusFromJob_other [of uid' uid j w]
    UpdateStatusFromJob_frame [where e = "(uid, j)" and w = w] by auto

end
