(* ===== verification/Pod_Health.thy ===== *)
theory Pod_Health
  imports Sample_Objects Convergence Status_Updates
begin

text \<open>
  The health of the Xpra server pod as \<open>internal/controller/workbench_controller.go\<close> derives it:
  \<open>updateServerPodHealth\<close> lists the pods of the deployment, takes the most recent one and
  maps the states of its two containers to a status (\<open>determineServerPodHealth\<close>,
  \<open>determineContainerHealth\<close>); \<open>setServerPodHealth\<close> stores it. The clock is read at most once
  per call of the code, as the two places that read it exclude each other; \<open>now\<close> is that
  reading, and \<open>time.Since\<close> is the difference to it.
\<close>

section \<open>From container states to a health\<close>

definition mk_health :: "pod_status \<Rightarrow> bool \<Rightarrow> int \<Rightarrow> string \<Rightarrow> pod_health" where
  "mk_health s b n m = \<lparr>ph_status = s, ph_ready = b, ph_restart_count = n, ph_message = m\<rparr>"

lemma mk_health_sel [simp]:
  "ph_status (mk_health s b n m) = s" "ph_ready (mk_health s b n m) = b"
  "ph_restart_count (mk_health s b n m) = n" "ph_message (mk_health s b n m) = m"
  by (simp_all add: mk_health_def)

definition time_since :: "time \<Rightarrow> time \<Rightarrow> int" where
  "time_since now t = now - t"

definition determineContainerHealth :: "time \<Rightarrow> container_status \<Rightarrow> pod_health" where
  "determineContainerHealth now cs =
     (let health = (\<lambda>s m. mk_health s (cs_ready cs) (cs_restart_count cs) m) in
      case cs_waiting cs of
        Some wt \<Rightarrow> health PodWaiting (''Waiting: '' @ sw_reason wt)
      | None \<Rightarrow>
          (case cs_terminated cs of
             Some tm \<Rightarrow> health PodTerminated (''Terminated: '' @ st_reason tm)
           | None \<Rightarrow>
               (case cs_running cs of
                  None \<Rightarrow> health PodUnknown ''Container state unknown''
                | Some started \<Rightarrow>
                    if cs_restart_count cs > 0 \<and> time_since now started < 5 * minute
                    then health PodRestarting
                      (''Recently restarted ('' @ Itoa (cs_restart_count cs) @ '' times)'')
                    else if cs_ready cs then health PodReady ''Container is ready''
                    else if cs_restart_count cs = 0 \<and> time_since now started < 2 * minute
                    then health PodStarting ''Container starting up''
                    else health PodFailing ''Readiness probe failing'')))"

definition determineServerPodHealth :: "time \<Rightarrow> container_status \<Rightarrow> container_status \<Rightarrow> pod_health" where
  "determineServerPodHealth now initStatus serverStatus =
     (if cs_ready initStatus then determineContainerHealth now serverStatus
      else
        let health = (\<lambda>s m. mk_health s False (cs_restart_count initStatus) m) in
        case cs_waiting initStatus of
          Some wt \<Rightarrow> health PodWaiting
            (if sw_message wt \<noteq> []
             then ''Init container waiting: '' @ sw_reason wt @ '' - '' @ sw_message wt
             else ''Init container waiting: '' @ sw_reason wt)
        | None \<Rightarrow>
            (case cs_running initStatus of
               Some _ \<Rightarrow> health PodStarting ''Init container starting''
             | None \<Rightarrow>
                 (case cs_terminated initStatus of
                    Some tm \<Rightarrow> health PodFailing
                      (if st_message tm \<noteq> []
                       then ''Init container failed with exit code '' @ Itoa (st_exit_code tm) @ '': '' @
                            st_reason tm @ '' - '' @ st_message tm
                       else ''Init container failed with exit code '' @ Itoa (st_exit_code tm) @ '': '' @
                            st_reason tm)
                  | None \<Rightarrow> health PodUnknown ''Init container state unknown'')))"

section \<open>The pod that counts\<close>

definition later_pod :: "pod option \<Rightarrow> pod \<Rightarrow> pod option" where
  "later_pod latest p =
     (case latest of
        None \<Rightarrow> Some p
      | Some l \<Rightarrow> if om_creation (pod_meta p) > om_creation (pod_meta l) then Some p else Some l)"

definition latest_pod :: "pod list \<Rightarrow> pod option" where
  "latest_pod ps = foldl later_pod None ps"

definition find_status :: "string \<Rightarrow> container_status list \<Rightarrow> container_status option" where
  "find_status n css = find (\<lambda>c. cs_name c = n) css"

definition observed_health :: "time \<Rightarrow> pod list \<Rightarrow> pod_health" where
  "observed_health now pods =
     (case latest_pod pods of
        None \<Rightarrow> mk_health PodUnknown False 0 ''No pods found''
      | Some p \<Rightarrow>
          if om_deletion (pod_meta p) \<noteq> None
          then mk_health PodTerminating False 0 ''Pod is terminating''
          else (case find_status ''xpra-server-bind'' (pod_init_statuses p) of
                  None \<Rightarrow> mk_health PodUnknown False 0 ''xpra-server-bind init container not found''
                | Some i \<Rightarrow>
                    (case find_status ''xpra-server'' (pod_statuses p) of
                       None \<Rightarrow> mk_health PodUnknown False 0 ''xpra-server container not found''
                     | Some c \<Rightarrow> determineServerPodHealth now i c)))"

definition setServerPodHealth :: "pod_health \<Rightarrow> workbench \<Rightarrow> bool \<times> workbench" where
  "setServerPodHealth health w =
     (case ss_pod (wb_server w) of
        None \<Rightarrow> (True, set_server w ((wb_server w)\<lparr>ss_pod := Some health\<rparr>))
      | Some current \<Rightarrow>
          if ph_status current \<noteq> ph_status health \<or> ph_ready current \<noteq> ph_ready health \<or>
             ph_restart_count current \<noteq> ph_restart_count health \<or> ph_message current \<noteq> ph_message health
          then (True, set_server w ((wb_server w)\<lparr>ss_pod := Some health\<rparr>))
          else (False, w))"

definition updateServerPodHealth ::
  "'w reconciler \<Rightarrow> workbench \<Rightarrow> deployment \<Rightarrow> ('w, (bool \<times> workbench) or_panic) prog" where
  "updateServerPodHealth r w d =
     (case dep_selector d of
        None \<Rightarrow> State_Monad.return (Inl NilDereference)
      | Some matchLabels \<Rightarrow> do {
          l \<leftarrow> ListPods r (wb_namespace w) matchLabels;
          now \<leftarrow> Now r;
          case l of
            Inl _ \<Rightarrow> State_Monad.return (Inr
              (setServerPodHealth (mk_health PodUnknown False 0 ''Failed to list pods'') w))
          | Inr pods \<Rightarrow> State_Monad.return (Inr (setServerPodHealth (observed_health now pods) w))
        })"

section \<open>The most recent pod\<close>

lemma foldl_later_pod:
  "\<exists>p. foldl later_pod (Some q) ps = Some p \<and> p \<in> set (q # ps) \<and>
     (\<forall>p' \<in> set (q # ps). om_creation (pod_meta p') \<le> om_creation (pod_meta p))"
proof (induction ps arbitrary: q)
  case (Cons x ps)
  show ?case
  proof (cases "om_creation (pod_meta x) > om_creation (pod_meta q)")
    case True
    with Cons.IH [of x] show ?thesis by (auto simp: later_pod_def)
  next
    case False
    with Cons.IH [of q] show ?thesis by (auto simp: later_pod_def)
  qed
qed simp

lemma latest_pod_None [simp]: "latest_pod ps = None \<longleftrightarrow> ps = []"
proof (cases ps)
  case (Cons q qs)
  then show ?thesis using foldl_later_pod [of q qs] by (auto simp: latest_pod_def later_pod_def)
qed (simp add: latest_pod_def)

lemma latest_pod_Nil [simp]: "latest_pod [] = None"
  by simp

lemma latest_pod_Some:
  assumes "latest_pod ps = Some p"
  shows "p \<in> set ps" "\<forall>p' \<in> set ps. om_creation (pod_meta p') \<le> om_creation (pod_meta p)"
proof -
  obtain q qs where "ps = q # qs" using assms by (cases ps) (auto simp: latest_pod_def)
  then show "p \<in> set ps" "\<forall>p' \<in> set ps. om_creation (pod_meta p') \<le> om_creation (pod_meta p)"
    using foldl_later_pod [of q qs] assms by (auto simp: latest_pod_def later_pod_def)
qed

section \<open>When the server counts as ready\<close>

lemma container_ready [simp]: "ph_ready (determineContainerHealth now cs) = cs_ready cs"
  by (simp add: determineContainerHealth_def Let_def split: option.split)

lemma server_ready [simp]:
  "ph_ready (determineServerPodHealth now i c) \<longleftrightarrow> cs_ready i \<and> cs_ready c"
  by (simp add: determineServerPodHealth_def Let_def split: option.split)

definition server_pod_ready :: "pod \<Rightarrow> bool" where
  "server_pod_ready p \<longleftrightarrow>
     om_deletion (pod_meta p) = None \<and>
     (case find_status ''xpra-server-bind'' (pod_init_statuses p) of None \<Rightarrow> False | Some i \<Rightarrow> cs_ready i) \<and>
     (case find_status ''xpra-server'' (pod_statuses p) of None \<Rightarrow> False | Some c \<Rightarrow> cs_ready c)"

lemma observed_ready:
  "ph_ready (observed_health now pods) \<longleftrightarrow> (\<exists>p. latest_pod pods = Some p \<and> server_pod_ready p)"
  by (auto simp: observed_health_def server_pod_ready_def split: option.split)

lemma setServerPodHealth_pod [simp]:
  "ss_pod (wb_server (snd (setServerPodHealth h w))) = Some h"
  by (cases "ss_pod (wb_server w)") (auto simp: setServerPodHealth_def)

interpretation pod_health: precise_setter setServerPodHealth
proof
  show "same_spec w (snd (setServerPodHealth h w))" for w h
    by (simp add: setServerPodHealth_def same_spec_def split: option.split)
  show "\<not> fst (setServerPodHealth h w) \<Longrightarrow> snd (setServerPodHealth h w) = w" for w h
    by (simp add: setServerPodHealth_def split: option.splits if_splits)
  show "snd (setServerPodHealth h (snd (setServerPodHealth h w))) = snd (setServerPodHealth h w)" for w h
    by (subst setServerPodHealth_def) simp
  show "fst (setServerPodHealth h w) \<Longrightarrow> snd (setServerPodHealth h w) \<noteq> w" for w h
  proof
    assume flag: "fst (setServerPodHealth h w)" and eq: "snd (setServerPodHealth h w) = w"
    have "ss_pod (wb_server w) = Some h" using setServerPodHealth_pod [of h w] unfolding eq .
    with flag show False by (simp add: setServerPodHealth_def)
  qed
qed

text \<open>The only call is the list of pods; panics are excluded by a selector.\<close>

lemma updateServerPodHealth_emits:
  "emits (updateServerPodHealth r w d) (\<lambda>x cs.
     (case dep_selector d of
        None \<Rightarrow> x = Inl NilDereference \<and> cs = []
      | Some ls \<Rightarrow> (\<exists>l h. cs = [ListedPods (wb_namespace w) ls l] \<and> x = Inr (setServerPodHealth h w) \<and>
          (ph_ready h \<longrightarrow> (\<exists>pods p. l = Inr pods \<and> latest_pod pods = Some p \<and> server_pod_ready p)))))"
proof (cases "dep_selector d")
  case (Some ls)
  show ?thesis
    unfolding updateServerPodHealth_def Some option.case ListPods_def Now_def
    apply (rule emits_bind [OF emits_perform [where Q = "\<lambda>a cs. cs = [ListedPods (wb_namespace w) ls a]"]], simp)
    apply (rule emits_bind [OF emits_observe [where Q = "\<lambda>_ cs. cs = []"]], simp)
    apply (rule emits_sum)
     apply (simp, rule exI, rule conjI, rule refl, simp)
    apply (simp, rule exI, rule conjI, rule refl, simp add: observed_ready)
    done
qed (simp add: updateServerPodHealth_def)

section \<open>Properties\<close>

text \<open>C22: The server is reported ready exactly when the most recent pod of the list is not being
  deleted and both its containers are ready; that pod is in the list, and none was created later.\<close>

theorem server_ready_iff:
  "ph_ready (observed_health now pods) \<longleftrightarrow>
     (\<exists>p. latest_pod pods = Some p \<and> p \<in> set pods \<and>
        list_all (\<lambda>q. om_creation (pod_meta q) \<le> om_creation (pod_meta p)) pods \<and> server_pod_ready p)"
  using latest_pod_Some by (fastforce simp: observed_ready list_all_iff)

definition transient_status :: "pod_status \<Rightarrow> bool" where
  "transient_status s \<longleftrightarrow> s = PodStarting \<or> s = PodRestarting"

text \<open>C23: As long as a running container does not change, its reported status moves one way: a
  starting or restarting status seen later was already reported before, and five minutes after the
  start the container is ready or failing, according to its readiness alone.\<close>

theorem container_health_settles:
  assumes "cs_waiting cs = None" "cs_terminated cs = None" "cs_running cs = Some t" "now \<le> now'"
  shows "(transient_status (ph_status (determineContainerHealth now' cs)) \<longrightarrow>
      ph_status (determineContainerHealth now cs) = ph_status (determineContainerHealth now' cs)) \<and>
    (t + 5 * minute \<le> now' \<longrightarrow>
      ph_status (determineContainerHealth now' cs) = (if cs_ready cs then PodReady else PodFailing))"
proof -
  have "time_since now t \<le> time_since now' t" using assms(4) by (simp add: time_since_def)
  moreover have "t + 5 * minute \<le> now' \<longleftrightarrow> \<not> time_since now' t < 5 * minute" by (auto simp: time_since_def)
  moreover have "2 * minute < 5 * minute" by (simp add: minute_def second_def)
  ultimately show ?thesis
    using assms(1-3) by (auto simp: determineContainerHealth_def Let_def transient_status_def)
qed

theorem container_health_settles_witness:
  "ph_status (determineContainerHealth (10 * minute) (hd (pod_statuses (sample_pod ''ns1'')))) = PodReady"
  using container_health_settles [of "hd (pod_statuses (sample_pod ''ns1''))" 0 0 "10 * minute"]
  by (simp add: sample_pod_def minute_def second_def)

end
