(* ===== verification/Go_Slices.thy ===== *)
theory Go_Slices
  imports Prelude "HOL-Library.Multiset" "HOL-Library.Char_ord" "HOL-Library.List_Lexorder"
begin

text \<open>
  \<open>slices.Sort\<close> and \<open>slices.BinarySearch\<close> of Go's standard library, which the
  reconciler uses to test whether a job of the cluster is one it wants. Go compares
  strings bytewise, which is the lexicographic order of \<open>HOL-Library.List_Lexorder\<close> on
  \<open>char list\<close>. The locale \<open>membership_test\<close> is the contract the reconciler relies on:
  prepare a slice once, then test names against it.
\<close>

definition SortSlice :: "'a::linorder list \<Rightarrow> 'a list" where
  "SortSlice xs = sort xs"

text \<open>The loop of \<open>BinarySearch\<close>: \<open>i\<close> and \<open>j\<close> close in on the insertion point.\<close>

function search_loop :: "'a::linorder list \<Rightarrow> 'a \<Rightarrow> nat \<Rightarrow> nat \<Rightarrow> nat" where
  "search_loop xs target i j =
     (if i < j then
        (let h = (i + j) div 2 in
         if xs ! h < target then search_loop xs target (h + 1) j else search_loop xs target i h)
      else i)"
  by pat_completeness auto
termination
  by (relation "measure (\<lambda>(xs, target, i, j). j - i)") auto

declare search_loop.simps [simp del]

definition BinarySearch :: "'a::linorder list \<Rightarrow> 'a \<Rightarrow> nat \<times> bool" where
  "BinarySearch xs target =
     (let i = search_loop xs target 0 (length xs) in (i, i < length xs \<and> xs ! i = target))"

text \<open>Below the result everything is smaller than the target, from it on nothing is.\<close>

lemma search_loop_split:
  assumes "sorted xs" "i \<le> j" "j \<le> length xs"
    "\<forall>k < i. xs ! k < target" "\<forall>k. j \<le> k \<and> k < length xs \<longrightarrow> target \<le> xs ! k"
  shows "search_loop xs target i j \<le> length xs \<and>
    (\<forall>k < search_loop xs target i j. xs ! k < target) \<and>
    (\<forall>k. search_loop xs target i j \<le> k \<and> k < length xs \<longrightarrow> target \<le> xs ! k)"
  using assms
proof (induction xs target i j rule: search_loop.induct)
  case (1 xs target i j)
  show ?case
  proof (cases "i < j")
    case False
    then have "search_loop xs target i j = i" by (subst search_loop.simps) simp
    moreover have "i = j" using False "1.prems" by simp
    ultimately show ?thesis using "1.prems" by simp
  next
    case True
    let ?h = "(i + j) div 2"
    have h: "i \<le> ?h" "?h < j" using True by auto
    show ?thesis
    proof (cases "xs ! ?h < target")
      case less: True
      have below: "\<forall>k < ?h + 1. xs ! k < target"
      proof (intro allI impI)
        fix k assume "k < ?h + 1"
        then have "xs ! k \<le> xs ! ?h"
          using "1.prems"(1,3) h by (intro sorted_nth_mono) auto
        then show "xs ! k < target" using less by simp
      qed
      show ?thesis
        using "1.IH"(1) [OF True refl less] below h "1.prems" True less
        by (simp add: search_loop.simps [of xs target i j])
    next
      case ge: False
      have above: "\<forall>k. ?h \<le> k \<and> k < length xs \<longrightarrow> target \<le> xs ! k"
      proof (intro allI impI)
        fix k assume k: "?h \<le> k \<and> k < length xs"
        then have "xs ! ?h \<le> xs ! k" using "1.prems"(1) by (intro sorted_nth_mono) auto
        then show "target \<le> xs ! k" using ge by simp
      qed
      show ?thesis
        using "1.IH"(2) [OF True refl ge] above h "1.prems" True ge
        by (simp add: search_loop.simps [of xs target i j])
    qed
  qed
qed

lemma BinarySearch_found:
  assumes "sorted xs"
  shows "snd (BinarySearch xs target) \<longleftrightarrow> target \<in> set xs"
proof -
  let ?i = "search_loop xs target 0 (length xs)"
  have "?i \<le> length xs \<and> (\<forall>k < ?i. xs ! k < target) \<and>
      (\<forall>k. ?i \<le> k \<and> k < length xs \<longrightarrow> target \<le> xs ! k)"
    by (rule search_loop_split [OF assms]) auto
  then have split: "\<forall>k < ?i. xs ! k < target" "\<forall>k. ?i \<le> k \<and> k < length xs \<longrightarrow> target \<le> xs ! k"
    by blast+
  have "?i < length xs \<and> xs ! ?i = target" if mem: "target \<in> set xs"
  proof -
    obtain k where k: "k < length xs" "xs ! k = target" using mem by (auto simp: in_set_conv_nth)
    have "?i \<le> k" using split(1) k by (meson less_irrefl not_le_imp_less)
    moreover have "target \<le> xs ! ?i" using split(2) \<open>?i \<le> k\<close> k by simp
    moreover have "xs ! ?i \<le> xs ! k" using assms \<open>?i \<le> k\<close> k(1) by (rule sorted_nth_mono)
    ultimately show ?thesis using k by auto
  qed
  moreover have "?i < length xs \<Longrightarrow> xs ! ?i = target \<Longrightarrow> target \<in> set xs"
    using nth_mem by metis
  ultimately show ?thesis by (auto simp: BinarySearch_def Let_def)
qed

section \<open>The contract of the lookup\<close>

locale membership_test =
  fixes prepare :: "'a list \<Rightarrow> 'b"
    and member_of :: "'b \<Rightarrow> 'a \<Rightarrow> bool"
  assumes member_prepare: "member_of (prepare xs) x \<longleftrightarrow> x \<in> set xs"
begin

lemma prepare_order: "mset xs = mset ys \<Longrightarrow> member_of (prepare xs) x = member_of (prepare ys) x"
  using member_prepare mset_eq_setD by metis

lemma filter_prepare: "filter (\<lambda>x. \<not> member_of (prepare xs) (f x)) ys = filter (\<lambda>x. f x \<notin> set xs) ys"
  by (simp add: member_prepare)

end

interpretation name_search: membership_test SortSlice "\<lambda>xs x. snd (BinarySearch xs x)"
  by unfold_locales (simp add: SortSlice_def BinarySearch_found)

end
