(* ===== verification/Reconciler.thy ===== *)
theory Reconciler
  imports App_Job Xpra_Service Pod_Health Go_Slices
begin

text \<open>
  \<open>Reconcile\<close> of \<open>internal/controller/workbench_controller.go\<close>, cut at the comments of its
  source into the deletion branch, the finalizer, the server, and the applications with the
  removal of extra jobs. A part that may end the whole function early returns
  \<open>Inl outcome\<close>; the workbench the code mutates through its pointer, or that an update
  overwrites with the server's answer, is passed on as a value. A failed update leaves it as
  it was. Logging is left out.
\<close>

text \<open>\<open>Finished t\<close> is the result \<open>RequeueAfter: t\<close> without an error (\<open>0\<close> for none).\<close>

datatype outcome = Finished int | Failed go_error | Panicked panic

definition set_finalizers :: "workbench \<Rightarrow> string list \<Rightarrow> workbench" where
  "set_finalizers w fs = w\<lparr>wb_meta := (wb_meta w)\<lparr>om_finalizers := fs\<rparr>\<rparr>"

definition being_deleted :: "workbench \<Rightarrow> bool" where
  "being_deleted w \<longleftrightarrow> \<not> time_is_zero (om_deletion (wb_meta w))"

definition contains_finalizer :: "'w reconciler \<Rightarrow> workbench \<Rightarrow> bool" where
  "contains_finalizer r w =
     pf_contains_finalizer (rc_platform r) (om_finalizers (wb_meta w)) finalizer"

definition set_owner :: "'w reconciler \<Rightarrow> workbench \<Rightarrow> object_meta \<Rightarrow> go_error + object_meta" where
  "set_owner r w m = (case pf_set_controller (rc_platform r) w m of
       Inl e \<Rightarrow> Inl (OwnerFailure e) | Inr m' \<Rightarrow> Inr m')"

text \<open>An event of the reconciler itself, which does not check for a missing recorder.\<close>

definition emit_event :: "'w reconciler \<Rightarrow> kube_event \<Rightarrow> ('w, unit or_panic) prog" where
  "emit_event r e =
     (if rc_has_recorder r
      then do { _ \<leftarrow> RecordEvent r e; State_Monad.return (Inr ()) }
      else State_Monad.return (Inl NilDereference))"

section \<open>Deletion and finalizers\<close>

definition deleting_event :: "workbench \<Rightarrow> kube_event" where
  "deleting_event w =
     \<lparr>ke_type = ''Normal'', ke_reason = ''DeletingDeployments'',
      ke_message = Sprintf (''Deleting deployment '' @ [CHR 34] @ ''%s=%s'' @ [CHR 34] @ '' from the namespace %q'')
        [matchingLabel, wb_name w, wb_namespace w]\<rparr>"

definition deleteExternalResources ::
  "'w reconciler \<Rightarrow> workbench \<Rightarrow> ('w, (go_error + nat) or_panic) prog" where
  "deleteExternalResources r w = do {
     ev \<leftarrow> emit_event r (deleting_event w);
     case ev of
       Inl p \<Rightarrow> State_Monad.return (Inl p)
     | Inr _ \<Rightarrow> do {
         j \<leftarrow> deleteJobs r w;
         case j of
           Inl e \<Rightarrow> State_Monad.return (Inr (Inl e))
         | Inr n \<Rightarrow>
             if n > 0 then State_Monad.return (Inr (Inr n))
             else do {
               d \<leftarrow> deleteDeployments r w;
               State_Monad.return (Inr d)
             }
       }
   }"

definition reconcile_deletion :: "'w reconciler \<Rightarrow> workbench \<Rightarrow> ('w, outcome) prog" where
  "reconcile_deletion r w =
     (if contains_finalizer r w then do {
        x \<leftarrow> deleteExternalResources r w;
        case x of
          Inl p \<Rightarrow> State_Monad.return (Panicked p)
        | Inr (Inl e) \<Rightarrow> State_Monad.return (Failed e)
        | Inr (Inr n) \<Rightarrow>
            if n > 0 then State_Monad.return (Finished (5 * second))
            else (case pf_remove_finalizer (rc_platform r) (om_finalizers (wb_meta w)) finalizer of
                (finalizersUpdated, fs) \<Rightarrow>
                  if finalizersUpdated then do {
                    u \<leftarrow> UpdateWorkbench r (set_finalizers w fs);
                    State_Monad.return (case u of Inl e \<Rightarrow> Failed (ApiFailure e) | Inr _ \<Rightarrow> Finished 0)
                  }
                  else State_Monad.return (Finished 0))
      }
      else State_Monad.return (Finished 0))"

definition ensure_finalizer :: "'w reconciler \<Rightarrow> workbench \<Rightarrow> ('w, workbench reply) prog" where
  "ensure_finalizer r w =
     (if contains_finalizer r w then State_Monad.return (Inr w)
      else (case pf_add_finalizer (rc_platform r) (om_finalizers (wb_meta w)) finalizer of
          (finalizersUpdated, fs) \<Rightarrow>
            if finalizersUpdated then UpdateWorkbench r (set_finalizers w fs)
            else State_Monad.return (Inr (set_finalizers w fs))))"

section \<open>Server\<close>

definition createDeployment :: "'w reconciler \<Rightarrow> deployment \<Rightarrow> ('w, go_error + deployment) prog" where
  "createDeployment r d = do {
     g \<leftarrow> GetDeployment r (key (dep_name d) (dep_namespace d));
     case g of
       Inl e \<Rightarrow>
         if \<not> IsNotFound e then State_Monad.return (Inl (ApiFailure e))
         else do {
           c \<leftarrow> CreateDeployment r d;
           State_Monad.return (case c of Inl e' \<Rightarrow> Inl (ApiFailure e') | Inr d' \<Rightarrow> Inr d')
         }
     | Inr found \<Rightarrow> State_Monad.return (Inr found)
   }"

text \<open>\<open>r.Status().Update\<close>: its error is logged and dropped.\<close>

definition write_status :: "'w reconciler \<Rightarrow> bool \<times> workbench \<Rightarrow> ('w, workbench) prog" where
  "write_status r x =
     (case x of (changed, w) \<Rightarrow>
        if changed then do {
          u \<leftarrow> UpdateStatus r w;
          State_Monad.return (case u of Inl _ \<Rightarrow> w | Inr w' \<Rightarrow> w')
        }
        else State_Monad.return w)"

definition updating_event :: "deployment \<Rightarrow> kube_event" where
  "updating_event d =
     \<lparr>ke_type = ''Normal'', ke_reason = ''UpdatingDeployment'',
      ke_message = Sprintf ''Updating deployment %q into the namespace %q'' [dep_name d, dep_namespace d]\<rparr>"

definition apply_server_update ::
  "'w reconciler \<Rightarrow> deployment \<Rightarrow> deployment \<Rightarrow> workbench \<Rightarrow> ('w, outcome + workbench) prog" where
  "apply_server_update r d found w =
     (case updateDeployment d found of
        Inl p \<Rightarrow> State_Monad.return (Inl (Panicked p))
      | Inr (updated, found') \<Rightarrow>
          if updated then do {
            ev \<leftarrow> emit_event r (updating_event d);
            case ev of
              Inl p \<Rightarrow> State_Monad.return (Inl (Panicked p))
            | Inr _ \<Rightarrow> do {
                u \<leftarrow> UpdateDeployment r found';
                State_Monad.return (case u of Inl e \<Rightarrow> Inl (Failed (ApiFailure e)) | Inr _ \<Rightarrow> Inr w)
              }
          }
          else State_Monad.return (Inr w))"

definition reconcile_server ::
  "'w reconciler \<Rightarrow> deployment \<Rightarrow> workbench \<Rightarrow> ('w, outcome + workbench) prog" where
  "reconcile_server r d w = do {
     f \<leftarrow> createDeployment r d;
     case f of
       Inl _ \<Rightarrow> State_Monad.return (Inr w)
     | Inr found \<Rightarrow>
         (case UpdateStatusFromDeployment found w of (statusUpdated, w1) \<Rightarrow> do {
            h \<leftarrow> updateServerPodHealth r w1 found;
            case h of
              Inl p \<Rightarrow> State_Monad.return (Inl (Panicked p))
            | Inr (serverHealthUpdated, w2) \<Rightarrow> do {
                w3 \<leftarrow> write_status r (statusUpdated \<or> serverHealthUpdated, w2);
                apply_server_update r d found w3
              }
          })
   }"

section \<open>Applications\<close>

definition createJob :: "'w reconciler \<Rightarrow> job \<Rightarrow> ('w, go_error + job option) prog" where
  "createJob r j = do {
     g \<leftarrow> GetJob r (key (job_name j) (job_namespace j));
     case g of
       Inl e \<Rightarrow>
         if \<not> IsNotFound e then State_Monad.return (Inl (ApiFailure e))
         else if job_suspend j = Some True then State_Monad.return (Inl (SuspendedJob (job_name j)))
         else do {
           c \<leftarrow> CreateJob r j;
           State_Monad.return (case c of Inl e' \<Rightarrow> Inl (ApiFailure e') | Inr _ \<Rightarrow> Inr None)
         }
     | Inr found \<Rightarrow> State_Monad.return (Inr (Some found))
   }"

definition is_suspended_error :: "go_error \<Rightarrow> bool" where
  "is_suspended_error e = (case e of SuspendedJob _ \<Rightarrow> True | _ \<Rightarrow> False)"

text \<open>The branch of the loop body for a job that exists already.\<close>

definition reconcile_found_job ::
  "'w reconciler \<Rightarrow> string \<Rightarrow> job \<Rightarrow> job \<Rightarrow> workbench \<Rightarrow> ('w, outcome + workbench \<times> string list) prog" where
  "reconcile_found_job r uid j found w = do {
     w1 \<leftarrow> write_status r (UpdateStatusFromJob (uid, found) w);
     if job_name j \<noteq> job_name found
     then State_Monad.return (Inl (Failed (NameChanged (job_name j) (job_name found))))
     else (case updateJob j found of (updated, found') \<Rightarrow>
         if updated then do {
           u \<leftarrow> UpdateJob r found';
           State_Monad.return (case u of
               Inl e \<Rightarrow> Inl (Failed (ApiFailure e)) | Inr _ \<Rightarrow> Inr (w1, [job_name j]))
         }
         else State_Monad.return (Inr (w1, [job_name j])))
   }"

text \<open>One application: the new workbench and the name added to \<open>foundJobNames\<close>, if any.\<close>

definition reconcile_app ::
  "'w reconciler \<Rightarrow> service \<Rightarrow> manager \<Rightarrow> string \<Rightarrow> workbench_app \<Rightarrow> workbench \<Rightarrow>
   ('w, outcome + workbench \<times> string list) prog" where
  "reconcile_app r svc sm uid app w = do {
     x \<leftarrow> initJob r (rc_config r) w uid app svc sm;
     case x of
       Inl _ \<Rightarrow> do {
         w1 \<leftarrow> write_status r (SetAppStatusFailed uid w);
         State_Monad.return (Inr (w1, []))
       }
     | Inr j0 \<Rightarrow>
         (case set_owner r w (job_meta j0) of
            Inl e \<Rightarrow> State_Monad.return (Inl (Failed e))
          | Inr m \<Rightarrow> do {
              let j = j0\<lparr>job_meta := m\<rparr>;
              c \<leftarrow> createJob r j;
              case c of
                Inl e \<Rightarrow> State_Monad.return
                  (if is_suspended_error e then Inr (w, []) else Inl (Failed e))
              | Inr None \<Rightarrow> State_Monad.return (Inr (w, [job_name j]))
              | Inr (Some found) \<Rightarrow> reconcile_found_job r uid j found w
            })
   }"

fun reconcile_apps ::
  "'w reconciler \<Rightarrow> service \<Rightarrow> manager \<Rightarrow> workbench_app gomap \<Rightarrow> workbench \<Rightarrow> string list \<Rightarrow>
   ('w, outcome + workbench \<times> string list) prog" where
  "reconcile_apps r svc sm [] w foundJobNames = State_Monad.return (Inr (w, foundJobNames))"
| "reconcile_apps r svc sm ((uid, app) # apps) w foundJobNames = do {
     x \<leftarrow> reconcile_app r svc sm uid app w;
     case x of
       Inl out \<Rightarrow> State_Monad.return (Inl out)
     | Inr (w', names) \<Rightarrow> reconcile_apps r svc sm apps w' (foundJobNames @ names)
   }"

fun remove_extra_jobs :: "'w reconciler \<Rightarrow> string list \<Rightarrow> job list \<Rightarrow> ('w, outcome) prog" where
  "remove_extra_jobs r sortedNames [] = State_Monad.return (Finished 0)"
| "remove_extra_jobs r sortedNames (j # js) =
     (if snd (BinarySearch sortedNames (job_name j)) then remove_extra_jobs r sortedNames js
      else do {
        d \<leftarrow> deleteJob r j;
        case d of
          Inl e \<Rightarrow> State_Monad.return (Failed (ApiFailure e))
        | Inr _ \<Rightarrow> remove_extra_jobs r sortedNames js
      })"

definition sweep_jobs :: "'w reconciler \<Rightarrow> workbench \<Rightarrow> string list \<Rightarrow> ('w, outcome) prog" where
  "sweep_jobs r w foundJobNames = do {
     l \<leftarrow> findJobs r w;
     case l of
       Inl e \<Rightarrow> State_Monad.return (Failed (ApiFailure e))
     | Inr items \<Rightarrow> remove_extra_jobs r (SortSlice foundJobNames) items
   }"

definition xpra_ready :: "workbench \<Rightarrow> bool" where
  "xpra_ready w = (case ss_pod (wb_server w) of None \<Rightarrow> False | Some h \<Rightarrow> ph_ready h)"

definition reconcile_jobs :: "'w reconciler \<Rightarrow> service \<Rightarrow> manager \<Rightarrow> workbench \<Rightarrow> ('w, outcome) prog" where
  "reconcile_jobs r svc sm w =
     (if \<not> xpra_ready w then State_Monad.return (Finished (2 * second))
      else do {
        x \<leftarrow> reconcile_apps r svc sm (wb_apps w) w [];
        case x of
          Inl out \<Rightarrow> State_Monad.return out
        | Inr (w', foundJobNames) \<Rightarrow> sweep_jobs r w' foundJobNames
      })"

section \<open>The whole function\<close>

definition reconcile_rest :: "'w reconciler \<Rightarrow> workbench \<Rightarrow> ('w, outcome) prog" where
  "reconcile_rest r w =
     (let svc0 = initService w in
      case set_owner r w (svc_meta svc0) of
        Inl e \<Rightarrow> State_Monad.return (Failed e)
      | Inr m \<Rightarrow> do {
          let svc = svc0\<lparr>svc_meta := m\<rparr>;
          c \<leftarrow> createService r svc;
          case c of
            Inl e \<Rightarrow> State_Monad.return (Failed e)
          | Inr _ \<Rightarrow> do {
              let sm = NewStorageManager (rc_config r);
              p \<leftarrow> ProcessEnabledStorage r sm w;
              case p of
                Inl e \<Rightarrow> State_Monad.return (Failed e)
              | Inr _ \<Rightarrow> reconcile_jobs r svc sm w
            }
        })"

definition reconcile_live :: "'w reconciler \<Rightarrow> workbench \<Rightarrow> ('w, outcome) prog" where
  "reconcile_live r w =
     (let d0 = initDeployment w (rc_config r) in
      case set_owner r w (dep_meta d0) of
        Inl e \<Rightarrow> State_Monad.return (Failed e)
      | Inr m \<Rightarrow> do {
          x \<leftarrow> reconcile_server r (d0\<lparr>dep_meta := m\<rparr>) w;
          case x of
            Inl out \<Rightarrow> State_Monad.return out
          | Inr w' \<Rightarrow> reconcile_rest r w'
        })"

definition Reconcile :: "'w reconciler \<Rightarrow> namespaced_name \<Rightarrow> ('w, outcome) prog" where
  "Reconcile r req = do {
     g \<leftarrow> GetWorkbench r req;
     case g of
       Inl e \<Rightarrow> State_Monad.return (if IsNotFound e then Finished 0 else Failed (ApiFailure e))
     | Inr w \<Rightarrow>
         if being_deleted w then reconcile_deletion r w
         else do {
           f \<leftarrow> ensure_finalizer r w;
           case f of
             Inl e \<Rightarrow> State_Monad.return (Failed (ApiFailure e))
           | Inr w' \<Rightarrow> reconcile_live r w'
         }
   }"

section \<open>Watches\<close>

text \<open>
  What \<open>SetupWithManager\<close> asks controller-runtime for: \<open>Reconcile\<close> is called for the resource
  itself, and for the controlling owner of every object of the kinds it owns.
\<close>

record controller_builder =
  ctl_for :: string
  ctl_owns :: "string list"

definition SetupWithManager :: controller_builder where
  "SetupWithManager = \<lparr>ctl_for = ''Workbench'', ctl_owns = [''Deployment'', ''Job'', ''Service'']\<rparr>"

end
