(* ===== verification/Reconciler_Order.thy ===== *)
theory Reconciler_Order
  imports Reconciler
begin

text \<open>
  What one call of \<open>Reconcile\<close> does, in which order, and how it can end, whatever the platform
  answers: the jobs of applications are touched only once the Xpra server was seen ready, the
  finalizer is in place before anything is created, a result is one of a few, and a panic has one
  of two causes. Each part of the loop body gets the calls it makes; the whole function combines
  them.
\<close>

section \<open>Kinds of calls\<close>

text \<open>Calls about the jobs of applications. The set-up jobs of a storage are never suspended or resumed.\<close>

definition app_call :: "call \<Rightarrow> bool" where
  "app_call c = (case c of
       GotJob _ _ \<Rightarrow> True | UpdatedJob _ _ \<Rightarrow> True | DeletedJob _ _ \<Rightarrow> True | RanCommand _ _ \<Rightarrow> True
     | CreatedJob j _ \<Rightarrow> job_suspend j \<noteq> None
     | _ \<Rightarrow> False)"

text \<open>Answers in which the Xpra server is ready.\<close>

definition ready_evidence :: "call \<Rightarrow> bool" where
  "ready_evidence c = (case c of
       GotWorkbench _ (Inr w) \<Rightarrow> xpra_ready w
     | UpdatedWorkbench _ (Inr w) \<Rightarrow> xpra_ready w
     | UpdatedStatus _ (Inr w) \<Rightarrow> xpra_ready w
     | ListedPods _ _ (Inr pods) \<Rightarrow>
         (case latest_pod pods of None \<Rightarrow> False | Some p \<Rightarrow> server_pod_ready p)
     | _ \<Rightarrow> False)"

text \<open>Deployments on which the code would dereference or index what is not there.\<close>

definition malformed :: "deployment \<Rightarrow> bool" where
  "malformed d \<longleftrightarrow> dep_selector d = None \<or> \<not> complete_deployment d"

definition malformed_answer :: "call \<Rightarrow> bool" where
  "malformed_answer c = (case c of
       GotDeployment _ (Inr d) \<Rightarrow> malformed d | CreatedDeployment _ (Inr d) \<Rightarrow> malformed d | _ \<Rightarrow> False)"

text \<open>Errors that end a run: those of the API and of ownership, and a renamed job.\<close>

definition fatal_error :: "go_error \<Rightarrow> bool" where
  "fatal_error e = (case e of ApiFailure _ \<Rightarrow> True | OwnerFailure _ \<Rightarrow> True | NameChanged _ _ \<Rightarrow> True | _ \<Rightarrow> False)"

section \<open>Ways to end\<close>

text \<open>\<open>bad\<close> says whether a malformed deployment was seen.\<close>

definition sound_outcome :: "'w reconciler \<Rightarrow> bool \<Rightarrow> outcome \<Rightarrow> bool" where
  "sound_outcome r bad out = (case out of
       Finished t \<Rightarrow> t = 0 \<or> t = 2 * second \<or> t = 5 * second
     | Failed e \<Rightarrow> fatal_error e
     | Panicked NilDereference \<Rightarrow> \<not> rc_has_recorder r \<or> bad
     | Panicked IndexOutOfRange \<Rightarrow> bad)"

lemma sound_outcome_simps [simp]:
  "sound_outcome r bad (Finished t) \<longleftrightarrow> t = 0 \<or> t = 2 * second \<or> t = 5 * second"
  "sound_outcome r bad (Failed e) \<longleftrightarrow> fatal_error e"
  "sound_outcome r bad (Panicked NilDereference) \<longleftrightarrow> \<not> rc_has_recorder r \<or> bad"
  "sound_outcome r bad (Panicked IndexOutOfRange) \<longleftrightarrow> bad"
  by (simp_all add: sound_outcome_def)

lemma fatal_error_simps [simp]:
  "fatal_error (ApiFailure a)" "fatal_error (OwnerFailure s)" "fatal_error (NameChanged s t)"
  by (simp_all add: fatal_error_def)

lemma sound_outcome_mono: "sound_outcome r bad out \<Longrightarrow> (bad \<Longrightarrow> bad') \<Longrightarrow> sound_outcome r bad' out"
  by (cases out; cases bad) (auto simp: sound_outcome_def split: panic.splits)

section \<open>Calls of the parts\<close>

lemma emit_event_emits:
  "emits (emit_event r e) (\<lambda>x cs. (x = Inl NilDereference \<and> \<not> rc_has_recorder r \<and> cs = []) \<or>
     (x = Inr () \<and> cs = [Recorded e]))"
  unfolding emit_event_def RecordEvent_def
  by (rule emits_if, rule emits_bind [OF emits_perform [where Q = "\<lambda>_ cs. cs = [Recorded e]"]]) auto

lemma write_status_emits:
  "emits (write_status r x) (\<lambda>w' cs. (cs = [] \<and> \<not> fst x \<and> w' = snd x) \<or>
     (\<exists>u. cs = [UpdatedStatus (snd x) u] \<and> fst x \<and> w' = (case u of Inl _ \<Rightarrow> snd x | Inr v \<Rightarrow> v)))"
  unfolding write_status_def UpdateStatus_def
  apply (rule emits_prod, rule emits_if)
   apply (rule emits_bind [OF emits_perform [where Q = "\<lambda>a cs. cs = [UpdatedStatus (snd x) a]"]])
    apply (auto split: sum.splits)
  done

lemma createDeployment_emits:
  "emits (createDeployment r d) (\<lambda>x cs. \<exists>g tl. cs = GotDeployment (key (dep_name d) (dep_namespace d)) g # tl \<and>
     (case g of
        Inr found \<Rightarrow> x = Inr found \<and> tl = []
      | Inl e \<Rightarrow> if IsNotFound e
                 then \<exists>c. tl = [CreatedDeployment d c] \<and>
                   x = (case c of Inl e' \<Rightarrow> Inl (ApiFailure e') | Inr d' \<Rightarrow> Inr d')
                 else x = Inl (ApiFailure e) \<and> tl = []))"
  unfolding createDeployment_def GetDeployment_def CreateDeployment_def
  apply (rule emits_bind [OF emits_perform [where
          Q = "\<lambda>a cs. cs = [GotDeployment (key (dep_name d) (dep_namespace d)) a]"]], simp)
  apply (rule emits_sum)
   apply (rule emits_if)
    apply simp
   apply (rule emits_bind [OF emits_perform [where Q = "\<lambda>a cs. cs = [CreatedDeployment d a]"]])
    apply auto
  done

lemma createService_emits:
  "emits (createService r svc) (\<lambda>x cs. \<exists>g tl.
     cs = GotService (key (om_name (svc_meta svc)) (om_namespace (svc_meta svc))) g # tl \<and>
     (tl = [] \<or> (\<exists>e c. g = Inl e \<and> IsNotFound e \<and> tl = [CreatedService svc c])) \<and>
     (\<forall>e. x = Inl e \<longrightarrow> fatal_error e))"
  unfolding createService_def GetService_def CreateService_def
  apply (rule emits_bind [OF emits_perform [where Q = "\<lambda>a cs. cs =
      [GotService (key (om_name (svc_meta svc)) (om_namespace (svc_meta svc))) a]"]], simp)
  apply (rule emits_sum)
   apply (rule emits_if)
    apply simp
   apply (rule emits_bind [OF emits_perform [where Q = "\<lambda>a cs. cs = [CreatedService svc a]"]], simp)
   apply (rule emits_sum)
    apply simp_all
  done

lemma ensure_finalizer_emits:
  "emits (ensure_finalizer r w) (\<lambda>x cs.
     (contains_finalizer r w \<and> cs = [] \<and> x = Inr w) \<or>
     (\<not> contains_finalizer r w \<and>
      (case pf_add_finalizer (rc_platform r) (om_finalizers (wb_meta w)) finalizer of (b, fs) \<Rightarrow>
         if b then cs = [UpdatedWorkbench (set_finalizers w fs) x] else cs = [] \<and> x = Inr (set_finalizers w fs))))"
  unfolding ensure_finalizer_def UpdateWorkbench_def
  by (intro emits_intros) (auto simp: emits_perform split: prod.splits)

section \<open>The server\<close>

definition server_update_call :: "call \<Rightarrow> bool" where
  "server_update_call c = (case c of Recorded _ \<Rightarrow> True | UpdatedDeployment _ _ \<Rightarrow> True | _ \<Rightarrow> False)"

lemma server_update_call_simps [simp]:
  "server_update_call (Recorded ev)" "server_update_call (UpdatedDeployment d gu)"
  by (simp_all add: server_update_call_def)

lemma server_update_call_app: "server_update_call c \<Longrightarrow> \<not> app_call c"
  by (cases c) (auto simp: server_update_call_def app_call_def)

lemma set_status_ready [simp]:
  "xpra_ready (set_finalizers w fs) = xpra_ready w"
  by (simp add: xpra_ready_def set_finalizers_def)

lemma apply_server_update_emits:
  assumes "d = d0\<lparr>dep_meta := m\<rparr>" "d0 = initDeployment wb cfg"
  shows "emits (apply_server_update r d found w) (\<lambda>x cs.
     list_all server_update_call cs \<and>
     (case x of Inl out \<Rightarrow> sound_outcome r (malformed found) out | Inr w' \<Rightarrow> w' = w))"
proof -
  have "containers_of d \<noteq> []" "init_containers_of d \<noteq> []" using assms by simp_all
  then have panic: "updateDeployment d found = Inl p \<Longrightarrow> p = IndexOutOfRange \<and> malformed found" for p
    using updateDeployment_panic [of d found p] by (auto simp: malformed_def complete_deployment_def)
  show ?thesis
    unfolding apply_server_update_def UpdateDeployment_def
    apply (rule emits_sum)
     apply (use panic in fastforce)
    apply (rule emits_prod, rule emits_if)
     apply (rule emits_bind [OF emit_event_emits])
     apply (rule emits_sum)
      apply auto[1]
     apply (rule emits_bind [OF emits_perform [where Q = "\<lambda>a cs. \<exists>d. cs = [UpdatedDeployment d a]"]])
      apply blast
     apply (auto split: sum.splits)
    done
qed

lemma call_predicates [simp]:
  "\<not> app_call (GotWorkbench k gw)" "\<not> app_call (GotDeployment k gd)" "\<not> app_call (GotService k gs)"
  "\<not> app_call (ListedPods ns ls gp)" "\<not> app_call (CreatedDeployment d gd)" "\<not> app_call (CreatedService svc gu)"
  "\<not> app_call (UpdatedWorkbench w gw)" "\<not> app_call (UpdatedStatus w gw)" "\<not> app_call (UpdatedDeployment d gu)"
  "\<not> app_call (Recorded ev)" "\<not> app_call (ListedJobs ls gj)" "\<not> app_call (ListedDeployments ls gl)"
  "\<not> app_call (DeletedAllJobs ns ls gu)" "\<not> app_call (DeletedAllDeployments ns ls gu)"
  by (simp_all add: app_call_def)

lemma evidence_simps [simp]:
  "ready_evidence (GotWorkbench k (Inr w))  = xpra_ready w"
  "ready_evidence (UpdatedWorkbench w' (Inr w))  = xpra_ready w"
  "ready_evidence (UpdatedStatus w' (Inr w))  = xpra_ready w"
  "malformed_answer (GotDeployment k (Inr d)) = malformed d"
  "malformed_answer (CreatedDeployment d' (Inr d)) = malformed d"
  by (simp_all add: ready_evidence_def malformed_answer_def)

lemma createDeployment_summary:
  "emits (createDeployment r d) (\<lambda>x cs. list_all (\<lambda>c. \<not> app_call c) cs \<and>
     (\<forall>found. x = Inr found \<longrightarrow> malformed found \<longrightarrow> list_ex malformed_answer cs))"
  by (rule emits_post [OF createDeployment_emits]) (auto simp: sum_cases split: if_splits)

lemma updateServerPodHealth_summary:
  "emits (updateServerPodHealth r w d) (\<lambda>x cs. list_all (\<lambda>c. \<not> app_call c) cs \<and>
     (case x of
        Inl p \<Rightarrow> p = NilDereference \<and> malformed d
      | Inr y \<Rightarrow> xpra_ready (snd y) \<longrightarrow> list_ex ready_evidence cs))"
proof (rule emits_post [OF updateServerPodHealth_emits])
  fix x :: "(bool \<times> workbench) or_panic" and cs
  assume h: "case dep_selector d of
        None \<Rightarrow> x = Inl NilDereference \<and> cs = []
      | Some ls \<Rightarrow> (\<exists>l h. cs = [ListedPods (wb_namespace w) ls l] \<and> x = Inr (setServerPodHealth h w) \<and>
          (ph_ready h \<longrightarrow> (\<exists>pods p. l = Inr pods \<and> latest_pod pods = Some p \<and> server_pod_ready p)))"
  show "list_all (\<lambda>c. \<not> app_call c) cs \<and> (case x of
        Inl p \<Rightarrow> p = NilDereference \<and> malformed d
      | Inr y \<Rightarrow> xpra_ready (snd y) \<longrightarrow> list_ex ready_evidence cs)"
  proof (cases "dep_selector d")
    case None
    with h show ?thesis by (simp add: malformed_def)
  next
    case (Some ls)
    with h obtain l h where c: "cs = [ListedPods (wb_namespace w) ls l]" "x = Inr (setServerPodHealth h w)"
        "ph_ready h \<longrightarrow> (\<exists>pods p. l = Inr pods \<and> latest_pod pods = Some p \<and> server_pod_ready p)" by auto
    moreover have "xpra_ready (snd (setServerPodHealth h w)) = ph_ready h"
      by (simp add: xpra_ready_def)
    ultimately show ?thesis by (auto simp: ready_evidence_def)
  qed
qed

lemma write_status_summary:
  "emits (write_status r x) (\<lambda>w' cs. list_all (\<lambda>c. \<not> app_call c) cs \<and>
     (xpra_ready w' \<longrightarrow> xpra_ready (snd x) \<or> list_ex ready_evidence cs))"
  by (rule emits_post [OF write_status_emits]) (auto simp: sum_cases)

lemma reconcile_server_emits:
  assumes "d = d0\<lparr>dep_meta := m\<rparr>" "d0 = initDeployment wb cfg"
  shows "emits (reconcile_server r d w) (\<lambda>x cs. list_all (\<lambda>c. \<not> app_call c) cs \<and>
     (case x of
        Inl out \<Rightarrow> sound_outcome r (list_ex malformed_answer cs) out
      | Inr w' \<Rightarrow> xpra_ready w' \<longrightarrow> xpra_ready w \<or> list_ex ready_evidence cs))"
proof -
  have update: "emits (apply_server_update r d found v) (\<lambda>x cs. list_all (\<lambda>c. \<not> app_call c) cs \<and>
     (case x of Inl out \<Rightarrow> sound_outcome r (malformed found) out | Inr w' \<Rightarrow> w' = v))" for found v
    by (rule emits_post [OF apply_server_update_emits [OF assms]]) (auto elim!: list.pred_mono_strong dest: server_update_call_app)
  show ?thesis
    unfolding reconcile_server_def
    apply (rule emits_bind [OF createDeployment_summary])
    apply (rule emits_sum)
     apply simp
    apply (rule emits_prod)
    apply (rule emits_bind [OF updateServerPodHealth_summary])
    apply (rule emits_sum)
     apply fastforce
    apply (rule emits_prod)
    apply (rule emits_bind [OF write_status_summary])
    apply (rule emits_post [OF update])
    apply (auto split: sum.splits elim: sound_outcome_mono)
    done
qed

section \<open>Service, storage and applications\<close>

lemma app_call_CreatedJob [simp]: "app_call (CreatedJob j gu) \<longleftrightarrow> job_suspend j \<noteq> None"
  by (simp add: app_call_def)

text \<open>The storage of a workbench never touches the job of an application.\<close>

abbreviation app_free :: "('w, 'a) prog \<Rightarrow> bool" where
  "app_free m \<equiv> only_calls (\<lambda>c. \<not> app_call c) m"

lemma client_app_free [only_intros]:
  "app_free (GetSecret r k)" "app_free (GetCSIDriver r n)" "app_free (GetPV r n)" "app_free (GetPVC r k)"
  "app_free (CreatePersistentVolume r v)" "app_free (CreateClaim r c)" "app_free (RecordEvent r e)"
  by (simp_all add: client_defs only_calls_perform app_call_def)

lemma CreateJob_app_free: "job_suspend j = None \<Longrightarrow> app_free (CreateJob r j)"
  by (simp add: CreateJob_def only_calls_perform)

lemma setup_jobs_app_free [only_intros]:
  "app_free (CreateJob r (nfs_setup_job w server share))" "app_free (CreateJob r (local_setup_job cfg w))"
  by (simp_all add: CreateJob_app_free nfs_setup_job_def local_setup_job_def mkdir_job_def)

lemma config_app_free [only_intros]:
  "app_free (s3_getSecretConfig r b)" "app_free (nfs_getSecretConfig r b)"
  unfolding s3_getSecretConfig_def nfs_getSecretConfig_def base_getSecret_def by (intro only_intros)+

lemma provider_app_free [only_intros]:
  "app_free (HasDriver r p)" "app_free (HasSecret r p)" "app_free (Setup r p w)" "app_free (CreatePV r p w)"
  by (cases p; simp add: base_HasDriver_def base_hasCSIDriver_def local_HasDriver_def s3_HasSecret_def
      nfs_HasSecret_def local_HasSecret_def s3_Setup_def nfs_Setup_def local_Setup_def s3_CreatePV_def
      nfs_CreatePV_def local_CreatePV_def; intro only_intros)+

lemma processStorageProvider_app_free: "app_free (processStorageProvider r w p)"
  unfolding processStorageProvider_def ensure_volume_def ensure_claim_def record_if_present_def
  by (intro only_intros)

lemma process_all_app_free: "app_free (process_all r w ps m)"
  by (induction ps arbitrary: m) (auto intro!: only_intros processStorageProvider_app_free)

lemma ProcessEnabledStorage_emits:
  "emits (ProcessEnabledStorage r sm w) (\<lambda>x cs. (\<exists>m. x = Inr m) \<and> list_all (\<lambda>c. \<not> app_call c) cs)"
  unfolding ProcessEnabledStorage_def
  by (rule emits_bind [OF process_all_app_free [unfolded only_calls_def]]) simp

text \<open>What the loop over the applications and the removal of extra jobs can end with.\<close>

lemma is_suspended_error_simps [simp]:
  "is_suspended_error (SuspendedJob n)" "\<not> is_suspended_error (ApiFailure e)"
  by (simp_all add: is_suspended_error_def)

lemma createJob_emits:
  "emits (createJob r j) (\<lambda>x cs. \<exists>g tl. cs = GotJob (key (job_name j) (job_namespace j)) g # tl \<and>
     (case g of
        Inr found \<Rightarrow> x = Inr (Some found) \<and> tl = []
      | Inl e \<Rightarrow>
          if \<not> IsNotFound e then x = Inl (ApiFailure e) \<and> tl = []
          else if job_suspend j = Some True then x = Inl (SuspendedJob (job_name j)) \<and> tl = []
          else \<exists>c. tl = [CreatedJob j c] \<and> x = (case c of Inl e' \<Rightarrow> Inl (ApiFailure e') | Inr _ \<Rightarrow> Inr None)))"
  unfolding createJob_def GetJob_def CreateJob_def
  apply (rule emits_bind [OF emits_perform [where
          Q = "\<lambda>a cs. cs = [GotJob (key (job_name j) (job_namespace j)) a]"]], simp)
  apply (rule emits_sum)
   apply (rule emits_if)
    apply simp
   apply (rule emits_if)
    apply simp
   apply (rule emits_bind [OF emits_perform [where Q = "\<lambda>a cs. cs = [CreatedJob j a]"]])
    apply auto
  done

lemma createJob_fatal:
  "emits (createJob r j) (\<lambda>x cs. \<forall>e. x = Inl e \<longrightarrow> is_suspended_error e \<or> fatal_error e)"
  by (rule emits_post [OF createJob_emits]) (auto simp: sum_cases split: if_splits)

lemma reconcile_found_job_ends:
  "emits (reconcile_found_job r uid j found w) (\<lambda>x cs. \<forall>out. x = Inl out \<longrightarrow> (\<exists>e. out = Failed e \<and> fatal_error e))"
  unfolding reconcile_found_job_def UpdateJob_def
  apply (rule emits_bind [OF write_status_emits], rule emits_if)
   apply simp
  apply (rule emits_prod, rule emits_if)
   apply (rule emits_bind [OF emits_perform [where Q = "\<lambda>_ _. True"]])
    apply (auto split: sum.splits)
  done

lemma reconcile_app_ends:
  "emits (reconcile_app r svc sm uid app w) (\<lambda>x cs. \<forall>out. x = Inl out \<longrightarrow> (\<exists>e. out = Failed e \<and> fatal_error e))"
  unfolding reconcile_app_def
  apply (rule emits_bind [OF initJob_reads], rule emits_sum)
   apply (rule emits_bind [OF write_status_emits], simp)
  apply (rule emits_sum)
   apply (auto simp: set_owner_def split: sum.splits)[1]
  apply (simp only: Let_def)
  apply (rule emits_bind [OF createJob_fatal], rule emits_sum)
   apply auto[1]
  apply (rule emits_option)
   apply simp
  apply (rule emits_post [OF reconcile_found_job_ends], simp)
  done

lemma reconcile_apps_ends:
  "emits (reconcile_apps r svc sm apps w names) (\<lambda>x cs. \<forall>out. x = Inl out \<longrightarrow> (\<exists>e. out = Failed e \<and> fatal_error e))"
proof (induction apps arbitrary: w names)
  case (Cons a apps)
  show ?case
    by (cases a, simp only: reconcile_apps.simps, rule emits_bind [OF reconcile_app_ends], rule emits_sum, simp,
        rule emits_prod, rule emits_post [OF Cons.IH], simp)
qed simp

lemma remove_extra_jobs_ends:
  "emits (remove_extra_jobs r names js) (\<lambda>out cs. sound_outcome r b out)"
proof (induction js)
  case (Cons j js)
  show ?case
    unfolding remove_extra_jobs.simps deleteJob_def DeleteJob_def
    by (rule emits_if, rule emits_post [OF Cons.IH], simp,
        rule emits_bind [OF emits_perform [where Q = "\<lambda>_ _. True"]], simp, rule emits_sum, simp,
        rule emits_post [OF Cons.IH], simp)
qed simp

lemma reconcile_jobs_ends:
  "emits (reconcile_jobs r svc sm w) (\<lambda>out cs. sound_outcome r b out \<and>
     (xpra_ready w \<or> cs = []))"
  unfolding reconcile_jobs_def
  apply (rule emits_if)
   apply simp
  apply (rule emits_bind [OF reconcile_apps_ends], rule emits_sum)
   apply auto[1]
  apply (rule emits_prod)
  apply (simp only: sweep_jobs_def)
  apply (rule emits_bind [OF findJobs_emits], rule emits_sum)
   apply simp
  apply (rule emits_post [OF remove_extra_jobs_ends], simp)
  done

lemma reconcile_rest_emits:
  "emits (reconcile_rest r w) (\<lambda>out cs. sound_outcome r b out \<and>
     (xpra_ready w \<or> list_all (\<lambda>c. \<not> app_call c) cs))"
  unfolding reconcile_rest_def Let_def
  apply (rule emits_sum)
   apply (auto simp: set_owner_def split: sum.splits)[1]
  apply (rule emits_bind [OF createService_emits], rule emits_sum)
   apply auto[1]
  apply (rule emits_bind [OF ProcessEnabledStorage_emits], rule emits_sum)
   apply auto[1]
  apply (rule emits_post [OF reconcile_jobs_ends])
  apply auto
  done

section \<open>Deletion\<close>

abbreviation own_labels :: "workbench \<Rightarrow> string gomap" where
  "own_labels w \<equiv> [(matchingLabel, wb_name w)]"

text \<open>The calls a deletion may make: no creation, and deletions in the workbench's namespace only.\<close>

definition deletion_call :: "workbench \<Rightarrow> call \<Rightarrow> bool" where
  "deletion_call w c = (case c of
       Recorded e \<Rightarrow> e = deleting_event w
     | ListedJobs ls _ \<Rightarrow> ls = own_labels w
     | ListedDeployments ls _ \<Rightarrow> ls = own_labels w
     | DeletedAllJobs ns ls _ \<Rightarrow> ns = wb_namespace w \<and> ls = own_labels w
     | DeletedAllDeployments ns ls _ \<Rightarrow> ns = wb_namespace w \<and> ls = own_labels w
     | UpdatedWorkbench w' _ \<Rightarrow> \<exists>fs. w' = set_finalizers w fs
     | _ \<Rightarrow> False)"

definition finalizer_release :: "call \<Rightarrow> bool" where
  "finalizer_release c = (case c of UpdatedWorkbench _ _ \<Rightarrow> True | _ \<Rightarrow> False)"

definition deployment_listing :: "call \<Rightarrow> bool" where
  "deployment_listing c = (case c of ListedDeployments _ _ \<Rightarrow> True | _ \<Rightarrow> False)"

definition jobs_gone :: "call \<Rightarrow> bool" where
  "jobs_gone c = (case c of ListedJobs _ (Inr items) \<Rightarrow> items = [] | _ \<Rightarrow> False)"

definition deployments_gone :: "call \<Rightarrow> bool" where
  "deployments_gone c = (case c of ListedDeployments _ (Inr items) \<Rightarrow> items = [] | _ \<Rightarrow> False)"

text \<open>Jobs first, then the deployment, then the finalizer, each only when what is before it is gone.\<close>

definition deletion_order :: "call list \<Rightarrow> bool" where
  "deletion_order cs \<longleftrightarrow>
     preceded deployment_listing jobs_gone cs \<and>
     preceded finalizer_release jobs_gone cs \<and>
     preceded finalizer_release deployments_gone cs"

lemmas deletion_kinds =
  deletion_call_def finalizer_release_def deployment_listing_def jobs_gone_def deployments_gone_def

lemma deleteExternalResources_emits:
  "emits (deleteExternalResources r w) (\<lambda>x cs. list_all (deletion_call w) cs \<and> deletion_order cs \<and>
     list_all (\<lambda>c. \<not> finalizer_release c) cs \<and>
     (case x of
        Inl p \<Rightarrow> p = NilDereference \<and> \<not> rc_has_recorder r
      | Inr (Inl e) \<Rightarrow> fatal_error e
      | Inr (Inr n) \<Rightarrow> if n = 0 then list_ex jobs_gone cs \<and> list_ex deployments_gone cs else list_ex is_delete cs))"
  unfolding deleteExternalResources_def
  apply (rule emits_bind [OF emit_event_emits], rule emits_sum)
   apply (auto simp: deletion_order_def)[1]
  apply (rule emits_bind [OF deleteJobs_emits], rule emits_sum)
   apply (force simp: deletion_kinds deletion_order_def sum_cases split: if_splits)
  apply (rule emits_if)
   apply (force simp: deletion_kinds deletion_order_def sum_cases is_delete_def split: if_splits)
  apply (rule emits_bind [OF deleteDeployments_emits])
  apply (auto simp: deletion_kinds deletion_order_def sum_cases is_delete_def split: if_splits)
  done

lemma reconcile_deletion_emits:
  "emits (reconcile_deletion r w) (\<lambda>out cs. list_all (deletion_call w) cs \<and> deletion_order cs \<and>
     sound_outcome r b out \<and> (out = Finished (5 * second) \<longrightarrow> list_ex is_delete cs) \<and>
     (\<forall>t. out = Finished t \<longrightarrow> t \<noteq> 2 * second))"
proof -
  have seconds: "second \<noteq> 0" "0 \<noteq> second" "5 * second \<noteq> 2 * second" by (simp_all add: second_def)
  show ?thesis
  unfolding reconcile_deletion_def UpdateWorkbench_def
  apply (rule emits_if)
   apply (rule emits_bind [OF deleteExternalResources_emits], rule emits_sum)
    apply (auto simp: seconds split: panic.splits)[1]
   apply (rule emits_sum)
    apply (simp add: seconds)
   apply (rule emits_if)
    apply (simp add: seconds)
   apply (rule emits_prod, rule emits_if)
    apply (rule emits_bind [OF emits_perform [where Q = "\<lambda>a cs. \<exists>fs. cs = [UpdatedWorkbench (set_finalizers w fs) a]"]])
     apply blast
    apply (auto simp: seconds deletion_order_def deletion_kinds preceded_none split: sum.splits)
  done
qed

lemma deletion_app_free: "deletion_call w c \<Longrightarrow> \<not> app_call c \<and> \<not> is_create c"
  by (cases c) (auto simp: deletion_call_def is_create_def)

section \<open>The whole function\<close>

lemma preceded_after: "list_all (\<lambda>c. \<not> A c) xs \<Longrightarrow> preceded A B ys \<or> list_ex B xs \<Longrightarrow> preceded A B (xs @ ys)"
  by (auto simp: preceded_none)

lemma reconcile_live_emits:
  "emits (reconcile_live r w) (\<lambda>out cs. sound_outcome r (list_ex malformed_answer cs) out \<and>
     (xpra_ready w \<or> preceded app_call ready_evidence cs))"
  unfolding reconcile_live_def Let_def
  apply (rule emits_sum)
   apply (auto simp: set_owner_def split: sum.splits)[1]
  apply (rule emits_bind [OF reconcile_server_emits [OF refl refl]], rule emits_sum)
   apply (auto simp: preceded_none)[1]
  apply (rule emits_post [OF reconcile_rest_emits [where b = False]])
  apply (auto simp: preceded_none elim: sound_outcome_mono)
  done

lemma ensure_finalizer_summary:
  "emits (ensure_finalizer r w) (\<lambda>x cs. list_all (\<lambda>c. \<not> app_call c) cs \<and>
     (\<forall>w'. x = Inr w' \<longrightarrow> xpra_ready w' \<longrightarrow> xpra_ready w \<or> list_ex ready_evidence cs))"
  by (rule emits_post [OF ensure_finalizer_emits]) (auto split: prod.splits if_splits)

lemma GetWorkbench_emits: "emits (GetWorkbench r k) (\<lambda>g cs. cs = [GotWorkbench k g])"
  by (simp add: GetWorkbench_def emits_perform)

lemma Reconcile_emits:
  "emits (Reconcile r k) (\<lambda>out cs. sound_outcome r (list_ex malformed_answer cs) out \<and>
     preceded app_call ready_evidence cs)"
proof -
  have deletion: "preceded app_call B cs" if "list_all (deletion_call w) cs" for B w cs
    using that by (induction cs) (auto dest: deletion_app_free)
  show ?thesis
    unfolding Reconcile_def
    apply (rule emits_bind [OF GetWorkbench_emits], rule emits_sum)
     apply simp
    apply (rule emits_if)
     apply (rule emits_post [OF reconcile_deletion_emits [where b = False]])
     apply (auto intro: deletion elim: sound_outcome_mono)[1]
    apply (rule emits_bind [OF ensure_finalizer_summary], rule emits_sum)
     apply (auto simp: preceded_none)[1]
    apply (rule emits_post [OF reconcile_live_emits])
    apply (auto simp: preceded_none elim: sound_outcome_mono)
    done
qed

text \<open>The finalizer is known to be set before anything is created.\<close>

definition finalizer_evidence :: "call \<Rightarrow> bool" where
  "finalizer_evidence c = (case c of
       GotWorkbench _ (Inr w) \<Rightarrow> finalizer \<in> set (om_finalizers (wb_meta w))
     | UpdatedWorkbench w (Inr _) \<Rightarrow> finalizer \<in> set (om_finalizers (wb_meta w))
     | _ \<Rightarrow> False)"

lemma ensure_finalizer_laws:
  assumes "finalizer_laws (rc_platform r)"
  shows "emits (ensure_finalizer r w) (\<lambda>x cs. list_all (\<lambda>c. \<not> is_create c) cs \<and>
    ((\<exists>w'. x = Inr w') \<longrightarrow> finalizer \<in> set (om_finalizers (wb_meta w)) \<or> list_ex finalizer_evidence cs))"
proof (rule emits_post [OF ensure_finalizer_emits])
  obtain b fs where add: "pf_add_finalizer (rc_platform r) (om_finalizers (wb_meta w)) finalizer = (b, fs)"
    by fastforce
  have laws: "contains_finalizer r w \<longleftrightarrow> finalizer \<in> set (om_finalizers (wb_meta w))"
      "b \<longleftrightarrow> finalizer \<notin> set (om_finalizers (wb_meta w))" "finalizer \<in> set fs"
    using assms add unfolding finalizer_laws_def contains_finalizer_def
    by (metis fst_conv, metis fst_conv, metis insertI1 snd_conv)
  fix x :: "workbench reply" and cs
  assume "(contains_finalizer r w \<and> cs = [] \<and> x = Inr w) \<or>
     (\<not> contains_finalizer r w \<and>
      (case pf_add_finalizer (rc_platform r) (om_finalizers (wb_meta w)) finalizer of (b, fs) \<Rightarrow>
         if b then cs = [UpdatedWorkbench (set_finalizers w fs) x] else cs = [] \<and> x = Inr (set_finalizers w fs)))"
  then show "list_all (\<lambda>c. \<not> is_create c) cs \<and>
    ((\<exists>w'. x = Inr w') \<longrightarrow> finalizer \<in> set (om_finalizers (wb_meta w)) \<or> list_ex finalizer_evidence cs)"
    using laws add
    by (auto simp: is_create_def finalizer_evidence_def set_finalizers_def split: if_splits)
qed

lemma Reconcile_finalizer_first:
  assumes "finalizer_laws (rc_platform r)"
  shows "emits (Reconcile r k) (\<lambda>_ cs. preceded is_create finalizer_evidence cs)"
proof -
  have deletion: "preceded is_create B cs" if "list_all (deletion_call w) cs" for B w cs
    using that by (induction cs) (auto dest: deletion_app_free)
  show ?thesis
    unfolding Reconcile_def
    apply (rule emits_bind [OF GetWorkbench_emits], rule emits_sum)
     apply (simp add: is_create_def)
    apply (rule emits_if)
     apply (rule emits_post [OF reconcile_deletion_emits])
     apply (auto simp: is_create_def intro: deletion)[1]
    apply (rule emits_bind [OF ensure_finalizer_laws [OF assms]], rule emits_sum)
     apply (auto simp: is_create_def preceded_none)[1]
    apply (rule emits_post [OF reconcile_live_emits])
    apply (auto simp: is_create_def preceded_none finalizer_evidence_def)
    done
qed

end
