(* ===== verification/Reconciler_Jobs.thy ===== *)
theory Reconciler_Jobs
  imports Reconciler_Order
begin

text \<open>
  What a pass over the applications achieves: the fate of each application
  (\<open>app_fate\<close>), and the removal of the jobs no application wants. The hypotheses
  \<open>owner_laws\<close> and \<open>status_laws\<close> are what the code relies on in the API.
\<close>

section \<open>Removal of extra jobs\<close>

definition extra_jobs :: "string list \<Rightarrow> job list \<Rightarrow> job list" where
  "extra_jobs names items = filter (\<lambda>j. job_name j \<notin> set names) items"

abbreviation deleted :: "job list \<Rightarrow> call list" where
  "deleted js \<equiv> map (\<lambda>j. DeletedJob j (Inr ())) js"

definition sweep_result :: "job list \<Rightarrow> outcome \<Rightarrow> call list \<Rightarrow> bool" where
  "sweep_result extra out cs \<longleftrightarrow>
     (out = Finished 0 \<and> cs = deleted extra) \<or>
     (\<exists>before j after e. extra = before @ j # after \<and> out = Failed (ApiFailure e) \<and>
        cs = deleted before @ [DeletedJob j (Inl e)])"

lemma sweep_result_step: "sweep_result extra out cs \<Longrightarrow> sweep_result (j # extra) out (DeletedJob j (Inr ()) # cs)"
  unfolding sweep_result_def
  by (elim disjE exE conjE, simp, rule disjI2, rule exI [of _ "j # _"], simp, blast)

lemma remove_extra_jobs_emits:
  "emits (remove_extra_jobs r (SortSlice names) js) (sweep_result (extra_jobs names js))"
proof (induction js)
  case Nil
  show ?case by (simp add: sweep_result_def extra_jobs_def)
next
  case (Cons j js)
  show ?case
    unfolding remove_extra_jobs.simps name_search.member_prepare deleteJob_def DeleteJob_def
  proof (rule emits_if)
    assume "job_name j \<in> set names"
    then have "extra_jobs names (j # js) = extra_jobs names js" by (simp add: extra_jobs_def)
    then show "emits (remove_extra_jobs r (SortSlice names) js) (sweep_result (extra_jobs names (j # js)))"
      using Cons.IH by simp
  next
    assume "job_name j \<notin> set names"
    then have extra: "extra_jobs names (j # js) = j # extra_jobs names js" by (simp add: extra_jobs_def)
    show "emits (perform (pf_delete_job (rc_platform r) j) (DeletedJob j) \<bind>
        case_sum (\<lambda>e. State_Monad.return (Failed (ApiFailure e))) (\<lambda>_. remove_extra_jobs r (SortSlice names) js))
        (sweep_result (extra_jobs names (j # js)))"
      unfolding extra
      apply (rule emits_bind [OF emits_perform [where Q = "\<lambda>a cs. cs = [DeletedJob j a]"]], simp)
      apply (rule emits_sum)
       apply (simp add: sweep_result_def)
      apply (rule emits_post [OF Cons.IH])
      apply (simp add: sweep_result_step)
      done
  qed
qed

lemma sweep_jobs_emits:
  "emits (sweep_jobs r w names) (\<lambda>out cs. \<exists>l tl. cs = ListedJobs (own_labels w) l # tl \<and>
     (case l of
        Inl e \<Rightarrow> out = Failed (ApiFailure e) \<and> tl = []
      | Inr items \<Rightarrow> sweep_result (extra_jobs names items) out tl))"
  unfolding sweep_jobs_def
  apply (rule emits_bind [OF findJobs_emits], rule emits_sum)
   apply simp
  apply (rule emits_post [OF remove_extra_jobs_emits])
  apply simp
  done

section \<open>The fate of an application\<close>

definition app_failed :: "config \<Rightarrow> workbench_app \<Rightarrow> call list \<Rightarrow> bool" where
  "app_failed cfg app cs \<longleftrightarrow> getAppName app = [] \<or>
     list_ex (\<lambda>c. inspection_call (fst (app_image_ref cfg app)) c \<and> \<not> clean_run c) cs"

definition app_waits :: "workbench \<Rightarrow> string \<Rightarrow> workbench_app \<Rightarrow> call list \<Rightarrow> bool" where
  "app_waits w uid app cs \<longleftrightarrow> app_suspended app \<and>
     GotJob (key (app_job_name w uid app) (wb_namespace w)) (Inl NotFound) \<in> set cs"

definition app_created :: "workbench \<Rightarrow> string \<Rightarrow> workbench_app \<Rightarrow> call list \<Rightarrow> bool" where
  "app_created w uid app cs \<longleftrightarrow> \<not> app_suspended app \<and>
     (\<exists>j. CreatedJob j (Inr ()) \<in> set cs \<and> job_name j = app_job_name w uid app \<and>
        job_namespace j = wb_namespace w \<and> job_suspend j = Some False)"

definition app_kept :: "workbench \<Rightarrow> string \<Rightarrow> workbench_app \<Rightarrow> call list \<Rightarrow> bool" where
  "app_kept w uid app cs \<longleftrightarrow>
     (\<exists>found. GotJob (key (app_job_name w uid app) (wb_namespace w)) (Inr found) \<in> set cs \<and>
        job_name found = app_job_name w uid app \<and>
        (job_suspend found = Some (app_suspended app) \<or>
         UpdatedJob (found\<lparr>job_suspend := Some (app_suspended app)\<rparr>) (Inr ()) \<in> set cs))"

text \<open>With the names it adds to the list of jobs to keep.\<close>

definition app_fate :: "config \<Rightarrow> workbench \<Rightarrow> string \<Rightarrow> workbench_app \<Rightarrow> call list \<Rightarrow> string list \<Rightarrow> bool" where
  "app_fate cfg w uid app cs names \<longleftrightarrow>
     (names = [] \<and> (app_failed cfg app cs \<or> app_waits w uid app cs)) \<or>
     (names = [app_job_name w uid app] \<and> (app_created w uid app cs \<or> app_kept w uid app cs))"

lemmas app_fate_defs = app_fate_def app_failed_def app_waits_def app_created_def app_kept_def

definition same_identity :: "workbench \<Rightarrow> workbench \<Rightarrow> bool" where
  "same_identity w w' \<longleftrightarrow> wb_name w' = wb_name w \<and> wb_namespace w' = wb_namespace w \<and> wb_spec w' = wb_spec w"

lemma same_identity_refl [simp]: "same_identity w w"
  by (simp add: same_identity_def)

lemma same_identity_trans: "same_identity u v \<Longrightarrow> same_identity v w \<Longrightarrow> same_identity u w"
  by (simp add: same_identity_def)

lemma same_spec_identity: "same_spec w w' \<Longrightarrow> same_identity w w'"
  by (simp add: same_spec_def same_identity_def)

lemma app_fate_identity: "same_identity w w' \<Longrightarrow> app_fate cfg w' uid app cs names = app_fate cfg w uid app cs names"
  by (simp add: app_fate_defs app_job_name_def same_identity_def)

lemma app_fate_append:
  "app_fate cfg w uid app cs names \<Longrightarrow> app_fate cfg w uid app (before @ cs @ after) names"
  unfolding app_fate_defs by auto

lemma write_status_identity:
  assumes "status_laws (rc_platform r)"
  shows "emits (write_status r x) (\<lambda>w' cs. same_identity (snd x) w')"
proof -
  have "emits (perform (pf_update_status (rc_platform r) w) (UpdatedStatus w))
      (\<lambda>u cs. \<forall>w'. u = Inr w' \<longrightarrow> same_identity w w')" for w
    by (rule emits_perform_of) (use assms in \<open>auto simp: status_laws_def same_identity_def\<close>)
  then show ?thesis
    unfolding write_status_def UpdateStatus_def
    by (intro emits_prod emits_if, simp_all)
       (rule emits_bind, assumption, auto split: sum.splits)
qed

lemma failed_run: "found \<noteq> [] \<Longrightarrow> collision_seen found c \<Longrightarrow> \<not> clean_run c"
  by (cases c) (auto simp: collision_seen_def clean_run_def split: option.splits)

lemma updateJob_cases:
  "job_suspend j = Some b \<Longrightarrow>
   updateJob j found = (job_suspend found \<noteq> Some b, found\<lparr>job_suspend := Some b\<rparr>)"
  by (cases found) (auto simp: updateJob_def)

lemma reconcile_found_job_fate:
  assumes laws: "status_laws (rc_platform r)" and b: "job_suspend j = Some b"
  shows "emits (reconcile_found_job r uid j found w) (\<lambda>x cs. \<forall>w' names. x = Inr (w', names) \<longrightarrow>
     same_identity w w' \<and> names = [job_name j] \<and> job_name found = job_name j \<and>
     (job_suspend found = Some b \<or> UpdatedJob (found\<lparr>job_suspend := Some b\<rparr>) (Inr ()) \<in> set cs))"
proof -
  have start: "same_identity w v" if "same_identity (snd (UpdateStatusFromJob e w)) v" for e v
    using same_identity_trans [OF same_spec_identity [OF job_status.frame] that] .
  show ?thesis
    unfolding reconcile_found_job_def UpdateJob_def updateJob_cases [OF b] prod.case
    apply (rule emits_bind [OF write_status_identity [OF laws]])
    apply (rule emits_if)
     apply simp
    apply (rule emits_if)
     apply (rule emits_bind [OF emits_perform [where
            Q = "\<lambda>a cs. cs = [UpdatedJob (found\<lparr>job_suspend := Some b\<rparr>) a]"]], simp)
     apply (auto dest: start split: sum.splits)
    done
qed

lemma set_owner_fields:
  assumes "owner_laws (rc_platform r)" "set_owner r w m = Inr m'"
  shows "om_name m' = om_name m" "om_namespace m' = om_namespace m" "om_labels m' = om_labels m"
  using assms by (auto simp: set_owner_def owner_laws_def split: sum.splits)

lemma reconcile_app_fate:
  assumes laws: "owner_laws (rc_platform r)" "status_laws (rc_platform r)"
  shows "emits (reconcile_app r svc sm uid app w) (\<lambda>x cs. \<forall>w' names. x = Inr (w', names) \<longrightarrow>
     same_identity w w' \<and> app_fate (rc_config r) w uid app cs names)"
proof -
  let ?calls = "\<lambda>cfg. list_all (\<lambda>c. secret_read c \<or> inspection_call (fst (app_image_ref cfg app)) c)"
  have failed: "app_failed cfg app (cs @ ds)"
    if "initJob_result cfg w uid app svc sm (Inl e) cs" "?calls cfg cs" for cfg e cs ds
    using that failed_run secret_read_facts
    by (fastforce simp: initJob_result_def app_failed_def list_ex_iff list_all_iff)
  have start: "same_identity w v" if "same_identity (snd (SetAppStatusFailed uid w)) v" for v
    using same_identity_trans [OF same_spec_identity [OF failed_status.frame] that] .
  show ?thesis
    unfolding reconcile_app_def
    apply (rule emits_bind [OF initJob_emits], rule emits_sum)
     apply (rule emits_bind [OF write_status_identity [OF laws(2)]])
     apply (auto simp: app_fate_def dest: failed start)[1]
    apply (rule emits_sum)
     apply simp
    subgoal premises prems for x cs j0 m
    proof -
      define j where "j = j0\<lparr>job_meta := m\<rparr>"
      have built: "\<exists>vs ms. j0 = build_job (rc_config r) w uid app svc vs ms"
        using prems by (auto simp: initJob_result_def)
      then have j: "job_name j = app_job_name w uid app" "job_namespace j = wb_namespace w"
          "job_suspend j = Some (app_suspended app)"
        using set_owner_fields [OF laws(1) prems(3)] by (auto simp: j_def)
      show ?thesis
        unfolding Let_def j_def [symmetric]
        apply (rule emits_bind [OF createJob_emits], rule emits_sum)
        subgoal
          by (auto simp: is_suspended_error_def app_fate_def app_waits_def j IsNotFound_def sum_cases
              split: if_splits)
        apply (rule emits_option)
         apply (auto simp: app_fate_def app_created_def j sum_cases split: if_splits)[1]
        apply (rule emits_post [OF reconcile_found_job_fate [OF laws(2) j(3)]])
        apply (auto simp: app_fate_def app_kept_def j sum_cases split: if_splits)
        done
    qed
    done
qed

section \<open>All applications\<close>

definition apps_fates ::
  "config \<Rightarrow> workbench \<Rightarrow> workbench_app gomap \<Rightarrow> call list \<Rightarrow> string list list \<Rightarrow> bool" where
  "apps_fates cfg w apps cs nss \<longleftrightarrow> list_all2 (\<lambda>(uid, app) ns. app_fate cfg w uid app cs ns) apps nss"

lemma apps_fates_simps [simp]:
  "apps_fates cfg w [] cs nss \<longleftrightarrow> nss = []"
  "apps_fates cfg w ((uid, app) # apps) cs nss \<longleftrightarrow>
     (\<exists>ns nss'. nss = ns # nss' \<and> app_fate cfg w uid app cs ns \<and> apps_fates cfg w apps cs nss')"
  by (auto simp: apps_fates_def list_all2_Cons1)

lemma apps_fates_append:
  "apps_fates cfg w apps cs nss \<Longrightarrow> apps_fates cfg w apps (before @ cs @ after) nss"
  unfolding apps_fates_def by (erule list_all2_mono) (auto dest: app_fate_append)

lemma apps_fates_identity: "same_identity w w' \<Longrightarrow> apps_fates cfg w' = apps_fates cfg w"
  by (intro ext) (auto simp: apps_fates_def app_fate_identity)

lemma reconcile_apps_fates:
  assumes laws: "owner_laws (rc_platform r)" "status_laws (rc_platform r)"
  shows "emits (reconcile_apps r svc sm apps w names) (\<lambda>x cs. \<forall>w' names'. x = Inr (w', names') \<longrightarrow>
     same_identity w w' \<and> (\<exists>nss. names' = names @ concat nss \<and> apps_fates (rc_config r) w apps cs nss))"
proof (induction apps arbitrary: w names)
  case (Cons a apps)
  obtain uid app where a: "a = (uid, app)" by fastforce
  show ?case
    unfolding a reconcile_apps.simps
  proof (rule emits_bind [OF reconcile_app_fate [OF laws]], rule emits_sum, simp, rule emits_prod)
    fix x cs y w1 ns
    assume first: "\<forall>w' names. x = Inr (w', names) \<longrightarrow> same_identity w w' \<and> app_fate (rc_config r) w uid app cs names"
      and x: "x = Inr y" "y = (w1, ns)"
    have one: "same_identity w w1" "app_fate (rc_config r) w uid app cs ns" using first x by auto
    show "emits (reconcile_apps r svc sm apps w1 (names @ ns)) (\<lambda>z ds. \<forall>w' names'. z = Inr (w', names') \<longrightarrow>
        same_identity w w' \<and> (\<exists>nss. names' = names @ concat nss \<and>
          apps_fates (rc_config r) w ((uid, app) # apps) (cs @ ds) nss))"
    proof (rule emits_post [OF Cons.IH], intro allI impI)
      fix z ds w' names'
      assume "\<forall>w' names'. z = Inr (w', names') \<longrightarrow> same_identity w1 w' \<and>
          (\<exists>nss. names' = (names @ ns) @ concat nss \<and> apps_fates (rc_config r) w1 apps ds nss)"
        and z: "z = Inr (w', names')"
      then obtain nss where rest: "same_identity w1 w'" "names' = (names @ ns) @ concat nss"
          "apps_fates (rc_config r) w apps ds nss"
        using apps_fates_identity [OF one(1)] by auto
      have "apps_fates (rc_config r) w ((uid, app) # apps) (cs @ ds) (ns # nss)"
        using app_fate_append [OF one(2), of "[]" ds] apps_fates_append [OF rest(3), of cs "[]"] by simp
      then show "same_identity w w' \<and> (\<exists>nss. names' = names @ concat nss \<and>
          apps_fates (rc_config r) w ((uid, app) # apps) (cs @ ds) nss)"
        using same_identity_trans [OF one(1) rest(1)] rest(2) by (intro conjI exI [of _ "ns # nss"]) auto
    qed
  qed
qed simp

text \<open>
  A pass that ends without an error or a request to come back has settled every application,
  and of the jobs listed exactly those are deleted whose name no application keeps.
\<close>

definition settled_pass :: "config \<Rightarrow> workbench \<Rightarrow> call list \<Rightarrow> bool" where
  "settled_pass cfg w cs \<longleftrightarrow>
     (\<exists>before nss items. cs = before @ ListedJobs (own_labels w) (Inr items) # deleted (extra_jobs (concat nss) items) \<and>
        apps_fates cfg w (wb_apps w) before nss)"

lemma reconcile_jobs_settles:
  assumes laws: "owner_laws (rc_platform r)" "status_laws (rc_platform r)" and ready: "xpra_ready w"
  shows "emits (reconcile_jobs r svc sm w) (\<lambda>out cs. \<forall>t. out = Finished t \<longrightarrow> t = 0 \<and> settled_pass (rc_config r) w cs)"
proof -
  have sweep: "settled_pass (rc_config r) w (before @ ListedJobs (own_labels w') (Inr items) # tl) \<and> t = 0"
    if "same_identity w w'" "apps_fates (rc_config r) w (wb_apps w) before nss"
       "sweep_result (extra_jobs (concat nss) items) (Finished t) tl" for before w' nss items tl t
    using that unfolding settled_pass_def sweep_result_def same_identity_def by fastforce
  show ?thesis
    unfolding reconcile_jobs_def
    apply (simp add: ready)
    apply (rule emits_bind [OF emits_conj [OF reconcile_apps_fates [OF laws] reconcile_apps_ends]], rule emits_sum)
     apply auto[1]
    apply (rule emits_prod)
    apply (rule emits_post [OF sweep_jobs_emits])
    apply (auto simp: sum_cases dest: sweep)
    done
qed

section \<open>A whole run on a live workbench\<close>

lemma settled_pass_identity: "same_identity w w' \<Longrightarrow> settled_pass cfg w' cs = settled_pass cfg w cs"
  by (simp add: settled_pass_def apps_fates_identity) (simp add: same_identity_def)

lemma set_finalizers_identity [simp]: "same_identity w (set_finalizers w fs)"
  by (simp add: same_identity_def set_finalizers_def)

lemma ensure_finalizer_identity:
  assumes "update_laws (rc_platform r)"
  shows "emits (ensure_finalizer r w) (\<lambda>x cs. \<forall>w'. x = Inr w' \<longrightarrow> same_identity w w')"
proof -
  have "emits (perform (pf_update_workbench (rc_platform r) (set_finalizers w fs)) (UpdatedWorkbench (set_finalizers w fs)))
      (\<lambda>x cs. \<forall>w'. x = Inr w' \<longrightarrow> same_identity w w')" for fs
    by (rule emits_perform_of)
       (use assms in \<open>auto simp: update_laws_def same_identity_def set_finalizers_def\<close>)
  then show ?thesis
    unfolding ensure_finalizer_def UpdateWorkbench_def by (intro emits_if emits_prod) simp_all
qed

lemma reconcile_server_identity:
  assumes "status_laws (rc_platform r)"
  shows "emits (reconcile_server r (initDeployment w0 cfg\<lparr>dep_meta := m\<rparr>) w)
    (\<lambda>x cs. (\<forall>w'. x = Inr w' \<longrightarrow> same_identity w w') \<and> (\<forall>t. x \<noteq> Inl (Finished t)))"
proof -
  have health: "same_identity w v"
    if "(b, w2) = setServerPodHealth h w1" "UpdateStatusFromDeployment found w = (u, w1)"
       "same_identity w2 v" for h w1 found u b w2 v
  proof -
    have "w2 = snd (setServerPodHealth h w1)" "w1 = snd (UpdateStatusFromDeployment found w)"
      using that(1,2) by (metis snd_conv)+
    then have "same_identity w w1" "same_identity w1 w2"
      using same_spec_identity [OF deployment_status.frame] same_spec_identity [OF pod_health.frame] by simp_all
    then show ?thesis using that(3) same_identity_trans by blast
  qed
  have update: "emits (apply_server_update r d found v) (\<lambda>x cs. (\<forall>w'. x = Inr w' \<longrightarrow> w' = v) \<and>
      (\<forall>t. x \<noteq> Inl (Finished t)))" for d found v
    unfolding apply_server_update_def UpdateDeployment_def
    by (rule emits_sum, simp, rule emits_prod, rule emits_if, rule emits_bind [OF emit_event_emits],
        rule emits_sum, simp, rule emits_bind [OF emits_perform [where Q = "\<lambda>_ _. True"]], simp)
       (auto split: sum.splits)
  show ?thesis
    unfolding reconcile_server_def
    apply (rule emits_bind [OF createDeployment_emits], rule emits_sum)
     apply simp
    apply (rule emits_prod)
    apply (rule emits_bind [OF updateServerPodHealth_emits], rule emits_sum)
     apply simp
    apply (rule emits_prod)
    apply (rule emits_bind [OF write_status_identity [OF assms]])
    apply (rule emits_post [OF update])
    apply (auto split: option.splits dest: health)
    done
qed

lemma reconcile_rest_settles:
  assumes laws: "owner_laws (rc_platform r)" "status_laws (rc_platform r)"
  shows "emits (reconcile_rest r w) (\<lambda>out cs. out = Finished 0 \<longrightarrow>
    (\<exists>before after. cs = before @ after \<and> settled_pass (rc_config r) w after))"
proof -
  have jobs: "emits (reconcile_jobs r svc sm w) (\<lambda>out cs. out = Finished 0 \<longrightarrow> settled_pass (rc_config r) w cs)"
    for svc sm
  proof (cases "xpra_ready w")
    case True
    then show ?thesis by (intro emits_post [OF reconcile_jobs_settles [OF laws]]) auto
  next
    case False
    then show ?thesis by (simp add: reconcile_jobs_def second_def)
  qed
  show ?thesis
    unfolding reconcile_rest_def Let_def
    apply (rule emits_sum)
     apply simp
    apply (rule emits_bind [OF createService_emits], rule emits_sum)
     apply simp
    apply (rule emits_bind [OF ProcessEnabledStorage_emits], rule emits_sum)
     apply simp
    apply (rule emits_post [OF jobs])
    apply (metis append_assoc)
    done
qed

lemma Reconcile_settles:
  assumes laws: "owner_laws (rc_platform r)" "status_laws (rc_platform r)" "update_laws (rc_platform r)"
  shows "emits (Reconcile r k) (\<lambda>out cs. \<exists>g tl. cs = GotWorkbench k g # tl \<and>
    (\<forall>w. g = Inr w \<longrightarrow> \<not> being_deleted w \<longrightarrow> out = Finished 0 \<longrightarrow>
      (\<exists>before after. tl = before @ after \<and> settled_pass (rc_config r) w after)))"
proof -
  have rest: "emits (reconcile_live r w) (\<lambda>out cs. out = Finished 0 \<longrightarrow>
      (\<exists>before after. cs = before @ after \<and> settled_pass (rc_config r) w after))" for w
    unfolding reconcile_live_def Let_def
    apply (rule emits_sum)
     apply simp
    apply (rule emits_bind [OF reconcile_server_identity [OF laws(2)]], rule emits_sum)
     apply simp
    apply (rule emits_post [OF reconcile_rest_settles [OF laws(1,2)]])
    apply (metis append_assoc settled_pass_identity)
    done
  show ?thesis
    unfolding Reconcile_def
    apply (rule emits_bind [OF GetWorkbench_emits], rule emits_sum)
     apply simp
    apply (rule emits_if)
     apply (rule emits_post [OF reconcile_deletion_emits [where b = False]], simp)
    apply (rule emits_bind [OF ensure_finalizer_identity [OF laws(3)]], rule emits_sum)
     apply simp
    apply (rule emits_post [OF rest])
    apply (auto simp: settled_pass_identity)
    apply (metis append_assoc settled_pass_identity)
    done
qed

end
