(* ===== verification/Reconciler_Bounds.thy ===== *)
theory Reconciler_Bounds
  imports Reconciler_Jobs
begin

text \<open>
  How many calls one call of \<open>Reconcile\<close> makes at most: a constant, a constant for each application
  of the workbench, and one for each job that was listed (which it may delete).
  \<open>costs n m\<close> says that a run of \<open>m\<close> makes at most \<open>n\<close> calls beyond the jobs it lists; its rules
  subtract what a step costs from what is left.
\<close>

section \<open>Counting calls\<close>

definition listed_jobs :: "call \<Rightarrow> nat" where
  "listed_jobs c = (case c of ListedJobs _ (Inr items) \<Rightarrow> length items | _ \<Rightarrow> 0)"

definition listed_count :: "call list \<Rightarrow> nat" where
  "listed_count cs = sum_list (map listed_jobs cs)"

lemma listed_count_simps [simp]:
  "listed_count [] = 0" "listed_count (c # cs) = listed_jobs c + listed_count cs"
  "listed_count (xs @ ys) = listed_count xs + listed_count ys"
  by (simp_all add: listed_count_def)

definition costs :: "nat \<Rightarrow> ('w, 'a) prog \<Rightarrow> bool" where
  "costs n m \<longleftrightarrow> emits m (\<lambda>_ cs. length cs \<le> n + listed_count cs)"

named_theorems costs_intros \<open>rules for the number of calls\<close>

lemma costs_mono: "costs a m \<Longrightarrow> a \<le> n \<Longrightarrow> costs n m"
  unfolding costs_def by (erule emits_post) simp

lemma costs_emits: "emits m Q \<Longrightarrow> (\<And>x cs. Q x cs \<Longrightarrow> length cs \<le> n) \<Longrightarrow> costs n m"
  unfolding costs_def by (erule emits_post) (fastforce intro: le_trans)

lemma costs_return [costs_intros]: "costs n (State_Monad.return a)"
  by (simp add: costs_def)

lemma costs_observe [costs_intros]: "costs n (observe f)"
  by (simp add: costs_def emits_observe)

lemma costs_perform: "costs 1 (perform f c)"
  by (rule costs_emits [OF emits_perform [where Q = "\<lambda>_ cs. length cs = 1"]]) simp_all

lemma costs_bind:
  assumes "costs a m" "a \<le> n" "\<And>x. costs (n - a) (f x)"
  shows "costs n (State_Monad.bind m f)"
  unfolding costs_def
proof (rule emits_bind [OF assms(1) [unfolded costs_def]], rule emits_post [OF assms(3) [unfolded costs_def]])
  fix x y and cs ds :: "call list"
  assume "length cs \<le> a + listed_count cs" "length ds \<le> n - a + listed_count ds"
  then show "length (cs @ ds) \<le> n + listed_count (cs @ ds)" using assms(2) by simp
qed

lemma costs_cases [costs_intros]:
  "costs n m \<Longrightarrow> costs n m' \<Longrightarrow> costs n (if b then m else m')"
  "(\<And>e. costs n (f e)) \<Longrightarrow> (\<And>a. costs n (g a)) \<Longrightarrow> costs n (case s of Inl e \<Rightarrow> f e | Inr a \<Rightarrow> g a)"
  "costs n m \<Longrightarrow> (\<And>a. costs n (h a)) \<Longrightarrow> costs n (case t of None \<Rightarrow> m | Some a \<Rightarrow> h a)"
  "(\<And>a b. costs n (k a b)) \<Longrightarrow> costs n (case p of (a, b) \<Rightarrow> k a b)"
  by (cases s; cases t; cases p; simp)+

text \<open>Each call of the client costs one.\<close>

lemma client_costs:
  "costs 1 (GetWorkbench r k)" "costs 1 (GetDeployment r k)" "costs 1 (GetService r k)" "costs 1 (GetJob r k)"
  "costs 1 (GetPV r n)" "costs 1 (GetPVC r k)" "costs 1 (GetSecret r k)" "costs 1 (GetCSIDriver r n)"
  "costs 1 (ListPods r ns ls)" "costs 1 (CreateDeployment r d)" "costs 1 (CreateService r svc)"
  "costs 1 (CreateJob r j)" "costs 1 (CreatePersistentVolume r pv)" "costs 1 (CreateClaim r pvc)"
  "costs 1 (UpdateWorkbench r w)" "costs 1 (UpdateStatus r w)" "costs 1 (UpdateDeployment r d)"
  "costs 1 (UpdateJob r j)" "costs 1 (DeleteJob r j)" "costs 1 (RecordEvent r e)" "costs 0 (LookPath r f)"
  "costs 0 (Now r)" "costs 1 (RunCommand r argv)"
  by (simp_all only: client_defs costs_perform costs_observe)

lemmas client_steps = client_costs [THEN costs_bind]

section \<open>Storage\<close>

lemma base_getSecret_costs: "costs 1 (base_getSecret r b)"
  unfolding base_getSecret_def by (intro client_steps costs_intros; simp)

lemma config_costs: "costs 1 (s3_getSecretConfig r b)" "costs 1 (nfs_getSecretConfig r b)"
  unfolding s3_getSecretConfig_def nfs_getSecretConfig_def
  by (intro base_getSecret_costs [THEN costs_bind] costs_intros; simp)+

lemmas config_steps = config_costs [THEN costs_bind]

lemma provider_costs:
  "costs 1 (HasDriver r p)" "costs 1 (HasSecret r p)" "costs 2 (Setup r p w)" "costs 1 (CreatePV r p w)"
proof -
  show "costs 1 (HasDriver r p)"
    by (cases p; simp add: base_HasDriver_def base_hasCSIDriver_def local_HasDriver_def)
      (intro client_steps costs_intros; simp)+
  show "costs 1 (HasSecret r p)"
    by (cases p; simp add: s3_HasSecret_def nfs_HasSecret_def local_HasSecret_def)
      (intro config_steps costs_intros; simp)+
  show "costs 2 (Setup r p w)"
    by (cases p; simp add: s3_Setup_def nfs_Setup_def local_Setup_def)
      (intro config_steps client_steps costs_intros; simp)+
  show "costs 1 (CreatePV r p w)"
    by (cases p; simp add: s3_CreatePV_def nfs_CreatePV_def local_CreatePV_def)
      (intro config_steps costs_intros; simp)+
qed

lemmas provider_steps = provider_costs [THEN costs_bind]

lemma record_costs: "costs 1 (record_if_present r e)"
  unfolding record_if_present_def using client_costs(20) by (intro costs_intros)

lemma ensure_volume_costs: "costs 4 (ensure_volume r w p pv)"
  unfolding ensure_volume_def by (intro client_steps provider_steps costs_intros; simp)

lemma ensure_claim_costs: "costs 2 (ensure_claim r w p)"
  unfolding ensure_claim_def Let_def by (intro client_steps costs_intros; simp)

lemma processStorageProvider_costs: "costs 9 (processStorageProvider r w p)"
  unfolding processStorageProvider_def
  by (intro provider_steps record_costs [THEN costs_bind] ensure_volume_costs [THEN costs_bind]
      ensure_claim_costs [THEN costs_mono] costs_intros; simp)

lemma process_all_costs: "costs (9 * length ps) (process_all r w ps m)"
proof (induction ps arbitrary: m)
  case (Cons p ps)
  show ?case
    using Cons.IH by (simp, intro processStorageProvider_costs [THEN costs_bind] costs_intros; simp)
qed (simp add: costs_return)

lemma enabled_at_most_three: "length (GetEnabledProviders (NewStorageManager cfg) w) \<le> 3"
  by (simp add: enabled_providers)

lemma ProcessEnabledStorage_costs: "costs 27 (ProcessEnabledStorage r (NewStorageManager cfg) w)"
  unfolding ProcessEnabledStorage_def
  by (rule costs_bind [OF process_all_costs]) (use enabled_at_most_three [of cfg w] in \<open>auto intro: costs_intros\<close>)

section \<open>Applications\<close>

lemma collect_volumes_costs: "costs (length ps) (collect_volumes r w user ns ps vs ms)"
proof (induction ps arbitrary: vs ms)
  case (Cons p ps)
  show ?case using Cons.IH by (simp, intro provider_steps(2) costs_intros; simp)
qed (simp add: costs_return)

lemma initJob_costs: "costs 4 (initJob r cfg w uid app svc (NewStorageManager cfg'))"
proof -
  have "costs 3 (GetVolumeAndMountSpecs r (NewStorageManager cfg') w user ns)" for user ns
    unfolding GetVolumeAndMountSpecs_def
    by (rule costs_bind [OF collect_volumes_costs [THEN costs_mono]])
      (use enabled_at_most_three [of cfg' w] in \<open>auto intro: costs_intros\<close>)
  moreover have "costs 1 (validateAppImage r img)" for img
    by (rule costs_emits [OF validateAppImage_emits]) simp
  ultimately show ?thesis
    unfolding initJob_def by (intro costs_bind [where a = 3] costs_bind [where a = 1] costs_intros; simp)
qed

lemma write_status_costs: "costs 1 (write_status r x)"
  unfolding write_status_def by (intro client_steps costs_intros; simp)

lemma reconcile_found_job_costs: "costs 2 (reconcile_found_job r uid j found w)"
  unfolding reconcile_found_job_def
  by (intro write_status_costs [THEN costs_bind] client_steps costs_intros; simp)

text \<open>A job is either found or created, so looking it up and what follows cost three, not four.\<close>

lemma createJob_then_costs:
  assumes "\<And>e. costs 0 (f e)" "costs 0 (g None)" "\<And>found. costs 2 (g (Some found))"
  shows "costs 3 (createJob r j \<bind> case_sum f g)"
proof -
  have rest: "emits m (\<lambda>_ ds. length (cs @ ds) \<le> 3 + listed_count (cs @ ds))"
    if "costs n m" "length cs + n \<le> 3" for n m and cs :: "call list"
    using that(1) unfolding costs_def by (rule emits_post) (use that(2) in auto)
  have shape: "emits (createJob r j) (\<lambda>x cs. length cs \<le> 2 \<and> (\<forall>found. x = Inr (Some found) \<longrightarrow> length cs \<le> 1))"
    by (rule emits_post [OF createJob_emits]) (auto simp: sum_cases split: if_splits)
  show ?thesis
    unfolding costs_def
  proof (rule emits_bind [OF shape], rule emits_sum)
    fix x and cs :: "call list" and e :: go_error
    assume "length cs \<le> 2 \<and> (\<forall>found. x = Inr (Some found) \<longrightarrow> length cs \<le> 1)"
    then show "emits (f e) (\<lambda>_ ds. length (cs @ ds) \<le> 3 + listed_count (cs @ ds))" by (intro rest [OF assms(1)]) simp
  next
    fix x and cs :: "call list" and y :: "job option"
    assume x: "length cs \<le> 2 \<and> (\<forall>found. x = Inr (Some found) \<longrightarrow> length cs \<le> 1)" "x = Inr y"
    show "emits (g y) (\<lambda>_ ds. length (cs @ ds) \<le> 3 + listed_count (cs @ ds))"
    proof (cases y)
      case None
      with x show ?thesis by (auto intro: rest [OF assms(2)] simp del: length_append listed_count_simps)
    next
      case (Some found)
      with x show ?thesis by (auto intro: rest [OF assms(3)] simp del: length_append listed_count_simps)
    qed
  qed
qed

lemma reconcile_app_costs: "costs 7 (reconcile_app r svc (NewStorageManager cfg) uid app w)"
proof -
  have job: "costs 3 (createJob r j \<bind> case_sum
        (\<lambda>e. State_Monad.return (if is_suspended_error e then Inr (w, []) else Inl (Failed e)))
        (\<lambda>y. case y of None \<Rightarrow> State_Monad.return (Inr (w, [job_name j]))
           | Some found \<Rightarrow> reconcile_found_job r uid j found w))" for j
    by (rule createJob_then_costs) (simp_all add: costs_return reconcile_found_job_costs)
  show ?thesis
    unfolding reconcile_app_def Let_def
    by (intro initJob_costs [THEN costs_bind] write_status_costs [THEN costs_bind] job [THEN costs_mono] costs_intros; simp)
qed

lemma reconcile_apps_costs: "costs (7 * length apps) (reconcile_apps r svc (NewStorageManager cfg) apps w names)"
proof (induction apps arbitrary: w names)
  case (Cons a apps)
  obtain uid app where a: "a = (uid, app)" by fastforce
  show ?case
    unfolding a reconcile_apps.simps
    by (rule costs_bind [OF reconcile_app_costs]) (use Cons.IH in \<open>auto intro!: costs_intros\<close>)
qed (simp add: costs_return)

lemma remove_extra_jobs_length: "emits (remove_extra_jobs r names js) (\<lambda>_ cs. length cs \<le> length js)"
proof (induction js)
  case (Cons j js)
  show ?case
    unfolding remove_extra_jobs.simps deleteJob_def DeleteJob_def
    by (rule emits_if, rule emits_post [OF Cons.IH], simp,
        rule emits_bind [OF emits_perform [where Q = "\<lambda>_ cs. length cs = 1"]], simp, rule emits_sum, simp,
        rule emits_post [OF Cons.IH], simp)
qed simp

lemma sweep_jobs_costs: "costs 1 (sweep_jobs r w names)"
  unfolding costs_def sweep_jobs_def
  by (rule emits_bind [OF findJobs_emits], rule emits_sum, simp, rule emits_post [OF remove_extra_jobs_length])
    (simp add: listed_jobs_def)

lemma reconcile_jobs_costs:
  "costs (7 * length (wb_apps w) + 1) (reconcile_jobs r svc (NewStorageManager cfg) w)"
  unfolding reconcile_jobs_def
  by (intro costs_intros costs_bind [OF reconcile_apps_costs] sweep_jobs_costs [THEN costs_mono]; simp)

section \<open>The whole function\<close>

lemma createService_costs: "costs 2 (createService r svc)"
  unfolding createService_def by (intro client_steps costs_intros; simp)

lemma reconcile_rest_costs: "costs (7 * length (wb_apps w) + 30) (reconcile_rest r w)"
  unfolding reconcile_rest_def Let_def
  by (intro costs_intros createService_costs [THEN costs_bind] ProcessEnabledStorage_costs [THEN costs_bind]
      reconcile_jobs_costs [THEN costs_mono]; simp)

lemma reconcile_server_costs: "costs 6 (reconcile_server r d w)"
proof -
  have "costs 2 (createDeployment r d)"
    unfolding createDeployment_def by (intro client_steps costs_intros; simp)
  moreover have "costs 1 (updateServerPodHealth r v f)" for v f
    unfolding updateServerPodHealth_def by (intro client_steps costs_intros; simp)
  moreover have "costs 2 (apply_server_update r d f v)" for f v
    unfolding apply_server_update_def emit_event_def
    by (intro costs_intros costs_bind [where a = 1] client_steps; simp)
  ultimately show ?thesis
    unfolding reconcile_server_def
    by (intro costs_bind [where a = 2] costs_bind [where a = 1] write_status_costs [THEN costs_bind] costs_intros;
        simp add: costs_mono)
qed

lemma deleteJobs_costs: "costs 2 (deleteJobs r w)"
  by (rule costs_emits [OF deleteJobs_emits]) (auto simp: sum_cases split: if_splits)

lemma deleteDeployments_costs: "costs 2 (deleteDeployments r w)"
  by (rule costs_emits [OF deleteDeployments_emits]) (auto simp: sum_cases split: if_splits)

lemma reconcile_deletion_costs: "costs 6 (reconcile_deletion r w)"
proof -
  have event: "costs 1 (emit_event r e)" for e
    unfolding emit_event_def by (intro client_steps costs_intros; simp)
  have external: "costs 5 (deleteExternalResources r w)"
    unfolding deleteExternalResources_def
    by (intro costs_intros event [THEN costs_bind] deleteJobs_costs [THEN costs_bind]
        deleteDeployments_costs [THEN costs_bind]; simp)
  show ?thesis
    unfolding reconcile_deletion_def
    by (intro costs_intros external [THEN costs_bind] client_steps; simp)
qed

lemma Reconcile_cost:
  assumes laws: "status_laws (rc_platform r)" "update_laws (rc_platform r)"
  shows "emits (Reconcile r k) (\<lambda>_ cs. \<exists>g tl. cs = GotWorkbench k g # tl \<and>
    (case g of Inl _ \<Rightarrow> tl = [] | Inr w \<Rightarrow> length tl \<le> 37 + 7 * length (wb_apps w) + listed_count tl))"
proof -
  have server: "emits (reconcile_server r (initDeployment w0 cfg\<lparr>dep_meta := m\<rparr>) w) (\<lambda>x cs.
      length cs \<le> 6 + listed_count cs \<and> (\<forall>w'. x = Inr w' \<longrightarrow> same_identity w w'))" for w0 cfg m w
    by (rule emits_post [OF emits_conj [OF reconcile_server_costs [unfolded costs_def] reconcile_server_identity [OF laws(1)]]])
      simp
  have rest: "costs (7 * length (wb_apps w) + 30) (reconcile_rest r v)" if "same_identity w v" for w v
    using reconcile_rest_costs [of v r] that by (simp add: same_identity_def)
  have live: "emits (reconcile_live r v) (\<lambda>_ cs. length cs \<le> 36 + 7 * length (wb_apps w) + listed_count cs)"
    if v: "same_identity w v" for w v
    unfolding reconcile_live_def Let_def
    apply (rule emits_sum)
     apply simp
    apply (rule emits_bind [OF server], rule emits_sum)
     apply simp
    apply (rule emits_post [OF rest [OF same_identity_trans [OF v], unfolded costs_def]])
     apply auto
    done
  have finalizer: "emits (ensure_finalizer r w) (\<lambda>x cs. length cs \<le> 1 \<and>
      (\<forall>w'. x = Inr w' \<longrightarrow> same_identity w w'))" for w
    by (rule emits_post [OF emits_conj [OF ensure_finalizer_emits ensure_finalizer_identity [OF laws(2)]]])
      (auto split: prod.splits if_splits)
  show ?thesis
    unfolding Reconcile_def
    apply (rule emits_bind [OF GetWorkbench_emits], rule emits_sum)
     apply simp
    apply (rule emits_if)
     apply (rule emits_post [OF reconcile_deletion_costs [unfolded costs_def]])
     apply simp
    apply (rule emits_bind [OF finalizer], rule emits_sum)
     apply simp
    apply (rule emits_post [OF live], blast)
    apply auto
    done
qed

end
