(* ===== verification/Reconciler_Deletion.thy ===== *)
theory Reconciler_Deletion
  imports Reconciler_Order
begin

text \<open>
  The deletion of a workbench over several calls of \<open>Reconcile\<close> (\<open>passes\<close>), on a platform
  whose API server behaves as documented (\<open>deletion_laws\<close>, \<open>finalizer_laws\<close>). When all
  objects with the workbench's label are in its namespace, three calls are enough. A job with
  that label in another namespace is listed but never deleted, and then no number of calls is enough.
\<close>

primrec passes :: "nat \<Rightarrow> 'w reconciler \<Rightarrow> namespaced_name \<Rightarrow> ('w, outcome list) prog" where
  "passes 0 r k = State_Monad.return []"
| "passes (Suc n) r k = do {
     out \<leftarrow> Reconcile r k;
     outs \<leftarrow> passes n r k;
     State_Monad.return (out # outs)
   }"

lemma passes_invariant:
  assumes "triple I (Reconcile r k) (\<lambda>out s. out = c \<and> I s)"
  shows "triple I (passes n r k) (\<lambda>outs s. outs = replicate n c \<and> I s)"
proof (induction n)
  case 0
  show ?case by (simp add: triple_return)
next
  case (Suc n)
  show ?case
    unfolding passes.simps
    by (rule triple_bind [OF assms], rule triple_assume, rule triple_bind [OF Suc.IH])
       (auto intro!: triple_return)
qed

section \<open>One call, by what is left\<close>

definition own_jobs :: "'w view \<Rightarrow> workbench \<Rightarrow> 'w \<Rightarrow> job list" where
  "own_jobs v w x = filter (\<lambda>j. has_labels (own_labels w) (job_meta j)) (vw_jobs v x)"

definition own_deployments :: "'w view \<Rightarrow> workbench \<Rightarrow> 'w \<Rightarrow> deployment list" where
  "own_deployments v w x = filter (\<lambda>d. has_labels (own_labels w) (dep_meta d)) (vw_deployments v x)"

text \<open>A platform, a reconciler with a recorder, and a workbench whose deletion was requested.\<close>

definition deletion_case :: "'w reconciler \<Rightarrow> 'w view \<Rightarrow> workbench \<Rightarrow> bool" where
  "deletion_case r v w \<longleftrightarrow>
     deletion_laws (rc_platform r) v \<and> finalizer_laws (rc_platform r) \<and> rc_has_recorder r \<and>
     being_deleted w \<and> om_finalizers (wb_meta w) = [finalizer]"

definition deletion_pending :: "'w view \<Rightarrow> workbench \<Rightarrow> 'w sys \<Rightarrow> bool" where
  "deletion_pending v w s \<longleftrightarrow> vw_workbench v (sys_world s) (key_of (wb_meta w)) = Inr w"

lemma finalizer_list_removed:
  assumes "finalizer_laws p"
  shows "pf_contains_finalizer p [finalizer] finalizer"
    "pf_remove_finalizer p [finalizer] finalizer = (True, [])"
proof -
  let ?x = "pf_remove_finalizer p [finalizer] finalizer"
  have "fst ?x \<longleftrightarrow> finalizer \<in> set [finalizer]" "set (snd ?x) = set [finalizer] - {finalizer}"
    "pf_contains_finalizer p [finalizer] finalizer \<longleftrightarrow> finalizer \<in> set [finalizer]"
    using assms unfolding finalizer_laws_def by blast+
  then have "fst ?x" "snd ?x = []" "pf_contains_finalizer p [finalizer] finalizer" by simp_all
  then show "pf_contains_finalizer p [finalizer] finalizer" "?x = (True, [])"
    by (simp_all add: prod_eq_iff)
qed

lemma deletion_case_facts:
  assumes "deletion_case r v w"
  shows "contains_finalizer r w" "being_deleted w" "rc_has_recorder r"
    "pf_remove_finalizer (rc_platform r) (om_finalizers (wb_meta w)) finalizer = (True, [])"
    "pf_get_workbench (rc_platform r) k x = (vw_workbench v x k, x)"
    "pf_list_jobs (rc_platform r) (own_labels w) x = (Inr (own_jobs v w x), x)"
    "pf_list_deployments (rc_platform r) (own_labels w) x = (Inr (own_deployments v w x), x)"
    "same_view v x (pf_record_event (rc_platform r) e x)"
  using assms finalizer_list_removed
  by (auto simp: deletion_case_def deletion_laws_def listing_laws_def contains_finalizer_def
      own_jobs_def own_deployments_def)

lemma same_view_own:
  "same_view v x y \<Longrightarrow> own_jobs v w y = own_jobs v w x \<and> own_deployments v w y = own_deployments v w x"
  by (simp add: same_view_def own_jobs_def own_deployments_def)

text \<open>The state the event leaves behind, from which the rest of the call runs.\<close>

abbreviation after_event :: "'w reconciler \<Rightarrow> workbench \<Rightarrow> 'w \<Rightarrow> 'w" where
  "after_event r w x \<equiv> pf_record_event (rc_platform r) (deleting_event w) x"

lemma run_deletion_jobs:
  assumes c: "deletion_case r v w" and pending: "deletion_pending v w s"
    and jobs: "own_jobs v w (sys_world s) \<noteq> []"
  obtains s' where "run_state (Reconcile r (key_of (wb_meta w))) s = (Finished (5 * second), s')"
    "deletion_pending v w s'"
    "vw_jobs v (sys_world s') =
       filter (\<lambda>j. \<not> matches_all (wb_namespace w) (own_labels w) (job_meta j)) (vw_jobs v (sys_world s))"
    "vw_deployments v (sys_world s') = vw_deployments v (sys_world s)"
proof -
  note f = deletion_case_facts [OF c]
  let ?x = "after_event r w (sys_world s)"
  have view: "same_view v (sys_world s) ?x" by (rule f(8))
  obtain y where y: "pf_delete_all_jobs (rc_platform r) (wb_namespace w) (own_labels w) ?x = (Inr (), y)"
      "vw_jobs v y = filter (\<lambda>j. \<not> matches_all (wb_namespace w) (own_labels w) (job_meta j)) (vw_jobs v ?x)"
      "vw_deployments v y = vw_deployments v ?x" "vw_workbench v y = vw_workbench v ?x"
    using c unfolding deletion_case_def deletion_laws_def collection_laws_def by blast
  have "own_jobs v w ?x \<noteq> []" using jobs same_view_own [OF view] by simp
  then have "\<exists>tr. run_state (Reconcile r (key_of (wb_meta w))) s =
      (Finished (5 * second), \<lparr>sys_world = y, sys_trace = tr\<rparr>)"
    using f y pending
    by (simp add: Reconcile_def reconcile_deletion_def deleteExternalResources_def emit_event_def
        deleteJobs_def findJobs_def client_defs deletion_pending_def)
  then show thesis
    using that y view pending by (auto simp: same_view_def deletion_pending_def)
qed

lemma run_deletion_deployments:
  assumes c: "deletion_case r v w" and pending: "deletion_pending v w s"
    and jobs: "own_jobs v w (sys_world s) = []" and deps: "own_deployments v w (sys_world s) \<noteq> []"
  obtains s' where "run_state (Reconcile r (key_of (wb_meta w))) s = (Finished (5 * second), s')"
    "deletion_pending v w s'"
    "vw_deployments v (sys_world s') =
       filter (\<lambda>d. \<not> matches_all (wb_namespace w) (own_labels w) (dep_meta d)) (vw_deployments v (sys_world s))"
    "vw_jobs v (sys_world s') = vw_jobs v (sys_world s)"
proof -
  note f = deletion_case_facts [OF c]
  let ?x = "after_event r w (sys_world s)"
  have view: "same_view v (sys_world s) ?x" by (rule f(8))
  obtain y where y: "pf_delete_all_deployments (rc_platform r) (wb_namespace w) (own_labels w) ?x = (Inr (), y)"
      "vw_deployments v y = filter (\<lambda>d. \<not> matches_all (wb_namespace w) (own_labels w) (dep_meta d)) (vw_deployments v ?x)"
      "vw_jobs v y = vw_jobs v ?x" "vw_workbench v y = vw_workbench v ?x"
    using c unfolding deletion_case_def deletion_laws_def collection_laws_def by blast
  have "own_jobs v w ?x = []" "own_deployments v w ?x \<noteq> []" using jobs deps same_view_own [OF view] by simp_all
  then have "\<exists>tr. run_state (Reconcile r (key_of (wb_meta w))) s =
      (Finished (5 * second), \<lparr>sys_world = y, sys_trace = tr\<rparr>)"
    using f y pending
    by (simp add: Reconcile_def reconcile_deletion_def deleteExternalResources_def emit_event_def
        deleteJobs_def findJobs_def deleteDeployments_def client_defs deletion_pending_def)
  then show thesis
    using that y view pending by (auto simp: same_view_def deletion_pending_def)
qed

lemma run_deletion_release:
  assumes c: "deletion_case r v w" and pending: "deletion_pending v w s"
    and jobs: "own_jobs v w (sys_world s) = []" and deps: "own_deployments v w (sys_world s) = []"
  obtains s' where "run_state (Reconcile r (key_of (wb_meta w))) s = (Finished 0, s')"
    "vw_workbench v (sys_world s') (key_of (wb_meta w)) = Inl NotFound"
    "vw_jobs v (sys_world s') = vw_jobs v (sys_world s)"
    "vw_deployments v (sys_world s') = vw_deployments v (sys_world s)"
proof -
  note f = deletion_case_facts [OF c]
  let ?x = "after_event r w (sys_world s)" and ?w = "set_finalizers w []"
  have view: "same_view v (sys_world s) ?x" by (rule f(8))
  have w: "om_finalizers (wb_meta ?w) = []" "om_deletion (wb_meta ?w) \<noteq> None" "key_of (wb_meta ?w) = key_of (wb_meta w)"
    using c by (auto simp: set_finalizers_def key_of_def deletion_case_def being_deleted_def time_is_zero_def split: option.splits)
  have "vw_workbench v ?x (key_of (wb_meta ?w)) = Inr w"
    using pending view w(3) by (simp add: same_view_def deletion_pending_def)
  then obtain y where y: "pf_update_workbench (rc_platform r) ?w ?x = (Inr ?w, y)"
      "vw_workbench v y (key_of (wb_meta w)) = Inl NotFound"
      "vw_jobs v y = vw_jobs v ?x" "vw_deployments v y = vw_deployments v ?x"
    using c w unfolding deletion_case_def deletion_laws_def release_laws_def by metis
  have "own_jobs v w ?x = []" "own_deployments v w ?x = []" using jobs deps same_view_own [OF view] by simp_all
  then have "\<exists>tr. run_state (Reconcile r (key_of (wb_meta w))) s =
      (Finished 0, \<lparr>sys_world = y, sys_trace = tr\<rparr>)"
    using f y pending
    by (simp add: Reconcile_def reconcile_deletion_def deleteExternalResources_def emit_event_def
        deleteJobs_def findJobs_def deleteDeployments_def client_defs deletion_pending_def)
  then show thesis
    using that y view by (auto simp: same_view_def)
qed

lemma run_after_deletion:
  assumes c: "deletion_case r v w" and gone: "vw_workbench v (sys_world s) k = Inl NotFound"
  shows "\<exists>tr. run_state (Reconcile r k) s = (Finished 0, \<lparr>sys_world = sys_world s, sys_trace = tr\<rparr>)"
  using gone deletion_case_facts(5) [OF c]
  by (simp add: Reconcile_def client_defs IsNotFound_def)

section \<open>Three calls are enough\<close>

definition only_own_namespace :: "'w view \<Rightarrow> workbench \<Rightarrow> 'w \<Rightarrow> bool" where
  "only_own_namespace v w x \<longleftrightarrow>
     list_all (\<lambda>j. job_namespace j = wb_namespace w) (own_jobs v w x) \<and>
     list_all (\<lambda>d. dep_namespace d = wb_namespace w) (own_deployments v w x)"

text \<open>How many of the three steps are still to be made.\<close>

definition steps_left :: "'w view \<Rightarrow> workbench \<Rightarrow> 'w \<Rightarrow> nat" where
  "steps_left v w x =
     (if vw_workbench v x (key_of (wb_meta w)) = Inl NotFound then 0
      else 1 + (if own_jobs v w x = [] then 0 else 1) + (if own_deployments v w x = [] then 0 else 1))"

definition deleting_state :: "'w view \<Rightarrow> workbench \<Rightarrow> 'w sys \<Rightarrow> bool" where
  "deleting_state v w s \<longleftrightarrow> only_own_namespace v w (sys_world s) \<and>
     (deletion_pending v w s \<or>
      (vw_workbench v (sys_world s) (key_of (wb_meta w)) = Inl NotFound \<and>
       own_jobs v w (sys_world s) = [] \<and> own_deployments v w (sys_world s) = []))"

lemma matches_own:
  "only_own_namespace v w x \<Longrightarrow>
   filter (\<lambda>j. has_labels (own_labels w) (job_meta j))
     (filter (\<lambda>j. \<not> matches_all (wb_namespace w) (own_labels w) (job_meta j)) (vw_jobs v x)) = []"
  "only_own_namespace v w x \<Longrightarrow>
   filter (\<lambda>d. has_labels (own_labels w) (dep_meta d))
     (filter (\<lambda>d. \<not> matches_all (wb_namespace w) (own_labels w) (dep_meta d)) (vw_deployments v x)) = []"
  by (auto simp: only_own_namespace_def own_jobs_def own_deployments_def list_all_iff matches_all_def
      filter_empty_conv)

lemma deletion_step:
  assumes c: "deletion_case r v w" and st: "deleting_state v w s"
    and run: "run_state (Reconcile r (key_of (wb_meta w))) s = (out, s')"
  shows "deleting_state v w s'" "steps_left v w (sys_world s') \<le> steps_left v w (sys_world s) - 1"
proof -
  have "deleting_state v w s' \<and> steps_left v w (sys_world s') \<le> steps_left v w (sys_world s) - 1"
  proof (cases "deletion_pending v w s")
    case False
    then have gone: "vw_workbench v (sys_world s) (key_of (wb_meta w)) = Inl NotFound"
      using st by (simp add: deleting_state_def)
    have "sys_world s' = sys_world s" using run_after_deletion [OF c gone] run by auto
    then show ?thesis using gone st by (simp add: deleting_state_def steps_left_def deletion_pending_def)
  next
    case pending: True
    have own: "only_own_namespace v w (sys_world s)" using st by (simp add: deleting_state_def)
    have there: "steps_left v w (sys_world s) = 1 + (if own_jobs v w (sys_world s) = [] then 0 else 1) +
        (if own_deployments v w (sys_world s) = [] then 0 else 1)"
      using pending by (simp add: steps_left_def deletion_pending_def)
    consider "own_jobs v w (sys_world s) \<noteq> []"
      | "own_jobs v w (sys_world s) = []" "own_deployments v w (sys_world s) \<noteq> []"
      | "own_jobs v w (sys_world s) = []" "own_deployments v w (sys_world s) = []" by blast
    then show ?thesis
    proof cases
      case 1
      obtain t where t: "run_state (Reconcile r (key_of (wb_meta w))) s = (Finished (5 * second), t)"
          "deletion_pending v w t"
          "vw_jobs v (sys_world t) =
             filter (\<lambda>j. \<not> matches_all (wb_namespace w) (own_labels w) (job_meta j)) (vw_jobs v (sys_world s))"
          "vw_deployments v (sys_world t) = vw_deployments v (sys_world s)"
        by (rule run_deletion_jobs [OF c pending 1])
      have "s' = t" "own_jobs v w (sys_world t) = []"
          "own_deployments v w (sys_world t) = own_deployments v w (sys_world s)"
        using t(1,4) run matches_own(1) [OF own] by (simp_all add: own_jobs_def own_deployments_def t(3))
      with t(2) show ?thesis using 1 own there
        by (auto simp: deleting_state_def steps_left_def only_own_namespace_def deletion_pending_def)
    next
      case 2
      obtain t where t: "run_state (Reconcile r (key_of (wb_meta w))) s = (Finished (5 * second), t)"
          "deletion_pending v w t"
          "vw_deployments v (sys_world t) =
             filter (\<lambda>d. \<not> matches_all (wb_namespace w) (own_labels w) (dep_meta d)) (vw_deployments v (sys_world s))"
          "vw_jobs v (sys_world t) = vw_jobs v (sys_world s)"
        by (rule run_deletion_deployments [OF c pending 2])
      have "s' = t" "own_deployments v w (sys_world t) = []"
          "own_jobs v w (sys_world t) = own_jobs v w (sys_world s)"
        using t(1,4) run matches_own(2) [OF own] by (simp_all add: own_jobs_def own_deployments_def t(3))
      with t(2) show ?thesis using 2 own there
        by (auto simp: deleting_state_def steps_left_def only_own_namespace_def deletion_pending_def)
    next
      case 3
      obtain t where t: "run_state (Reconcile r (key_of (wb_meta w))) s = (Finished 0, t)"
          "vw_workbench v (sys_world t) (key_of (wb_meta w)) = Inl NotFound"
          "vw_jobs v (sys_world t) = vw_jobs v (sys_world s)"
          "vw_deployments v (sys_world t) = vw_deployments v (sys_world s)"
        by (rule run_deletion_release [OF c pending 3])
      have "s' = t" "own_deployments v w (sys_world t) = []" "own_jobs v w (sys_world t) = []"
        using t(1) run 3 by (simp_all add: own_jobs_def own_deployments_def t(3,4))
      with t(2) show ?thesis using 3 own there
        by (auto simp: deleting_state_def steps_left_def only_own_namespace_def)
    qed
  qed
  then show "deleting_state v w s'" "steps_left v w (sys_world s') \<le> steps_left v w (sys_world s) - 1"
    by simp_all
qed

lemma deletion_passes:
  assumes "deletion_case r v w"
  shows "triple (\<lambda>s. deleting_state v w s \<and> steps_left v w (sys_world s) \<le> m)
    (passes n r (key_of (wb_meta w)))
    (\<lambda>_ s. deleting_state v w s \<and> steps_left v w (sys_world s) \<le> m - n)"
proof (induction n arbitrary: m)
  case 0
  show ?case by (simp add: triple_return)
next
  case (Suc n)
  have one: "triple (\<lambda>s. deleting_state v w s \<and> steps_left v w (sys_world s) \<le> m)
      (Reconcile r (key_of (wb_meta w)))
      (\<lambda>_ s. deleting_state v w s \<and> steps_left v w (sys_world s) \<le> m - 1)"
    by (rule tripleI) (use deletion_step [OF assms] in fastforce)
  show ?case
    unfolding passes.simps
    by (rule triple_bind [OF one], rule triple_bind [OF Suc.IH]) (auto intro!: triple_return)
qed

lemma steps_left_zero:
  "deleting_state v w s \<Longrightarrow> steps_left v w (sys_world s) = 0 \<Longrightarrow>
     vw_workbench v (sys_world s) (key_of (wb_meta w)) = Inl NotFound \<and>
     own_jobs v w (sys_world s) = [] \<and> own_deployments v w (sys_world s) = []"
  by (auto simp: deleting_state_def steps_left_def deletion_pending_def split: if_splits)

section \<open>A foreign job blocks the deletion\<close>

definition foreign_job :: "workbench \<Rightarrow> job \<Rightarrow> bool" where
  "foreign_job w j \<longleftrightarrow> has_labels (own_labels w) (job_meta j) \<and> job_namespace j \<noteq> wb_namespace w"

lemma foreign_job_blocks:
  assumes c: "deletion_case r v w"
  shows "triple (\<lambda>s. deletion_pending v w s \<and> list_ex (foreign_job w) (vw_jobs v (sys_world s)))
    (Reconcile r (key_of (wb_meta w)))
    (\<lambda>out s. out = Finished (5 * second) \<and>
       (deletion_pending v w s \<and> list_ex (foreign_job w) (vw_jobs v (sys_world s))))"
proof (rule tripleI)
  fix s out s'
  assume pre: "deletion_pending v w s \<and> list_ex (foreign_job w) (vw_jobs v (sys_world s))"
    and run: "run_state (Reconcile r (key_of (wb_meta w))) s = (out, s')"
  then obtain j where j: "j \<in> set (vw_jobs v (sys_world s))" "foreign_job w j"
    by (auto simp: list_ex_iff)
  then have own: "own_jobs v w (sys_world s) \<noteq> []"
    by (auto simp: own_jobs_def foreign_job_def filter_empty_conv)
  obtain t where t: "run_state (Reconcile r (key_of (wb_meta w))) s = (Finished (5 * second), t)"
      "deletion_pending v w t"
      "vw_jobs v (sys_world t) =
         filter (\<lambda>j. \<not> matches_all (wb_namespace w) (own_labels w) (job_meta j)) (vw_jobs v (sys_world s))"
    using run_deletion_jobs [OF c _ own] pre by metis
  have "j \<in> set (vw_jobs v (sys_world t))" using j by (simp add: t(3) foreign_job_def matches_all_def)
  then show "out = Finished (5 * second) \<and>
      (deletion_pending v w s' \<and> list_ex (foreign_job w) (vw_jobs v (sys_world s')))"
    using t(1,2) run j(2) by (auto simp: list_ex_iff)
qed

lemmas foreign_job_forever = passes_invariant [OF foreign_job_blocks]

end
