(* ===== verification/Reference_Cluster.thy ===== *)
theory Reference_Cluster
  imports Reconciler_Jobs Sample_Objects
begin

text \<open>
  A cluster in memory: lists of objects, an API server over them, a clock that stands still
  and a container runtime that knows the \<open>/etc/passwd\<close> of some images. It is one platform the
  operator can run on, and shows that the hypotheses stated of platforms can hold; no other
  theory depends on its details.
\<close>

record cluster =
  cl_workbenches :: "workbench list"
  cl_deployments :: "deployment list"
  cl_services :: "service list"
  cl_jobs :: "job list"
  cl_volumes :: "persistent_volume list"
  cl_claims :: "volume_claim list"
  cl_secrets :: "secret list"
  cl_drivers :: "string list"
  cl_pods :: "pod list"
  cl_events :: "kube_event list"
  cl_now :: time
  cl_tools :: "string gomap"
  cl_images :: "string gomap"

definition empty_cluster :: cluster where
  "empty_cluster =
     \<lparr>cl_workbenches = [], cl_deployments = [], cl_services = [], cl_jobs = [], cl_volumes = [],
      cl_claims = [], cl_secrets = [], cl_drivers = [], cl_pods = [], cl_events = [], cl_now = 0,
      cl_tools = [], cl_images = []\<rparr>"

section \<open>Objects in a list\<close>

definition lookup_object :: "('o \<Rightarrow> object_meta) \<Rightarrow> namespaced_name \<Rightarrow> 'o list \<Rightarrow> 'o reply" where
  "lookup_object meta k xs =
     (case List.find (\<lambda>x. at_key k (meta x)) xs of None \<Rightarrow> Inl NotFound | Some x \<Rightarrow> Inr x)"

definition insert_object :: "('o \<Rightarrow> object_meta) \<Rightarrow> 'o \<Rightarrow> 'o list \<Rightarrow> (unit reply \<times> 'o list)" where
  "insert_object meta x xs =
     (if list_ex (\<lambda>y. at_key (key_of (meta x)) (meta y)) xs then (Inl AlreadyExists, xs) else (Inr (), xs @ [x]))"

definition replace_object :: "('o \<Rightarrow> object_meta) \<Rightarrow> 'o \<Rightarrow> 'o list \<Rightarrow> (unit reply \<times> 'o list)" where
  "replace_object meta x xs =
     (if list_ex (\<lambda>y. at_key (key_of (meta x)) (meta y)) xs
      then (Inr (), map (\<lambda>y. if at_key (key_of (meta x)) (meta y) then x else y) xs) else (Inl NotFound, xs))"

definition remove_object :: "('o \<Rightarrow> object_meta) \<Rightarrow> 'o \<Rightarrow> 'o list \<Rightarrow> (unit reply \<times> 'o list)" where
  "remove_object meta x xs =
     (if list_ex (\<lambda>y. at_key (key_of (meta x)) (meta y)) xs
      then (Inr (), filter (\<lambda>y. \<not> at_key (key_of (meta x)) (meta y)) xs) else (Inl NotFound, xs))"

section \<open>The API server\<close>

definition store_workbench :: "workbench \<Rightarrow> cluster \<Rightarrow> workbench reply \<times> cluster" where
  "store_workbench w c =
     (if \<not> list_ex (\<lambda>y. at_key (key_of (wb_meta w)) (wb_meta y)) (cl_workbenches c) then (Inl NotFound, c)
      else if om_deletion (wb_meta w) \<noteq> None \<and> om_finalizers (wb_meta w) = []
      then (Inr w, c\<lparr>cl_workbenches := snd (remove_object wb_meta w (cl_workbenches c))\<rparr>)
      else (Inr w, c\<lparr>cl_workbenches := snd (replace_object wb_meta w (cl_workbenches c))\<rparr>))"

text \<open>The status is a resource of its own: nothing else of the stored object changes.\<close>

definition store_status :: "workbench \<Rightarrow> cluster \<Rightarrow> workbench reply \<times> cluster" where
  "store_status w c =
     (if \<not> list_ex (\<lambda>y. at_key (key_of (wb_meta w)) (wb_meta y)) (cl_workbenches c) then (Inl NotFound, c)
      else (Inr w, c\<lparr>cl_workbenches :=
        map (\<lambda>y. if at_key (key_of (wb_meta w)) (wb_meta y) then y\<lparr>wb_status := wb_status w\<rparr> else y) (cl_workbenches c)\<rparr>))"

definition store_deployment :: "deployment \<Rightarrow> cluster \<Rightarrow> deployment reply \<times> cluster" where
  "store_deployment d c =
     (case insert_object dep_meta d (cl_deployments c) of
        (Inl e, _) \<Rightarrow> (Inl e, c)
      | (Inr _, ds) \<Rightarrow> (Inr d, c\<lparr>cl_deployments := ds\<rparr>))"

definition owner_of :: "workbench \<Rightarrow> owner_ref" where
  "owner_of w = \<lparr>or_kind = ''Workbench'', or_name = wb_name w, or_uid = om_uid (wb_meta w), or_controller = True\<rparr>"

definition memory_platform :: "cluster platform" where
  "memory_platform =
     \<lparr>pf_get_workbench = \<lambda>k c. (lookup_object wb_meta k (cl_workbenches c), c),
      pf_get_deployment = \<lambda>k c. (lookup_object dep_meta k (cl_deployments c), c),
      pf_get_service = \<lambda>k c. (lookup_object svc_meta k (cl_services c), c),
      pf_get_job = \<lambda>k c. (lookup_object job_meta k (cl_jobs c), c),
      pf_get_pv = \<lambda>n c. (lookup_object pv_meta (key n []) (cl_volumes c), c),
      pf_get_pvc = \<lambda>k c. (lookup_object pvc_meta k (cl_claims c), c),
      pf_get_secret = \<lambda>k c. (lookup_object sec_meta k (cl_secrets c), c),
      pf_get_csi_driver = \<lambda>n c. (if n \<in> set (cl_drivers c) then Inr () else Inl NotFound, c),
      pf_list_pods = \<lambda>ns ls c. (Inr (filter (\<lambda>p. matches_all ns ls (pod_meta p)) (cl_pods c)), c),
      pf_list_jobs = \<lambda>ls c. (Inr (filter (\<lambda>j. has_labels ls (job_meta j)) (cl_jobs c)), c),
      pf_list_deployments = \<lambda>ls c. (Inr (filter (\<lambda>d. has_labels ls (dep_meta d)) (cl_deployments c)), c),
      pf_create_deployment = store_deployment,
      pf_create_service = \<lambda>x c. (case insert_object svc_meta x (cl_services c) of
          (e, xs) \<Rightarrow> (e, c\<lparr>cl_services := xs\<rparr>)),
      pf_create_job = \<lambda>x c. (case insert_object job_meta x (cl_jobs c) of (e, xs) \<Rightarrow> (e, c\<lparr>cl_jobs := xs\<rparr>)),
      pf_create_pv = \<lambda>x c. (case insert_object pv_meta x (cl_volumes c) of (e, xs) \<Rightarrow> (e, c\<lparr>cl_volumes := xs\<rparr>)),
      pf_create_pvc = \<lambda>x c. (case insert_object pvc_meta x (cl_claims c) of (e, xs) \<Rightarrow> (e, c\<lparr>cl_claims := xs\<rparr>)),
      pf_update_workbench = store_workbench,
      pf_update_status = store_status,
      pf_update_deployment = \<lambda>x c. (case replace_object dep_meta x (cl_deployments c) of
          (e, xs) \<Rightarrow> (e, c\<lparr>cl_deployments := xs\<rparr>)),
      pf_update_job = \<lambda>x c. (case replace_object job_meta x (cl_jobs c) of (e, xs) \<Rightarrow> (e, c\<lparr>cl_jobs := xs\<rparr>)),
      pf_delete_job = \<lambda>x c. (case remove_object job_meta x (cl_jobs c) of (e, xs) \<Rightarrow> (e, c\<lparr>cl_jobs := xs\<rparr>)),
      pf_delete_all_jobs = \<lambda>ns ls c.
        (Inr (), c\<lparr>cl_jobs := filter (\<lambda>j. \<not> matches_all ns ls (job_meta j)) (cl_jobs c)\<rparr>),
      pf_delete_all_deployments = \<lambda>ns ls c.
        (Inr (), c\<lparr>cl_deployments := filter (\<lambda>d. \<not> matches_all ns ls (dep_meta d)) (cl_deployments c)\<rparr>),
      pf_record_event = \<lambda>e c. c\<lparr>cl_events := cl_events c @ [e]\<rparr>,
      pf_look_path = \<lambda>f c. map_get (cl_tools c) f,
      pf_run_command = \<lambda>argv c. (if length argv \<le> 5 then None else map_get (cl_images c) (argv ! 5), c),
      pf_now = cl_now,
      pf_contains_finalizer = \<lambda>fs f. f \<in> set fs,
      pf_add_finalizer = \<lambda>fs f. if f \<in> set fs then (False, fs) else (True, fs @ [f]),
      pf_remove_finalizer = \<lambda>fs f. (f \<in> set fs, filter (\<lambda>x. x \<noteq> f) fs),
      pf_set_controller = \<lambda>w m. Inr (m\<lparr>om_owners := om_owners m @ [owner_of w]\<rparr>)\<rparr>"

definition memory_reconciler :: "config \<Rightarrow> cluster reconciler" where
  "memory_reconciler cfg = \<lparr>rc_platform = memory_platform, rc_has_recorder = True, rc_config = cfg\<rparr>"

lemma memory_reconciler_sel [simp]:
  "rc_platform (memory_reconciler cfg) = memory_platform" "rc_has_recorder (memory_reconciler cfg)"
  "rc_config (memory_reconciler cfg) = cfg"
  by (simp_all add: memory_reconciler_def)

section \<open>It meets the laws\<close>

lemma memory_finalizer_laws: "finalizer_laws memory_platform"
  by (auto simp: finalizer_laws_def memory_platform_def)

lemma memory_owner_laws: "owner_laws memory_platform"
  by (simp add: owner_laws_def memory_platform_def)

lemma memory_update_laws: "update_laws memory_platform"
  by (simp add: update_laws_def memory_platform_def store_workbench_def)

lemma memory_status_laws: "status_laws memory_platform"
  by (simp add: status_laws_def memory_platform_def store_status_def)

definition memory_view :: "cluster view" where
  "memory_view =
     \<lparr>vw_workbench = \<lambda>c k. lookup_object wb_meta k (cl_workbenches c), vw_jobs = cl_jobs,
      vw_deployments = cl_deployments\<rparr>"

lemma memory_listing_laws: "listing_laws memory_platform memory_view"
  by (simp add: listing_laws_def memory_platform_def memory_view_def same_view_def)

lemma memory_collection_laws: "collection_laws memory_platform memory_view"
  by (simp add: collection_laws_def memory_platform_def memory_view_def)

lemma lookup_object_Some:
  "lookup_object meta k xs = Inr x \<Longrightarrow> list_ex (\<lambda>y. at_key k (meta y)) xs"
  by (auto simp: lookup_object_def list_ex_iff find_Some_iff split: option.splits)

lemma lookup_removed: "lookup_object meta k (filter (\<lambda>y. \<not> at_key k (meta y)) xs) = Inl NotFound"
proof -
  have "List.find (\<lambda>x. at_key k (meta x)) (filter (\<lambda>y. \<not> at_key k (meta y)) xs) = None"
    by (simp add: find_None_iff)
  then show ?thesis by (simp add: lookup_object_def)
qed

lemma memory_release_laws: "release_laws memory_platform memory_view"
  by (auto simp: release_laws_def memory_platform_def memory_view_def store_workbench_def
      remove_object_def lookup_removed dest!: lookup_object_Some)

lemma memory_deletion_laws: "deletion_laws memory_platform memory_view"
  by (simp add: deletion_laws_def memory_listing_laws memory_collection_laws memory_release_laws)

section \<open>Example objects\<close>

definition sample_cluster :: "workbench list \<Rightarrow> cluster" where
  "sample_cluster ws = empty_cluster\<lparr>cl_workbenches := ws, cl_pods := map (\<lambda>w. sample_pod (wb_namespace w)) ws\<rparr>"

abbreviation sample_reconciler :: "cluster reconciler" where
  "sample_reconciler \<equiv> memory_reconciler sample_config"

definition sample_job :: "string \<Rightarrow> string \<Rightarrow> job" where
  "sample_job n ns =
     (mkdir_job live_workbench n [] (mkdir_container [] [] []) home_volume)
       \<lparr>job_meta := new_meta n ns [(matchingLabel, ''wb'')]\<rparr>"

definition dying_cluster :: "job list \<Rightarrow> cluster" where
  "dying_cluster js = (sample_cluster [dying_workbench])
     \<lparr>cl_jobs := js, cl_deployments := [initDeployment live_workbench sample_config]\<rparr>"

lemma sample_deletion [simp]: "being_deleted dying_workbench" "\<not> being_deleted live_workbench"
  by (simp_all add: live_workbench_def dying_workbench_def sample_workbench_def being_deleted_def
      time_is_zero_def go_zero_time_def)

lemma sample_lookup:
  "lookup_object wb_meta sample_key (cl_workbenches (sample_cluster [live_workbench])) = Inr live_workbench"
  "lookup_object wb_meta sample_key (cl_workbenches (dying_cluster js)) = Inr dying_workbench"
  by (simp_all add: lookup_object_def sample_cluster_def dying_cluster_def at_key_def sample_key_def)

end
