(* ===== verification/Reconciler_Steady.thy ===== *)
theory Reconciler_Steady
  imports Reconciler_Deletion Reference_Cluster App_Job_Safety
begin

text \<open>
  The steady state. A live workbench is \<open>steady\<close> when everything the operator looks at is as the
  specification asks and the status says so; it is stated of the objects and of the status, not of what the
  operator makes of them. As long as the cluster answers in the same way, each
  further call of \<open>Reconcile\<close> then ends normally and writes nothing, however much time passes.
  The locale \<open>calm_platform\<close> states what it is for the cluster to answer in the same way. Its clock
  may go on; it does not go back.
\<close>

section \<open>Programs on a platform that does not change\<close>

locale calm_platform =
  fixes r :: "'w reconciler" and same :: "'w \<Rightarrow> bool" and x :: 'w
  assumes here: "same x"
    and workbench_calm: "same y \<Longrightarrow> fst (pf_get_workbench (rc_platform r) k y) = fst (pf_get_workbench (rc_platform r) k x) \<and>
      same (snd (pf_get_workbench (rc_platform r) k y))"
    and deployment_calm: "same y \<Longrightarrow> fst (pf_get_deployment (rc_platform r) k y) = fst (pf_get_deployment (rc_platform r) k x) \<and>
      same (snd (pf_get_deployment (rc_platform r) k y))"
    and service_calm: "same y \<Longrightarrow> fst (pf_get_service (rc_platform r) k y) = fst (pf_get_service (rc_platform r) k x) \<and>
      same (snd (pf_get_service (rc_platform r) k y))"
    and job_calm: "same y \<Longrightarrow> fst (pf_get_job (rc_platform r) k y) = fst (pf_get_job (rc_platform r) k x) \<and>
      same (snd (pf_get_job (rc_platform r) k y))"
    and pv_calm: "same y \<Longrightarrow> fst (pf_get_pv (rc_platform r) n y) = fst (pf_get_pv (rc_platform r) n x) \<and>
      same (snd (pf_get_pv (rc_platform r) n y))"
    and pvc_calm: "same y \<Longrightarrow> fst (pf_get_pvc (rc_platform r) k y) = fst (pf_get_pvc (rc_platform r) k x) \<and>
      same (snd (pf_get_pvc (rc_platform r) k y))"
    and secret_calm: "same y \<Longrightarrow> fst (pf_get_secret (rc_platform r) k y) = fst (pf_get_secret (rc_platform r) k x) \<and>
      same (snd (pf_get_secret (rc_platform r) k y))"
    and driver_calm: "same y \<Longrightarrow> fst (pf_get_csi_driver (rc_platform r) n y) = fst (pf_get_csi_driver (rc_platform r) n x) \<and>
      same (snd (pf_get_csi_driver (rc_platform r) n y))"
    and pods_calm: "same y \<Longrightarrow> fst (pf_list_pods (rc_platform r) n ls y) = fst (pf_list_pods (rc_platform r) n ls x) \<and>
      same (snd (pf_list_pods (rc_platform r) n ls y))"
    and jobs_calm: "same y \<Longrightarrow> fst (pf_list_jobs (rc_platform r) ls y) = fst (pf_list_jobs (rc_platform r) ls x) \<and>
      same (snd (pf_list_jobs (rc_platform r) ls y))"
    and command_calm: "same y \<Longrightarrow> fst (pf_run_command (rc_platform r) argv y) = fst (pf_run_command (rc_platform r) argv x) \<and>
      same (snd (pf_run_command (rc_platform r) argv y))"
    and path_calm: "same y \<Longrightarrow> pf_look_path (rc_platform r) n y = pf_look_path (rc_platform r) n x"
    and clock_forward: "same y \<Longrightarrow> pf_now (rc_platform r) x \<le> pf_now (rc_platform r) y"
    and event_calm: "same y \<Longrightarrow> same (pf_record_event (rc_platform r) e y)"
begin

text \<open>\<open>m\<close> returns \<open>a\<close>, leaves the cluster as calm as it was, and writes nothing.\<close>

definition idles :: "('w, 'a) prog \<Rightarrow> 'a \<Rightarrow> bool" where
  "idles m a \<longleftrightarrow> (\<forall>s. same (sys_world s) \<longrightarrow> fst (run_state m s) = a \<and> same (sys_world (snd (run_state m s))) \<and>
     (\<exists>cs. sys_trace (snd (run_state m s)) = sys_trace s @ cs \<and> list_all (\<lambda>c. \<not> is_write c) cs))"

lemma idles_result: "idles m a \<Longrightarrow> result_of m x = a"
  using here by (simp add: idles_def)

lemma idles_calls: "idles m a \<Longrightarrow> list_all (\<lambda>c. \<not> is_write c) (calls_of m x)"
  using here unfolding idles_def by (metis append_Nil start_sel(1,2))

lemma idles_return: "idles (State_Monad.return a) a"
  by (simp add: idles_def)

lemma idles_bind:
  assumes "idles m a" "idles (f a) b"
  shows "idles (State_Monad.bind m f) b"
  unfolding idles_def
proof (intro allI impI)
  fix s :: "'w sys" assume s: "same (sys_world s)"
  obtain s' where m: "run_state m s = (a, s')" "same (sys_world s')"
      "\<exists>cs. sys_trace s' = sys_trace s @ cs \<and> list_all (\<lambda>c. \<not> is_write c) cs"
    using assms(1) s unfolding idles_def by (metis prod.collapse)
  have f: "fst (run_state (f a) s') = b \<and> same (sys_world (snd (run_state (f a) s'))) \<and>
      (\<exists>cs. sys_trace (snd (run_state (f a) s')) = sys_trace s' @ cs \<and> list_all (\<lambda>c. \<not> is_write c) cs)"
    using assms(2) m(2) by (simp add: idles_def)
  show "fst (run_state (State_Monad.bind m f) s) = b \<and> same (sys_world (snd (run_state (State_Monad.bind m f) s))) \<and>
      (\<exists>cs. sys_trace (snd (run_state (State_Monad.bind m f) s)) = sys_trace s @ cs \<and> list_all (\<lambda>c. \<not> is_write c) cs)"
    using m f by auto
qed

lemma idles_observe: "(\<And>y. same y \<Longrightarrow> f y = a) \<Longrightarrow> idles (observe f) a"
  by (simp add: idles_def)

lemma idles_perform:
  "(\<And>y. same y \<Longrightarrow> fst (f y) = a \<and> same (snd (f y))) \<Longrightarrow> \<not> is_write (c a) \<Longrightarrow> idles (perform f c) a"
  by (simp add: idles_def)

lemma reads_idle:
  "idles (GetWorkbench r k) (fst (pf_get_workbench (rc_platform r) k x))"
  "idles (GetDeployment r k) (fst (pf_get_deployment (rc_platform r) k x))"
  "idles (GetService r k) (fst (pf_get_service (rc_platform r) k x))"
  "idles (GetJob r k) (fst (pf_get_job (rc_platform r) k x))"
  "idles (GetPV r n) (fst (pf_get_pv (rc_platform r) n x))"
  "idles (GetPVC r k) (fst (pf_get_pvc (rc_platform r) k x))"
  "idles (GetSecret r k) (fst (pf_get_secret (rc_platform r) k x))"
  "idles (GetCSIDriver r n) (fst (pf_get_csi_driver (rc_platform r) n x))"
  "idles (ListPods r n ls) (fst (pf_list_pods (rc_platform r) n ls x))"
  "idles (ListJobs r ls) (fst (pf_list_jobs (rc_platform r) ls x))"
  "idles (RunCommand r argv) (fst (pf_run_command (rc_platform r) argv x))"
  "idles (LookPath r n) (pf_look_path (rc_platform r) n x)"
  "idles (RecordEvent r e) ()"
  unfolding client_defs
  by (rule idles_perform idles_observe,
      simp add: workbench_calm deployment_calm service_calm job_calm pv_calm pvc_calm secret_calm driver_calm
        pods_calm jobs_calm command_calm path_calm event_calm,
      (simp add: call_kind_defs)?)+

text \<open>Programs that only read are idle, whatever they return.\<close>

definition idle :: "('w, 'a) prog \<Rightarrow> bool" where
  "idle m \<longleftrightarrow> idles m (result_of m x)"

lemma idle_iff: "idle m \<longleftrightarrow> (\<exists>a. idles m a)"
  unfolding idle_def by (metis idles_result)

lemma idleI: "idles m a \<Longrightarrow> idle m"
  by (auto simp: idle_iff)

lemma idle_return: "idle (State_Monad.return a)"
  by (rule idleI [OF idles_return])

lemma idle_bind: "idle m \<Longrightarrow> (\<And>a. idle (f a)) \<Longrightarrow> idle (State_Monad.bind m f)"
  unfolding idle_iff by (elim exE) (metis idles_bind)

lemma idle_step: "idle m \<Longrightarrow> idle (f (result_of m x)) \<Longrightarrow> idle (State_Monad.bind m f)"
  unfolding idle_def [of m] idle_iff [of "f _"] by (elim exE) (auto simp: idle_iff dest: idles_bind)

lemma idle_if: "(b \<Longrightarrow> idle m) \<Longrightarrow> (\<not> b \<Longrightarrow> idle m') \<Longrightarrow> idle (if b then m else m')"
  by simp

lemma idle_sum: "(\<And>e. s = Inl e \<Longrightarrow> idle (f e)) \<Longrightarrow> (\<And>a. s = Inr a \<Longrightarrow> idle (g a)) \<Longrightarrow>
    idle (case s of Inl e \<Rightarrow> f e | Inr a \<Rightarrow> g a)"
  by (cases s) simp_all

lemma idle_cases:
  "idle m \<Longrightarrow> idle m' \<Longrightarrow> idle (if b then m else m')"
  "(\<And>e. idle (f e)) \<Longrightarrow> (\<And>a. idle (g a)) \<Longrightarrow> idle (case s of Inl e \<Rightarrow> f e | Inr a \<Rightarrow> g a)"
  "idle m \<Longrightarrow> (\<And>a. idle (h a)) \<Longrightarrow> idle (case t of None \<Rightarrow> m | Some a \<Rightarrow> h a)"
  "(\<And>a b. idle (k a b)) \<Longrightarrow> idle (case p of (a, b) \<Rightarrow> k a b)"
  by (cases s; cases t; cases p; simp)+

lemmas idle_intros = idle_return idle_bind idle_cases reads_idle [THEN idleI]

lemma provider_idle: "idle (HasDriver r p)" "idle (HasSecret r p)" "idle (CreatePV r p w)"
  by (cases p; simp add: base_HasDriver_def base_hasCSIDriver_def local_HasDriver_def s3_HasSecret_def
      nfs_HasSecret_def local_HasSecret_def s3_CreatePV_def nfs_CreatePV_def local_CreatePV_def
      s3_getSecretConfig_def nfs_getSecretConfig_def base_getSecret_def; intro idle_intros)+

lemma collect_volumes_idle: "idle (collect_volumes r w user ns ps vs ms)"
  by (induction ps arbitrary: vs ms) (auto intro!: idle_intros provider_idle)

lemma initJob_idle: "idle (initJob r cfg w uid app svc sm)"
  unfolding initJob_def GetVolumeAndMountSpecs_def validateAppImage_def checkImageForUIDCollisions_def
  by (intro idle_intros collect_volumes_idle)

text \<open>A program that reads the clock idles if it does so at every later time.\<close>

lemma now_idles:
  assumes "\<And>t. pf_now (rc_platform r) x \<le> t \<Longrightarrow> idles (f t) b"
  shows "idles (State_Monad.bind (Now r) f) b"
  unfolding idles_def Now_def
proof (intro allI impI)
  fix s :: "'w sys" assume s: "same (sys_world s)"
  then show "fst (run_state (observe (pf_now (rc_platform r)) \<bind> f) s) = b \<and>
      same (sys_world (snd (run_state (observe (pf_now (rc_platform r)) \<bind> f) s))) \<and>
      (\<exists>cs. sys_trace (snd (run_state (observe (pf_now (rc_platform r)) \<bind> f) s)) = sys_trace s @ cs \<and>
        list_all (\<lambda>c. \<not> is_write c) cs)"
    using assms [OF clock_forward [OF s]] by (simp add: idles_def)
qed

lemma write_status_idles: "idles (write_status r (False, w)) w"
  by (simp add: write_status_def idles_return)

end

section \<open>The steady state\<close>

text \<open>
  Each predicate looks at one part of the cluster as the world \<open>x\<close> shows it: the deployment and
  the server's pod, the objects of one storage provider, and the applications.
\<close>

text \<open>
  A pod whose health no longer changes by itself: both containers are ready and the server's has been running for five
  minutes, or was never restarted.
\<close>

definition settled_pod :: "time \<Rightarrow> pod \<Rightarrow> pod_health \<Rightarrow> bool" where
  "settled_pod now p h \<longleftrightarrow> server_pod_ready p \<and>
     (case find_status ''xpra-server'' (pod_statuses p) of
        None \<Rightarrow> False
      | Some c \<Rightarrow> cs_waiting c = None \<and> cs_terminated c = None \<and>
          (case cs_running c of None \<Rightarrow> False | Some since \<Rightarrow> cs_restart_count c \<le> 0 \<or> 5 * minute \<le> now - since) \<and>
          h = \<lparr>ph_status = PodReady, ph_ready = True, ph_restart_count = cs_restart_count c,
               ph_message = ''Container is ready''\<rparr>)"

definition steady_pods :: "time \<Rightarrow> pod list reply \<Rightarrow> pod_health option \<Rightarrow> bool" where
  "steady_pods now l stored = (case l of
       Inl _ \<Rightarrow> False
     | Inr pods \<Rightarrow> (case (latest_pod pods, stored) of (Some p, Some h) \<Rightarrow> settled_pod now p h | _ \<Rightarrow> False))"

definition steady_deployment :: "'w reconciler \<Rightarrow> workbench \<Rightarrow> 'w \<Rightarrow> deployment \<Rightarrow> bool" where
  "steady_deployment r w x found \<longleftrightarrow>
     map ct_image (containers_of found) = [server_image w (rc_config r)] \<and>
     map ct_image (init_containers_of found) = [socat_image (rc_config r)] \<and>
     ss_revision (wb_server w) = revision_of found \<and>
     (case dep_conditions found of [] \<Rightarrow> False | c # _ \<Rightarrow> ss_status (wb_server w) = condition_status c) \<and>
     (case dep_selector found of
        None \<Rightarrow> False
      | Some ls \<Rightarrow> steady_pods (pf_now (rc_platform r) x)
          (fst (pf_list_pods (rc_platform r) (wb_namespace w) ls x)) (ss_pod (wb_server w)))"

definition steady_server :: "'w reconciler \<Rightarrow> workbench \<Rightarrow> 'w \<Rightarrow> bool" where
  "steady_server r w x = (case set_owner r w (dep_meta (initDeployment w (rc_config r))) of
       Inl _ \<Rightarrow> False
     | Inr m \<Rightarrow> (case fst (pf_get_deployment (rc_platform r) (key_of m) x) of
           Inl _ \<Rightarrow> False | Inr found \<Rightarrow> steady_deployment r w x found))"

text \<open>A storage whose driver or secret is missing, or whose volume cannot be described, has no objects.\<close>

definition steady_storage :: "'w reconciler \<Rightarrow> workbench \<Rightarrow> 'w \<Rightarrow> provider \<Rightarrow> bool" where
  "steady_storage r w x p \<longleftrightarrow> \<not> result_of (HasDriver r p) x \<or> \<not> result_of (HasSecret r p) x \<or>
     (case result_of (CreatePV r p w) x of
        Inl _ \<Rightarrow> True
      | Inr pv \<Rightarrow> \<not> isl (fst (pf_get_pv (rc_platform r) (om_name (pv_meta pv)) x)) \<and>
          \<not> isl (fst (pf_get_pvc (rc_platform r) (key_of (pvc_meta (CreatePVC p w))) x)))"

text \<open>
  The names of the jobs that one application keeps, or \<open>None\<close> when it is not steady: an application that
  cannot be built is marked failed; one that is not to run may be without a job; else its job is there, suspended or not
  as it should be, and its status is that of the job.
\<close>

definition entry_status :: "workbench \<Rightarrow> string \<Rightarrow> app_status option" where
  "entry_status w uid = map_option ae_status (map_get (wb_app_entries w) uid)"

definition steady_app :: "'w reconciler \<Rightarrow> service \<Rightarrow> workbench \<Rightarrow> 'w \<Rightarrow> string \<Rightarrow> workbench_app \<Rightarrow> string list option" where
  "steady_app r svc w x uid app =
     (case result_of (initJob r (rc_config r) w uid app svc (NewStorageManager (rc_config r))) x of
        Inl _ \<Rightarrow> if entry_status w uid = Some AppFailed then Some [] else None
      | Inr j \<Rightarrow> (case set_owner r w (job_meta j) of
            Inl _ \<Rightarrow> None
          | Inr m \<Rightarrow> (case fst (pf_get_job (rc_platform r) (key_of m) x) of
                Inl e \<Rightarrow> if e = NotFound \<and> app_suspended app then Some [] else None
              | Inr found \<Rightarrow>
                  if job_name found = om_name m \<and> job_suspend found = Some (app_suspended app) \<and>
                     entry_status w uid = Some (job_app_status found)
                  then Some [om_name m] else None)))"

fun steady_apps :: "'w reconciler \<Rightarrow> service \<Rightarrow> workbench \<Rightarrow> 'w \<Rightarrow> workbench_app gomap \<Rightarrow> string list option" where
  "steady_apps r svc w x [] = Some []"
| "steady_apps r svc w x ((uid, app) # apps) =
     (case steady_app r svc w x uid app of
        None \<Rightarrow> None
      | Some names \<Rightarrow> map_option (\<lambda>rest. names @ rest) (steady_apps r svc w x apps))"

definition steady_jobs :: "'w reconciler \<Rightarrow> service \<Rightarrow> workbench \<Rightarrow> 'w \<Rightarrow> bool" where
  "steady_jobs r svc w x = (case steady_apps r svc w x (wb_apps w) of
       None \<Rightarrow> False
     | Some names \<Rightarrow> (case fst (pf_list_jobs (rc_platform r) (own_labels w) x) of
           Inl _ \<Rightarrow> False | Inr items \<Rightarrow> list_all (\<lambda>j. job_name j \<in> set names) items))"

definition steady :: "'w reconciler \<Rightarrow> workbench \<Rightarrow> 'w \<Rightarrow> bool" where
  "steady r w x \<longleftrightarrow> \<not> being_deleted w \<and> contains_finalizer r w \<and> steady_server r w x \<and>
     (case set_owner r w (svc_meta (initService w)) of
        Inl _ \<Rightarrow> False
      | Inr m \<Rightarrow> \<not> isl (fst (pf_get_service (rc_platform r) (key_of m) x)) \<and>
          list_all (steady_storage r w x) (GetEnabledProviders (NewStorageManager (rc_config r)) w) \<and>
          steady_jobs r (initService w\<lparr>svc_meta := m\<rparr>) w x)"

section \<open>It stays\<close>

text \<open>Each of the comparisons the operator makes finds nothing to change.\<close>

lemma same_images:
  assumes "map ct_image (containers_of f) = [server_image w cfg]" "map ct_image (init_containers_of f) = [socat_image cfg]"
  shows "updateDeployment (initDeployment w cfg\<lparr>dep_meta := m\<rparr>) f = Inr (False, f)"
proof -
  obtain c k where f: "containers_of f = [c]" "init_containers_of f = [k]"
    and images: "ct_image c = server_image w cfg" "ct_image k = socat_image cfg"
    using assms by (cases "containers_of f"; cases "init_containers_of f") auto
  have model: "containers_of (initDeployment w cfg\<lparr>dep_meta := m\<rparr>) = [server_container w cfg]"
      "init_containers_of (initDeployment w cfg\<lparr>dep_meta := m\<rparr>) = [sidecar_container cfg]"
      "ct_image (server_container w cfg) = server_image w cfg" "ct_image (sidecar_container cfg) = socat_image cfg"
    by (simp_all add: server_container_def sidecar_container_def new_container_def)
  have same: "ct_image c = i \<Longrightarrow> c\<lparr>ct_image := i\<rparr> = c" for c :: container and i by (cases c) simp
  show ?thesis
    unfolding updateDeployment_single [OF model(1,2) f] model(3,4)
    by (simp add: images same [OF images(1)] same [OF images(2)] set_dep_spec_same [OF f])
qed

lemma same_deployment_quiet:
  "ss_revision (wb_server w) = revision_of f \<Longrightarrow>
   (case dep_conditions f of [] \<Rightarrow> False | c # _ \<Rightarrow> ss_status (wb_server w) = condition_status c) \<Longrightarrow>
   UpdateStatusFromDeployment f w = (False, w)"
  by (cases "dep_conditions f") (simp_all add: UpdateStatusFromDeployment_def)

lemma steady_podsD:
  assumes "steady_pods now l stored"
  obtains pods p h where "l = Inr pods" "latest_pod pods = Some p" "stored = Some h" "settled_pod now p h"
proof (cases l)
  case (Inr pods)
  then show ?thesis using assms that by (cases "latest_pod pods"; cases stored) (simp_all add: steady_pods_def)
qed (use assms in \<open>simp add: steady_pods_def\<close>)

lemma settled_health:
  assumes "latest_pod pods = Some p" "settled_pod now p h" "now \<le> t"
  shows "observed_health t pods = h"
proof -
  obtain i c since where "om_deletion (pod_meta p) = None" "find_status ''xpra-server-bind'' (pod_init_statuses p) = Some i" "cs_ready i"
      "find_status ''xpra-server'' (pod_statuses p) = Some c" "cs_ready c" "cs_waiting c = None" "cs_terminated c = None"
      "cs_running c = Some since" "cs_restart_count c \<le> 0 \<or> 5 * minute \<le> now - since"
      "h = mk_health PodReady True (cs_restart_count c) ''Container is ready''"
    using assms(2) by (auto simp: settled_pod_def server_pod_ready_def mk_health_def split: option.splits)
  then show ?thesis
    using assms(1,3)
    by (auto simp: observed_health_def determineServerPodHealth_def determineContainerHealth_def time_since_def Let_def)
qed

lemma stored_health_kept: "ss_pod (wb_server w) = Some h \<Longrightarrow> setServerPodHealth h w = (False, w)"
  by (simp add: setServerPodHealth_def)

lemma failed_entry_quiet: "entry_status w uid = Some AppFailed \<Longrightarrow> SetAppStatusFailed uid w = (False, w)"
  by (auto simp: entry_status_def SetAppStatusFailed_def split: option.splits)

lemma same_entry_quiet:
  "entry_status w uid = Some (job_app_status j) \<Longrightarrow> map_get (wb_apps w) uid \<noteq> None \<Longrightarrow>
   UpdateStatusFromJob (uid, j) w = (False, w)"
  by (auto simp: entry_status_def UpdateStatusFromJob_def split: option.splits)

lemma same_suspension_quiet:
  "job_suspend j = Some b \<Longrightarrow> job_suspend found = Some b \<Longrightarrow> updateJob j found = (False, found)"
  by (simp add: updateJob_def)

lemma steady_serverD:
  assumes "steady_server r w x" "set_owner r w (dep_meta (initDeployment w (rc_config r))) = Inr m"
  obtains f where "fst (pf_get_deployment (rc_platform r) (key_of m) x) = Inr f" "steady_deployment r w x f"
  using assms by (cases "fst (pf_get_deployment (rc_platform r) (key_of m) x)") (auto simp: steady_server_def)

lemma steady_deploymentD:
  assumes "steady_deployment r w x f"
  obtains ls pods p h where "dep_selector f = Some ls" "fst (pf_list_pods (rc_platform r) (wb_namespace w) ls x) = Inr pods"
    "latest_pod pods = Some p" "ss_pod (wb_server w) = Some h" "settled_pod (pf_now (rc_platform r) x) p h"
proof (cases "dep_selector f")
  case (Some ls)
  then show ?thesis using assms that by (auto simp: steady_deployment_def elim: steady_podsD)
qed (use assms in \<open>simp add: steady_deployment_def\<close>)

lemma settled_pod_ready: "settled_pod now p h \<Longrightarrow> ph_ready h"
  by (simp add: settled_pod_def split: option.splits)

lemma steady_server_ready:
  assumes "steady_server r w x"
  shows "xpra_ready w"
proof -
  obtain m where m: "set_owner r w (dep_meta (initDeployment w (rc_config r))) = Inr m"
    using assms by (cases "set_owner r w (dep_meta (initDeployment w (rc_config r)))") (auto simp: steady_server_def)
  obtain f where "steady_deployment r w x f" by (rule steady_serverD [OF assms m])
  then obtain p h where "ss_pod (wb_server w) = Some h" "settled_pod (pf_now (rc_platform r) x) p h"
    by (rule steady_deploymentD)
  then show ?thesis by (simp add: xpra_ready_def settled_pod_ready)
qed

context calm_platform
begin

lemma steady_server_idles:
  assumes "steady_server r w x" "set_owner r w (dep_meta (initDeployment w (rc_config r))) = Inr m"
  shows "idles (reconcile_server r (initDeployment w (rc_config r)\<lparr>dep_meta := m\<rparr>) w) (Inr w)"
proof -
  let ?d = "initDeployment w (rc_config r)\<lparr>dep_meta := m\<rparr>"
  obtain f where f: "fst (pf_get_deployment (rc_platform r) (key_of m) x) = Inr f" "steady_deployment r w x f"
    by (rule steady_serverD [OF assms])
  note found = f(2) [unfolded steady_deployment_def]
  obtain ls pods p h where pods: "dep_selector f = Some ls" "fst (pf_list_pods (rc_platform r) (wb_namespace w) ls x) = Inr pods"
      "latest_pod pods = Some p" "ss_pod (wb_server w) = Some h" "settled_pod (pf_now (rc_platform r) x) p h"
    by (rule steady_deploymentD [OF f(2)])
  have status: "UpdateStatusFromDeployment f w = (False, w)" using found by (simp add: same_deployment_quiet)
  have images: "updateDeployment ?d f = Inr (False, f)" using found by (simp add: same_images)
  have deployment: "idles (createDeployment r ?d) (Inr f)"
    unfolding createDeployment_def
    by (rule idles_bind [OF reads_idle(2)]) (simp add: f(1) idles_return flip: key_of_def)
  have "idles (updateServerPodHealth r w f) (Inr (False, w))"
    unfolding updateServerPodHealth_def pods(1) option.case
    by (rule idles_bind [OF reads_idle(9)], rule now_idles)
      (simp add: pods(2) settled_health [OF pods(3,5)] stored_health_kept [OF pods(4)] idles_return)
  then show ?thesis
    unfolding reconcile_server_def
    by (intro idles_bind [OF deployment])
      (simp add: status, rule idles_bind, assumption, simp,
       rule idles_bind [OF write_status_idles], simp add: apply_server_update_def images idles_return)
qed

lemma steady_storage_idle:
  assumes "steady_storage r w x p"
  shows "idle (processStorageProvider r w p)"
proof -
  have event: "idle (record_if_present r e)" for e
    unfolding record_if_present_def by (intro idle_intros)
  have there: "idle (ensure_volume r w p pv \<bind> case_sum (\<lambda>e. State_Monad.return (Inl e)) (\<lambda>_. ensure_claim r w p))"
    if found: "\<not> isl (fst (pf_get_pv (rc_platform r) (om_name (pv_meta pv)) x))"
      "\<not> isl (fst (pf_get_pvc (rc_platform r) (key_of (pvc_meta (CreatePVC p w))) x))" for pv
  proof -
    obtain v c where that: "fst (pf_get_pv (rc_platform r) (om_name (pv_meta pv)) x) = Inr v"
        "fst (pf_get_pvc (rc_platform r) (key_of (pvc_meta (CreatePVC p w))) x) = Inr c"
      using found by (metis isl_def sum.exhaust)
    have "idles (ensure_volume r w p pv) (Inr ())"
      unfolding ensure_volume_def by (rule idles_bind [OF reads_idle(5)]) (simp add: that idles_return)
    moreover have "idles (ensure_claim r w p) (Inr (GetPVCName p (wb_namespace w)))"
      unfolding ensure_claim_def Let_def
      by (rule idles_bind [OF reads_idle(6)]) (simp add: that idles_return flip: key_of_def)
    ultimately show ?thesis by (auto intro!: idleI idles_bind)
  qed
  show ?thesis
    unfolding processStorageProvider_def
    apply (rule idle_step [OF provider_idle(1)])
    apply (rule idle_if)
     apply (intro idle_intros event)
    apply (rule idle_step [OF provider_idle(2)])
    apply (rule idle_if)
     apply (intro idle_intros event)
    apply (rule idle_step [OF provider_idle(3)])
    apply (rule idle_sum)
     apply (rule idle_return)
    apply (rule there)
     apply (use assms in \<open>simp_all add: steady_storage_def\<close>)
    done
qed

lemma process_all_idle:
  "list_all (steady_storage r w x) ps \<Longrightarrow> idle (process_all r w ps m)"
  by (induction ps arbitrary: m) (auto intro!: idle_return idle_bind idle_cases steady_storage_idle)

lemma ProcessEnabledStorage_idles:
  assumes "list_all (steady_storage r w x) (GetEnabledProviders sm w)"
  shows "\<exists>m. idles (ProcessEnabledStorage r sm w) (Inr m)"
  using process_all_idle [OF assms, of Map.empty]
  unfolding ProcessEnabledStorage_def idle_iff by (auto intro: idles_bind idles_return)

lemma steady_app_idles:
  assumes "steady_app r svc w x uid app = Some names" "map_get (wb_apps w) uid \<noteq> None"
  shows "idles (reconcile_app r svc (NewStorageManager (rc_config r)) uid app w) (Inr (w, names))"
proof -
  let ?init = "initJob r (rc_config r) w uid app svc (NewStorageManager (rc_config r))"
  have init: "idles ?init (result_of ?init x)" using initJob_idle by (simp add: idle_def)
  show ?thesis
  proof (cases "result_of ?init x")
    case (Inl e)
    then have failed: "SetAppStatusFailed uid w = (False, w)" "names = []"
      using assms(1) by (auto simp: steady_app_def failed_entry_quiet split: if_splits)
    then show ?thesis
      unfolding reconcile_app_def
      by (intro idles_bind [OF init [unfolded Inl]])
        (auto intro: idles_bind [OF write_status_idles] simp: idles_return)
  next
    case (Inr j)
    obtain m where m: "set_owner r w (job_meta j) = Inr m"
      using assms(1) Inr by (auto simp: steady_app_def split: sum.splits)
    have suspend: "job_suspend j = Some (app_suspended app)"
      using Inr by (auto elim: initJob_built)
    let ?j = "j\<lparr>job_meta := m\<rparr>"
    have rest: "idles (createJob r ?j \<bind> case_sum
        (\<lambda>e. State_Monad.return (if is_suspended_error e then Inr (w, []) else Inl (Failed e)))
        (\<lambda>y. case y of None \<Rightarrow> State_Monad.return (Inr (w, [job_name ?j]))
           | Some found \<Rightarrow> reconcile_found_job r uid ?j found w)) (Inr (w, names))"
    proof (cases "fst (pf_get_job (rc_platform r) (key_of m) x)")
      case (Inl e)
      then have e: "e = NotFound" "app_suspended app" "names = []"
        using assms(1) Inr m by (auto simp: steady_app_def split: if_splits)
      have "idles (createJob r ?j) (Inl (SuspendedJob (job_name ?j)))"
        unfolding createJob_def
        by (rule idles_bind [OF reads_idle(4)])
          (simp add: Inl e suspend IsNotFound_def idles_return flip: key_of_def)
      then show ?thesis by (rule idles_bind) (simp add: is_suspended_error_def e idles_return)
    next
      case found: (Inr f)
      then have f: "job_name f = om_name m" "job_suspend f = Some (app_suspended app)"
          "entry_status w uid = Some (job_app_status f)" "names = [om_name m]"
        using assms(1) \<open>result_of ?init x = Inr j\<close> m by (auto simp: steady_app_def split: if_splits)
      have create: "idles (createJob r ?j) (Inr (Some f))"
        unfolding createJob_def
        by (rule idles_bind [OF reads_idle(4)]) (simp add: found idles_return flip: key_of_def)
      have "idles (reconcile_found_job r uid ?j f w) (Inr (w, names))"
        unfolding reconcile_found_job_def same_entry_quiet [OF f(3) assms(2)]
        by (rule idles_bind [OF write_status_idles])
          (simp add: f same_suspension_quiet [of ?j "app_suspended app" f] suspend idles_return)
      then show ?thesis by (intro idles_bind [OF create]) simp
    qed
    show ?thesis
      unfolding reconcile_app_def
      by (rule idles_bind [OF init [unfolded Inr]], simp only: sum.case m Let_def, rule rest)
  qed
qed

lemma steady_apps_idles:
  "steady_apps r svc w x apps = Some names \<Longrightarrow> set apps \<subseteq> set (wb_apps w) \<Longrightarrow>
   idles (reconcile_apps r svc (NewStorageManager (rc_config r)) apps w before) (Inr (w, before @ names))"
proof (induction apps arbitrary: names before)
  case (Cons a apps)
  obtain uid app where a: "a = (uid, app)" by fastforce
  obtain ns rest where ns: "steady_app r svc w x uid app = Some ns" "steady_apps r svc w x apps = Some rest" "names = ns @ rest"
    using Cons.prems(1) by (auto simp: a split: option.splits)
  have uid: "map_get (wb_apps w) uid \<noteq> None"
    using Cons.prems(2) imageI [of "(uid, app)" "set (wb_apps w)" fst]
    by (simp add: a map_get_def map_of_eq_None_iff)
  show ?case
    unfolding a reconcile_apps.simps
    by (rule idles_bind [OF steady_app_idles [OF ns(1) uid]])
      (use Cons.IH [OF ns(2), of "before @ ns"] Cons.prems(2) in \<open>simp add: ns(3)\<close>)
qed (simp add: idles_return)

lemma sweep_idles:
  assumes "fst (pf_list_jobs (rc_platform r) (own_labels w) x) = Inr items" "list_all (\<lambda>j. job_name j \<in> set names) items"
  shows "idles (sweep_jobs r w names) (Finished 0)"
proof -
  have "remove_extra_jobs r (SortSlice names) items = State_Monad.return (Finished 0)"
    using assms(2) by (induction items) (simp_all add: name_search.member_prepare)
  then show ?thesis
    unfolding sweep_jobs_def findJobs_def
    by (intro idles_bind [OF reads_idle(10)]) (simp add: assms(1) idles_return)
qed

lemma steady_jobs_idles:
  assumes "steady_jobs r svc w x" "xpra_ready w"
  shows "idles (reconcile_jobs r svc (NewStorageManager (rc_config r)) w) (Finished 0)"
proof -
  obtain names items where n: "steady_apps r svc w x (wb_apps w) = Some names"
      "fst (pf_list_jobs (rc_platform r) (own_labels w) x) = Inr items" "list_all (\<lambda>j. job_name j \<in> set names) items"
    using assms(1) by (auto simp: steady_jobs_def split: option.splits sum.splits)
  show ?thesis
    using assms(2) unfolding reconcile_jobs_def
    by (simp, intro idles_bind [OF steady_apps_idles [OF n(1) subset_refl]]) (simp add: sweep_idles [OF n(2,3)])
qed

lemma Reconcile_idles:
  assumes "fst (pf_get_workbench (rc_platform r) k x) = Inr w" "steady r w x"
  shows "idles (Reconcile r k) (Finished 0)"
proof -
  obtain m m' sv where m: "set_owner r w (dep_meta (initDeployment w (rc_config r))) = Inr m"
      "set_owner r w (svc_meta (initService w)) = Inr m'" "fst (pf_get_service (rc_platform r) (key_of m') x) = Inr sv"
    using assms(2) by (auto simp: steady_def steady_server_def isl_def split: sum.splits) (metis sum.exhaust)
  have s: "\<not> being_deleted w" "contains_finalizer r w" "steady_server r w x" "xpra_ready w"
      "list_all (steady_storage r w x) (GetEnabledProviders (NewStorageManager (rc_config r)) w)"
      "steady_jobs r (initService w\<lparr>svc_meta := m'\<rparr>) w x"
    using assms(2) m(2) steady_server_ready [of r w x] by (simp_all add: steady_def)
  have service: "idles (createService r (initService w\<lparr>svc_meta := m'\<rparr>)) (Inr ())"
    unfolding createService_def by (rule idles_bind [OF reads_idle(3)]) (simp add: m(3) idles_return flip: key_of_def)
  obtain vs where storage: "idles (ProcessEnabledStorage r (NewStorageManager (rc_config r)) w) (Inr vs)"
    using ProcessEnabledStorage_idles [OF s(5)] by blast
  have rest: "idles (reconcile_rest r w) (Finished 0)"
    unfolding reconcile_rest_def Let_def m(2) sum.case
    by (rule idles_bind [OF service], simp, rule idles_bind [OF storage], simp, rule steady_jobs_idles [OF s(6,4)])
  have live: "idles (reconcile_live r w) (Finished 0)"
    unfolding reconcile_live_def Let_def m(1) sum.case
    by (rule idles_bind [OF steady_server_idles [OF s(3) m(1)]]) (simp add: rest)
  show ?thesis
    unfolding Reconcile_def
    by (rule idles_bind [OF reads_idle(1)])
      (simp add: assms(1) s ensure_finalizer_def live)
qed

lemma passes_idle:
  "idles (Reconcile r k) out \<Longrightarrow> idles (passes n r k) (replicate n out)"
  by (induction n) (auto intro!: idles_return idles_bind)

end

section \<open>A cluster whose clock goes on\<close>

text \<open>The cluster in memory with a clock: a second passes with every look-up of a workbench.\<close>

definition ticking_platform :: "cluster platform" where
  "ticking_platform = memory_platform
     \<lparr>pf_get_workbench := \<lambda>k c. (lookup_object wb_meta k (cl_workbenches c), c\<lparr>cl_now := cl_now c + second\<rparr>)\<rparr>"

definition ticking_reconciler :: "cluster reconciler" where
  "ticking_reconciler = sample_reconciler\<lparr>rc_platform := ticking_platform\<rparr>"

lemma ticking_sel [simp]:
  "rc_platform ticking_reconciler = ticking_platform" "rc_config ticking_reconciler = sample_config"
  by (simp_all add: ticking_reconciler_def)

text \<open>Only the clock and the events differ between its steps.\<close>

definition later :: "cluster \<Rightarrow> cluster \<Rightarrow> bool" where
  "later x y \<longleftrightarrow> cl_now x \<le> cl_now y \<and> y = x\<lparr>cl_events := cl_events y, cl_now := cl_now y\<rparr>"

lemma later_fields:
  "later x y \<Longrightarrow> cl_workbenches y = cl_workbenches x \<and> cl_deployments y = cl_deployments x \<and> cl_services y = cl_services x \<and>
     cl_jobs y = cl_jobs x \<and> cl_volumes y = cl_volumes x \<and> cl_claims y = cl_claims x \<and> cl_secrets y = cl_secrets x \<and>
     cl_drivers y = cl_drivers x \<and> cl_pods y = cl_pods x \<and> cl_tools y = cl_tools x \<and> cl_images y = cl_images x \<and>
     cl_now x \<le> cl_now y"
  by (cases x; cases y) (simp add: later_def)

lemma later_still: "later x y \<Longrightarrow> 0 \<le> d \<Longrightarrow> later x (y\<lparr>cl_now := cl_now y + d\<rparr>)" "later x y \<Longrightarrow> later x (y\<lparr>cl_events := e\<rparr>)"
  by (cases x; cases y; simp add: later_def)+

interpretation ticking: calm_platform ticking_reconciler "later x" x for x
proof
  show "later x x" by (simp add: later_def)
qed (auto simp: ticking_platform_def memory_platform_def second_def later_still dest: later_fields)

section \<open>Property\<close>

text \<open>C30: The control loop comes to rest. When a live workbench is steady, that is, its deployment runs the images
  that are asked for, the server's pod is ready and has settled, its service, the volumes and claims of its storages and the jobs of its
  applications are there, no other job carries its label, and its status says what these objects show, then however often
  \<open>Reconcile\<close> is called and however much time passes, as long as the objects stay as they are, each
  call ends without an error or a request to come back, and nothing is written.\<close>

theorem steady_state_is_quiet:
  assumes "calm_platform r same x" "fst (pf_get_workbench (rc_platform r) k x) = Inr w" "steady r w x"
  shows "result_of (passes n r k) x = replicate n (Finished 0) \<and>
    list_all (\<lambda>c. \<not> is_write c) (calls_of (passes n r k) x)"
proof -
  note calm = calm_platform.passes_idle [OF assms(1) calm_platform.Reconcile_idles [OF assms]]
  show ?thesis
    using calm_platform.idles_result [OF assms(1) calm] calm_platform.idles_calls [OF assms(1) calm] by simp
qed

text \<open>A steady cluster: one call creates the objects, the cluster makes them run, and a second call
  writes this into the status.\<close>

definition pass_on :: "cluster \<Rightarrow> cluster" where
  "pass_on x = sys_world (snd (run_state (Reconcile ticking_reconciler sample_key) (start x)))"

definition started_up :: "cluster \<Rightarrow> cluster" where
  "started_up x = x
     \<lparr>cl_deployments := map (\<lambda>d. d\<lparr>dep_conditions := [\<lparr>dc_type = ''Available'', dc_status = ''True'', dc_reason = []\<rparr>]\<rparr>) (cl_deployments x),
      cl_jobs := map (\<lambda>j. j\<lparr>job_active := 1, job_ready := Some 1\<rparr>) (cl_jobs x)\<rparr>"

abbreviation second_run :: "outcome \<times> cluster sys" where
  "second_run \<equiv> run_state (Reconcile ticking_reconciler sample_key) (start (started_up (pass_on (sample_cluster [live_workbench]))))"

definition steady_cluster :: cluster where
  "steady_cluster = sys_world (snd second_run)"

definition steady_workbench :: workbench where
  "steady_workbench = hd (cl_workbenches steady_cluster)"

lemma second_run_evaluated:
  "case second_run of (out, s) \<Rightarrow>
     fst (pf_get_workbench ticking_platform sample_key (sys_world s)) = Inr (hd (cl_workbenches (sys_world s))) \<and>
     steady ticking_reconciler (hd (cl_workbenches (sys_world s))) (sys_world s)"
  by code_simp

lemma steady_cluster_facts:
  "fst (pf_get_workbench ticking_platform sample_key steady_cluster) = Inr steady_workbench"
  "steady ticking_reconciler steady_workbench steady_cluster"
  using second_run_evaluated unfolding case_prod_beta steady_cluster_def steady_workbench_def by blast+

theorem steady_state_is_quiet_witness:
  "result_of (passes 1000 ticking_reconciler sample_key) steady_cluster = replicate 1000 (Finished 0)"
  using steady_state_is_quiet [OF ticking.calm_platform_axioms] steady_cluster_facts by simp

end
