(* ===== verification/Reconciler_Replay.thy ===== *)
theory Reconciler_Replay
  imports Reconciler
begin

text \<open>
  Every part of the reconciler replays its own trace: the calls a run of \<open>Reconcile\<close> records are
  steps of the platform, one after the other, from the world it was started in to the world it left. What
  holds of the calls of every run can so be turned into invariants of the worlds it passes through.
\<close>

lemma initJob_faithful [faithful_intros]: "faithful (rc_platform r) (initJob r cfg w uid app svc sm)"
  unfolding initJob_def GetVolumeAndMountSpecs_def validateAppImage_def checkImageForUIDCollisions_def
  by (intro faithful_intros)

lemma server_faithful [faithful_intros]: "faithful (rc_platform r) (reconcile_server r d w)"
  unfolding reconcile_server_def createDeployment_def updateServerPodHealth_def write_status_def
    apply_server_update_def emit_event_def
  by (intro faithful_intros)

lemma reconcile_app_faithful [faithful_intros]: "faithful (rc_platform r) (reconcile_app r svc sm uid app w)"
  unfolding reconcile_app_def createJob_def reconcile_found_job_def write_status_def Let_def
  by (intro faithful_intros)

lemma reconcile_apps_faithful [faithful_intros]:
  "faithful (rc_platform r) (reconcile_apps r svc sm apps w names)"
  by (induction apps arbitrary: w names) (auto intro!: faithful_intros)

lemma remove_extra_jobs_faithful [faithful_intros]: "faithful (rc_platform r) (remove_extra_jobs r names js)"
  by (induction js) (auto simp: deleteJob_def intro!: faithful_intros)

lemma reconcile_live_faithful [faithful_intros]: "faithful (rc_platform r) (reconcile_live r w)"
  unfolding reconcile_live_def reconcile_rest_def reconcile_jobs_def sweep_jobs_def findJobs_def
    createService_def ProcessEnabledStorage_def Let_def
  by (intro faithful_intros)

lemma reconcile_deletion_faithful [faithful_intros]: "faithful (rc_platform r) (reconcile_deletion r w)"
  unfolding reconcile_deletion_def deleteExternalResources_def deleteJobs_def deleteDeployments_def
    findJobs_def emit_event_def
  by (intro faithful_intros)

lemma ensure_finalizer_faithful [faithful_intros]: "faithful (rc_platform r) (ensure_finalizer r w)"
  unfolding ensure_finalizer_def by (intro faithful_intros)

lemma Reconcile_faithful [faithful_intros]: "faithful (rc_platform r) (Reconcile r k)"
  unfolding Reconcile_def by (intro faithful_intros)

lemma Reconcile_replays:
  "replays (rc_platform r) x (calls_of (Reconcile r k) x) (sys_world (snd (run_state (Reconcile r k) (start x))))"
  using does_start [OF Reconcile_faithful] .

end
