(* ===== verification/Reconciler_Status.thy ===== *)
theory Reconciler_Status
  imports Reconciler_Jobs
begin

text \<open>
  The type of the status that the operator writes. The custom resource definition allows three
  values for the server's status and five for an application's; the Go types allow any string. On every
  platform a status outside these enumerations is written only after an answer that was already
  outside, or after a deployment whose first condition is \<open>ReplicaFailure\<close>.
\<close>

definition status_typed :: "workbench \<Rightarrow> bool" where
  "status_typed w \<longleftrightarrow> server_status_valid (ss_status (wb_server w)) \<and>
     list_all (\<lambda>e. app_status_valid (ae_status (snd e))) (wb_app_entries w)"

text \<open>
  The status of a new workbench is unset; the server's part of it is written before the first
  application is looked at, so of a workbench that is read it matters only once the server is ready.
\<close>

definition status_readable :: "workbench \<Rightarrow> bool" where
  "status_readable w \<longleftrightarrow> (xpra_ready w \<longrightarrow> server_status_valid (ss_status (wb_server w))) \<and>
     list_all (\<lambda>e. app_status_valid (ae_status (snd e))) (wb_app_entries w)"

definition replica_failure :: "deployment \<Rightarrow> bool" where
  "replica_failure d \<longleftrightarrow> (case dep_conditions d of [] \<Rightarrow> False | c # _ \<Rightarrow> dc_type c = ''ReplicaFailure'')"

definition untyped_write :: "call \<Rightarrow> bool" where
  "untyped_write c = (case c of UpdatedStatus w _ \<Rightarrow> \<not> status_typed w | _ \<Rightarrow> False)"

definition untyped_answer :: "call \<Rightarrow> bool" where
  "untyped_answer c = (case c of
       GotWorkbench _ (Inr w) \<Rightarrow> \<not> status_readable w
     | UpdatedWorkbench _ (Inr w) \<Rightarrow> \<not> status_readable w
     | UpdatedStatus _ (Inr w) \<Rightarrow> \<not> status_typed w
     | GotDeployment _ (Inr d) \<Rightarrow> replica_failure d
     | CreatedDeployment _ (Inr d) \<Rightarrow> replica_failure d
     | _ \<Rightarrow> False)"

abbreviation typed_calls :: "call list \<Rightarrow> bool" where
  "typed_calls cs \<equiv> preceded untyped_write untyped_answer cs"

text \<open>Programs that write no workbench at all.\<close>

definition workbench_write :: "call \<Rightarrow> bool" where
  "workbench_write c = (case c of UpdatedStatus _ _ \<Rightarrow> True | UpdatedWorkbench _ _ \<Rightarrow> True | _ \<Rightarrow> False)"

abbreviation status_free :: "('w, 'a) prog \<Rightarrow> bool" where
  "status_free m \<equiv> only_calls (\<lambda>c. \<not> workbench_write c) m"

lemma workbench_write_simps [simp]:
  "\<not> workbench_write (GotWorkbench k gw)" "\<not> workbench_write (GotDeployment k gd)" "\<not> workbench_write (GotService k gs)"
  "\<not> workbench_write (GotJob k gj)" "\<not> workbench_write (ListedPods ns ls gp)" "\<not> workbench_write (ListedJobs ls gjs)"
  "\<not> workbench_write (CreatedDeployment d gd)" "\<not> workbench_write (CreatedService s gu)"
  "\<not> workbench_write (CreatedJob j gu)" "\<not> workbench_write (UpdatedDeployment d gu)" "\<not> workbench_write (UpdatedJob j gu)"
  "\<not> workbench_write (DeletedJob j gu)" "\<not> workbench_write (Recorded e)"
  by (simp_all add: workbench_write_def)

lemma status_typed_readable: "status_typed w \<Longrightarrow> status_readable w"
  by (simp add: status_typed_def status_readable_def)

lemma status_readable_typed: "status_readable w \<Longrightarrow> xpra_ready w \<Longrightarrow> status_typed w"
  by (simp add: status_typed_def status_readable_def)

section \<open>The status updates keep the type\<close>

lemma typed_map_put:
  "list_all (\<lambda>e. app_status_valid (ae_status (snd e))) m \<Longrightarrow> app_status_valid (ae_status v) \<Longrightarrow>
   list_all (\<lambda>e. app_status_valid (ae_status (snd e))) (map_put k v m)"
  by (induction m) auto

lemma typed_status_values [simp]: "app_status_valid AppUnknown" "app_status_valid AppFailed"
  by (simp_all add: app_status_valid_def)

lemma UpdateStatusFromJob_typed: "status_typed w \<Longrightarrow> status_typed (snd (UpdateStatusFromJob e w))"
  by (cases e) (auto simp: UpdateStatusFromJob_def status_typed_def Let_def typed_map_put)

lemma SetAppStatusFailed_typed: "status_typed w \<Longrightarrow> status_typed (snd (SetAppStatusFailed uid w))"
  by (auto simp: SetAppStatusFailed_def status_typed_def Let_def typed_map_put)

lemma deployment_status_typed:
  assumes "status_readable w" "\<not> replica_failure d"
  shows "status_typed (snd (setServerPodHealth h (snd (UpdateStatusFromDeployment d w))))"
proof -
  have "ss_status (wb_server (snd (setServerPodHealth h v))) = ss_status (wb_server v)"
    "wb_app_entries (snd (setServerPodHealth h v)) = wb_app_entries v" for v
    by (simp_all add: setServerPodHealth_def split: option.split)
  moreover have "server_status_valid (case dep_conditions d of [] \<Rightarrow> ServerProgressing | c # _ \<Rightarrow> condition_status c)"
    using assms(2) by (auto simp: replica_failure_def server_status_valid_def condition_status_def split: list.split)
  ultimately show ?thesis
    using assms(1) by (simp add: status_typed_def status_readable_def UpdateStatusFromDeployment_effect)
qed

section \<open>Calls without a status\<close>

lemma untyped_write_update: "untyped_write c \<Longrightarrow> is_update c"
  by (cases c) (simp_all add: untyped_write_def is_update_def)

lemma reads_typed: "list_all reads_only cs \<Longrightarrow> list_all (\<lambda>c. \<not> untyped_write c) cs"
  by (auto simp: list_all_iff reads_only_def is_write_def dest: untyped_write_update)

lemma untyped_simps [simp]:
  "\<not> untyped_write (GotWorkbench k gw)" "\<not> untyped_write (GotDeployment k gd)" "\<not> untyped_write (GotService k gs)"
  "\<not> untyped_write (GotJob k gj)" "\<not> untyped_write (ListedPods ns ls gp)" "\<not> untyped_write (ListedJobs ls gjs)"
  "\<not> untyped_write (UpdatedWorkbench w gw)" "\<not> untyped_write (UpdatedDeployment d gu)"
  "\<not> untyped_write (UpdatedJob j gu)" "\<not> untyped_write (DeletedJob j gu)" "\<not> untyped_write (Recorded e)"
  "\<not> untyped_write (CreatedDeployment d gd)" "\<not> untyped_write (CreatedService s gu)" "\<not> untyped_write (CreatedJob j gu)"
  "untyped_write (UpdatedStatus w gw) \<longleftrightarrow> \<not> status_typed w"
  "untyped_answer (GotWorkbench k (Inr w)) \<longleftrightarrow> \<not> status_readable w"
  "untyped_answer (UpdatedWorkbench w' (Inr w)) \<longleftrightarrow> \<not> status_readable w"
  "untyped_answer (UpdatedStatus w' (Inr w)) \<longleftrightarrow> \<not> status_typed w"
  "untyped_answer (GotDeployment k (Inr d)) \<longleftrightarrow> replica_failure d"
  "untyped_answer (CreatedDeployment d' (Inr d)) \<longleftrightarrow> replica_failure d"
  by (simp_all add: untyped_write_def untyped_answer_def)

lemma deletion_typed: "deletion_call w c \<Longrightarrow> \<not> untyped_write c"
  by (cases c) (simp_all add: deletion_call_def untyped_write_def)

lemma deletion_calls_typed: "list_all (deletion_call w) cs \<Longrightarrow> typed_calls cs"
  by (rule preceded_none) (auto simp: list_all_iff dest: deletion_typed)

lemma volume_writes_typed: "volume_writes w p c \<Longrightarrow> \<not> workbench_write c"
  by (cases c) (simp_all add: volume_writes_def setup_call_def reads_only_def call_kind_defs workbench_write_def)

lemma process_all_typed: "status_free (process_all r w ps m)"
proof (induction ps arbitrary: m)
  case (Cons p ps)
  have "status_free (processStorageProvider r w p)"
    unfolding only_calls_def
    by (rule emits_post [OF processStorageProvider_emits]) (auto simp: list_all_iff dest: volume_writes_typed)
  with Cons.IH show ?case by (auto intro!: only_intros)
qed (simp add: only_calls_return)

lemma ProcessEnabledStorage_typed: "status_free (ProcessEnabledStorage r sm w)"
  unfolding ProcessEnabledStorage_def by (intro only_intros process_all_typed)

lemma createService_typed: "status_free (createService r svc)"
  unfolding createService_def GetService_def CreateService_def by (intro only_intros) simp_all

lemma sweep_jobs_typed: "status_free (sweep_jobs r w names)"
proof -
  have "status_free (remove_extra_jobs r ns js)" for ns js
    by (induction js) (auto simp: deleteJob_def DeleteJob_def intro!: only_intros)
  then show ?thesis
    unfolding sweep_jobs_def findJobs_def ListJobs_def by (intro only_intros) simp_all
qed

lemma untyped_workbench_write: "untyped_write c \<Longrightarrow> workbench_write c"
  by (cases c) (simp_all add: untyped_write_def workbench_write_def)

lemma typed_free: "status_free m \<Longrightarrow> emits m (\<lambda>_ cs. list_all (\<lambda>c. \<not> untyped_write c) cs)"
  unfolding only_calls_def by (erule emits_post) (auto simp: list_all_iff dest: untyped_workbench_write)

section \<open>The parts that write a status\<close>

text \<open>What a part hands on is typed if what it was given was, or an answer was not.\<close>

lemma write_status_typed:
  "emits (write_status r x) (\<lambda>w' cs. status_typed (snd x) \<longrightarrow>
     list_all (\<lambda>c. \<not> untyped_write c) cs \<and> (status_typed w' \<or> list_ex untyped_answer cs))"
  by (rule emits_post [OF write_status_emits]) (auto simp: sum_cases)

lemma apply_server_update_typed:
  "emits (apply_server_update r d found w) (\<lambda>x cs. list_all (\<lambda>c. \<not> untyped_write c) cs \<and> (\<forall>w'. x = Inr w' \<longrightarrow> w' = w))"
  unfolding apply_server_update_def UpdateDeployment_def
  apply (rule emits_sum, simp, rule emits_prod, rule emits_if)
   apply (rule emits_bind [OF emit_event_emits], rule emits_sum)
    apply auto[1]
   apply (rule emits_bind [OF emits_perform [where Q = "\<lambda>a cs. \<exists>d. cs = [UpdatedDeployment d a]"]])
    apply blast
   apply (auto split: sum.splits)
  done

lemma createDeployment_typed:
  "emits (createDeployment r d) (\<lambda>x cs. list_all (\<lambda>c. \<not> untyped_write c) cs \<and>
     (\<forall>found. x = Inr found \<longrightarrow> replica_failure found \<longrightarrow> list_ex untyped_answer cs))"
  by (rule emits_post [OF createDeployment_emits]) (auto simp: sum_cases split: if_splits)

lemma health_shape:
  "emits (updateServerPodHealth r w d) (\<lambda>x cs. list_all (\<lambda>c. \<not> untyped_write c) cs \<and>
     (\<forall>y. x = Inr y \<longrightarrow> (\<exists>h. y = setServerPodHealth h w)))"
  by (rule emits_post [OF updateServerPodHealth_emits]) (fastforce split: option.splits)

lemma reconcile_server_typed:
  "emits (reconcile_server r d w) (\<lambda>x cs. status_readable w \<longrightarrow> typed_calls cs \<and>
    (\<forall>w'. x = Inr w' \<longrightarrow> status_readable w' \<or> list_ex untyped_answer cs))"
proof -
  have typed: "status_typed w2"
    if "status_readable w" "\<not> replica_failure f" "UpdateStatusFromDeployment f w = (u, w1)" "(b, w2) = setServerPodHealth h w1"
    for f u w1 b w2 h
    using deployment_status_typed [OF that(1,2), of h] that(3,4) by (metis snd_conv)
  show ?thesis
    unfolding reconcile_server_def
    apply (rule emits_bind [OF createDeployment_typed], rule emits_sum)
     apply (simp add: preceded_none)
    apply (rule emits_prod)
    apply (rule emits_bind [OF health_shape], rule emits_sum)
     apply (auto simp: preceded_none)[1]
    apply (rule emits_prod)
    apply (rule emits_bind [OF write_status_typed])
    apply (rule emits_post [OF apply_server_update_typed])
    subgoal for x cs found u w1 y ds z b w2 w3 es v fs
      using typed [of found u w1 b w2] status_typed_readable
      by (cases "replica_failure found") (auto simp: preceded_none)
    done
qed

lemma reconcile_found_job_typed:
  "emits (reconcile_found_job r uid j found w) (\<lambda>x cs. status_typed w \<longrightarrow> typed_calls cs \<and>
     (\<forall>w' names. x = Inr (w', names) \<longrightarrow> status_typed w' \<or> list_ex untyped_answer cs))"
  unfolding reconcile_found_job_def UpdateJob_def
  apply (rule emits_bind [OF write_status_typed], rule emits_if)
   apply (auto simp: preceded_none dest: UpdateStatusFromJob_typed)[1]
  apply (rule emits_prod, rule emits_if)
   apply (rule emits_bind [OF emits_perform [where Q = "\<lambda>a cs. \<exists>f. cs = [UpdatedJob f a]"]])
    apply blast
   apply (auto simp: preceded_none dest: UpdateStatusFromJob_typed split: sum.splits)
  done

lemma createJob_typed: "emits (createJob r j) (\<lambda>_ cs. list_all (\<lambda>c. \<not> untyped_write c) cs)"
  by (rule emits_post [OF createJob_emits]) (auto simp: sum_cases split: if_splits)

lemma initJob_typed: "emits (initJob r cfg w uid app svc sm) (\<lambda>_ cs. list_all (\<lambda>c. \<not> untyped_write c) cs)"
  by (rule emits_post [OF initJob_reads]) (simp add: reads_typed)

lemma reconcile_app_typed:
  "emits (reconcile_app r svc sm uid app w) (\<lambda>x cs. status_typed w \<longrightarrow> typed_calls cs \<and>
     (\<forall>w' names. x = Inr (w', names) \<longrightarrow> status_typed w' \<or> list_ex untyped_answer cs))"
  unfolding reconcile_app_def Let_def
  apply (rule emits_bind [OF initJob_typed], rule emits_sum)
   apply (rule emits_bind [OF write_status_typed])
   apply (auto simp: preceded_none dest: SetAppStatusFailed_typed)[1]
  apply (rule emits_sum)
   apply (simp add: preceded_none)
  apply (rule emits_bind [OF createJob_typed], rule emits_sum)
   apply (simp add: preceded_none)
  apply (rule emits_option)
   apply (simp add: preceded_none)
  apply (rule emits_post [OF reconcile_found_job_typed])
  apply (auto simp: preceded_none)
  done

lemma reconcile_apps_typed:
  "emits (reconcile_apps r svc sm apps w names) (\<lambda>x cs. status_typed w \<longrightarrow> typed_calls cs)"
proof (induction apps arbitrary: w names)
  case (Cons a apps)
  show ?case
    by (cases a, simp only: reconcile_apps.simps, rule emits_bind [OF reconcile_app_typed], rule emits_sum, simp,
        rule emits_prod, rule emits_post [OF Cons.IH]) auto
qed simp

lemma reconcile_jobs_typed: "emits (reconcile_jobs r svc sm w) (\<lambda>_ cs. status_readable w \<longrightarrow> typed_calls cs)"
  unfolding reconcile_jobs_def
  apply (rule emits_if)
   apply simp
  apply (rule emits_bind [OF reconcile_apps_typed], rule emits_sum)
   apply (simp add: status_readable_typed)
  apply (rule emits_prod)
  apply (rule emits_post [OF typed_free [OF sweep_jobs_typed]])
  apply (simp add: status_readable_typed preceded_none)
  done

lemma reconcile_rest_typed: "emits (reconcile_rest r w) (\<lambda>_ cs. status_readable w \<longrightarrow> typed_calls cs)"
  unfolding reconcile_rest_def Let_def
  apply (rule emits_sum)
   apply simp
  apply (rule emits_bind [OF typed_free [OF createService_typed]], rule emits_sum)
   apply (simp add: preceded_none)
  apply (rule emits_bind [OF typed_free [OF ProcessEnabledStorage_typed]], rule emits_sum)
   apply (simp add: preceded_none)
  apply (rule emits_post [OF reconcile_jobs_typed])
  apply (auto simp: preceded_none)
  done

lemma reconcile_live_typed: "emits (reconcile_live r w) (\<lambda>_ cs. status_readable w \<longrightarrow> typed_calls cs)"
  unfolding reconcile_live_def Let_def
  apply (rule emits_sum)
   apply simp
  apply (rule emits_bind [OF reconcile_server_typed], rule emits_sum)
   apply simp
  apply (rule emits_post [OF reconcile_rest_typed])
  apply auto
  done

lemma ensure_finalizer_typed:
  "emits (ensure_finalizer r w) (\<lambda>x cs. list_all (\<lambda>c. \<not> untyped_write c) cs \<and>
     (\<forall>w'. x = Inr w' \<longrightarrow> status_readable w \<longrightarrow> status_readable w' \<or> list_ex untyped_answer cs))"
proof -
  have "status_readable (set_finalizers w fs) = status_readable w" for fs
    by (simp add: status_readable_def set_finalizers_def xpra_ready_def)
  then show ?thesis by (intro emits_post [OF ensure_finalizer_emits]) (auto split: prod.splits if_splits)
qed

lemma Reconcile_typed: "emits (Reconcile r k) (\<lambda>_ cs. typed_calls cs)"
  unfolding Reconcile_def
  apply (rule emits_bind [OF GetWorkbench_emits], rule emits_sum)
   apply simp
  apply (rule emits_if)
   apply (rule emits_post [OF reconcile_deletion_emits [where b = False]])
   apply (auto dest: deletion_calls_typed)[1]
  apply (rule emits_bind [OF ensure_finalizer_typed], rule emits_sum)
   apply (auto simp: preceded_none)[1]
  apply (rule emits_post [OF reconcile_live_typed])
  apply (auto simp: preceded_none)
  done

end
