(* ===== verification/Reconciler_Sweep.thy ===== *)
theory Reconciler_Sweep
  imports Reconciler_Replay Reconciler_Status Reference_Cluster
begin

text \<open>
  What a pass of \<open>Reconcile\<close> that ends normally does to the jobs with the label of its workbench: it
  ends with a list of them and the deletion of all whose name is not that of an application. Before that
  list it deletes no job, and updates only jobs with the name of an application, so that a job that was
  there at the start, or that was created on the way, is still there to be listed.
\<close>

section \<open>The calls before the list\<close>

definition app_job_names :: "workbench \<Rightarrow> string set" where
  "app_job_names w = (\<lambda>(uid, app). app_job_name w uid app) ` set (wb_apps w)"

definition tame :: "string set \<Rightarrow> call \<Rightarrow> bool" where
  "tame names c = (case c of
       DeletedJob _ _ \<Rightarrow> False | DeletedAllJobs _ _ _ \<Rightarrow> False | UpdatedJob i _ \<Rightarrow> job_name i \<in> names | _ \<Rightarrow> True)"

lemma tame_simps [simp]:
  "tame ns (GotWorkbench k gw)" "tame ns (GotDeployment k gd)" "tame ns (GotService k gs)" "tame ns (GotJob k gj)"
  "tame ns (ListedPods n ls gp)" "tame ns (ListedJobs ls gl)" "tame ns (CreatedDeployment d gd)" "tame ns (CreatedService s gu)"
  "tame ns (CreatedJob j gu)" "tame ns (UpdatedWorkbench w gw)" "tame ns (UpdatedStatus w gw)"
  "tame ns (UpdatedDeployment d gu)" "tame ns (Recorded e)" "\<not> tame ns (DeletedJob j gu)"
  "tame ns (UpdatedJob j gu) \<longleftrightarrow> job_name j \<in> ns"
  by (simp_all add: tame_def)

lemma reads_tame: "reads_only c \<Longrightarrow> tame ns c"
  by (cases c) (simp_all add: tame_def reads_only_def call_kind_defs)

lemma volume_write_tame: "volume_writes w p c \<Longrightarrow> \<not> app_call c \<Longrightarrow> tame ns c"
  by (cases c) (simp_all add: tame_def volume_writes_def setup_call_def reads_only_def call_kind_defs app_call_def)

abbreviation tame_calls :: "string set \<Rightarrow> ('w, 'a) prog \<Rightarrow> bool" where
  "tame_calls ns m \<equiv> only_calls (tame ns) m"

lemma write_status_tame [only_intros]: "tame_calls ns (write_status r x)"
  unfolding write_status_def UpdateStatus_def by (intro only_intros) simp

lemma server_tame [only_intros]: "tame_calls ns (reconcile_server r d w)"
  unfolding reconcile_server_def createDeployment_def GetDeployment_def CreateDeployment_def
    updateServerPodHealth_def ListPods_def Now_def apply_server_update_def UpdateDeployment_def emit_event_def
    RecordEvent_def
  by (intro only_intros) simp_all

lemma createService_tame [only_intros]: "tame_calls ns (createService r svc)"
  unfolding createService_def GetService_def CreateService_def by (intro only_intros) simp_all

lemma process_all_tame: "tame_calls ns (process_all r w ps m)"
proof (induction ps arbitrary: m)
  case (Cons p ps)
  have "tame_calls ns (processStorageProvider r w p)"
    unfolding only_calls_def
    by (rule emits_post [OF emits_conj [OF processStorageProvider_emits processStorageProvider_app_free [unfolded only_calls_def]]])
      (auto simp: list_all_iff intro: volume_write_tame)
  with Cons.IH show ?case by (auto intro!: only_intros)
qed (simp add: only_calls_return)

lemma ProcessEnabledStorage_tame [only_intros]: "tame_calls ns (ProcessEnabledStorage r sm w)"
  unfolding ProcessEnabledStorage_def by (intro only_intros process_all_tame)

lemma ensure_finalizer_tame [only_intros]: "tame_calls ns (ensure_finalizer r w)"
  unfolding ensure_finalizer_def UpdateWorkbench_def by (intro only_intros) simp

lemma found_job_tame:
  assumes "job_name j \<in> ns"
  shows "tame_calls ns (reconcile_found_job r uid j found w)"
proof (cases "job_name j = job_name found")
  case True
  have "job_meta (snd (updateJob j found)) = job_meta found" by (auto simp: updateJob_def split: option.split)
  then have "tame ns (UpdatedJob (snd (updateJob j found)) g)" for g using True assms by simp
  then show ?thesis
    unfolding reconcile_found_job_def UpdateJob_def case_prod_beta by (intro only_intros)
next
  case False
  then show ?thesis unfolding reconcile_found_job_def by (simp, intro only_intros)
qed

lemma reconcile_app_tame:
  assumes laws: "owner_laws (rc_platform r)" and name: "app_job_name w uid app \<in> ns"
  shows "tame_calls ns (reconcile_app r svc sm uid app w)"
proof -
  have init: "emits (initJob r cfg w uid app svc sm) (\<lambda>x cs. list_all (tame ns) cs \<and>
      (\<forall>j. x = Inr j \<longrightarrow> job_name j = app_job_name w uid app))" for cfg
    by (rule emits_post [OF emits_conj [OF initJob_emits initJob_reads]])
      (auto simp: initJob_result_def list_all_iff intro: reads_tame)
  have rest: "tame_calls ns (case set_owner r w (job_meta j0) of
      Inl e \<Rightarrow> State_Monad.return (Inl (Failed e))
    | Inr m \<Rightarrow> do {
        let j = j0\<lparr>job_meta := m\<rparr>;
        c \<leftarrow> createJob r j;
        case c of
          Inl e \<Rightarrow> State_Monad.return (if is_suspended_error e then Inr (w, []) else Inl (Failed e))
        | Inr None \<Rightarrow> State_Monad.return (Inr (w, [job_name j]))
        | Inr (Some found) \<Rightarrow> reconcile_found_job r uid j found w
      })" if "job_name j0 = app_job_name w uid app" for j0
  proof (cases "set_owner r w (job_meta j0)")
    case (Inr m)
    have "om_name m = app_job_name w uid app" using set_owner_fields [OF laws Inr] that by simp
    then show ?thesis
      using name unfolding Inr sum.case createJob_def GetJob_def CreateJob_def Let_def
      by (intro only_intros found_job_tame) simp_all
  qed (simp add: only_calls_return)
  show ?thesis
    unfolding reconcile_app_def only_calls_def
    apply (rule emits_bind [OF init], rule emits_sum)
     apply (rule emits_bind [OF write_status_tame [unfolded only_calls_def]], simp)
    apply (rule emits_post [OF rest [unfolded only_calls_def]])
     apply auto
    done
qed

text \<open>All the applications, whose names are among \<open>ns\<close>.\<close>

definition named_in :: "string set \<Rightarrow> workbench \<Rightarrow> workbench_app gomap \<Rightarrow> bool" where
  "named_in ns w apps \<longleftrightarrow> list_all (\<lambda>(uid, app). app_job_name w uid app \<in> ns) apps"

lemma named_in_simps [simp]:
  "named_in ns w []"
  "named_in ns w ((uid, app) # apps) \<longleftrightarrow> app_job_name w uid app \<in> ns \<and> named_in ns w apps"
  by (simp_all add: named_in_def)

lemma named_in_identity: "same_identity w w' \<Longrightarrow> named_in ns w' = named_in ns w"
  by (rule ext) (simp add: named_in_def app_job_name_def same_identity_def)

lemma named_in_own: "named_in (app_job_names w) w (wb_apps w)"
  by (auto simp: named_in_def app_job_names_def list_all_iff)

lemma app_fate_names: "app_fate cfg w uid app cs names \<Longrightarrow> app_job_name w uid app \<in> ns \<Longrightarrow> set names \<subseteq> ns"
  by (auto simp: app_fate_def)

lemma reconcile_apps_tame:
  assumes laws: "owner_laws (rc_platform r)" "status_laws (rc_platform r)"
  shows "named_in ns w apps \<Longrightarrow> set found \<subseteq> ns \<Longrightarrow>
    emits (reconcile_apps r svc sm apps w found) (\<lambda>x cs. list_all (tame ns) cs \<and>
      (\<forall>w' names. x = Inr (w', names) \<longrightarrow> same_identity w w' \<and> set names \<subseteq> ns))"
proof (induction apps arbitrary: w found)
  case (Cons a apps)
  obtain uid app where a: "a = (uid, app)" by fastforce
  have name: "app_job_name w uid app \<in> ns" and rest: "named_in ns w apps" using Cons.prems(1) by (simp_all add: a)
  have first: "emits (reconcile_app r svc sm uid app w) (\<lambda>x cs. list_all (tame ns) cs \<and>
      (\<forall>w' names. x = Inr (w', names) \<longrightarrow> same_identity w w' \<and> set names \<subseteq> ns))"
    by (rule emits_post [OF emits_conj [OF reconcile_app_tame [OF laws(1) name, unfolded only_calls_def]
          reconcile_app_fate [OF laws]]]) (use app_fate_names [OF _ name] in blast)
  show ?case
    unfolding a reconcile_apps.simps
  proof (rule emits_bind [OF first], rule emits_sum, simp, rule emits_prod)
    fix x cs y w1 names
    assume x: "list_all (tame ns) cs \<and> (\<forall>w' names. x = Inr (w', names) \<longrightarrow> same_identity w w' \<and> set names \<subseteq> ns)"
      and y: "x = Inr y" "y = (w1, names)"
    then have w1: "same_identity w w1" "set (found @ names) \<subseteq> ns" using Cons.prems(2) by auto
    have "named_in ns w1 apps" using rest by (simp add: named_in_identity [OF w1(1)])
    then show "emits (reconcile_apps r svc sm apps w1 (found @ names)) (\<lambda>z ds. list_all (tame ns) (cs @ ds) \<and>
        (\<forall>w' names. z = Inr (w', names) \<longrightarrow> same_identity w w' \<and> set names \<subseteq> ns))"
      by (rule emits_post [OF Cons.IH [OF _ w1(2)]]) (use x same_identity_trans [OF w1(1)] in auto)
  qed
qed simp

section \<open>The whole pass\<close>

definition swept_pass :: "workbench \<Rightarrow> call list \<Rightarrow> bool" where
  "swept_pass w cs \<longleftrightarrow> (\<exists>before items names. list_all (tame (app_job_names w)) before \<and> set names \<subseteq> app_job_names w \<and>
     cs = before @ ListedJobs (own_labels w) (Inr items) # deleted (extra_jobs names items))"

lemma swept_pass_identity: "same_identity w w' \<Longrightarrow> swept_pass w' = swept_pass w"
  by (rule ext) (simp add: swept_pass_def app_job_names_def app_job_name_def same_identity_def)

lemma swept_pass_after: "list_all (tame (app_job_names w)) before \<Longrightarrow> swept_pass w cs \<Longrightarrow> swept_pass w (before @ cs)"
  unfolding swept_pass_def by (metis append_assoc list_all_append)

lemma swept_pass_later:
  "same_identity w w' \<Longrightarrow> list_all (tame (app_job_names w)) before \<Longrightarrow> swept_pass w' cs \<Longrightarrow> swept_pass w (before @ cs)"
  using swept_pass_identity swept_pass_after by metis

lemma reconcile_jobs_sweeps:
  assumes laws: "owner_laws (rc_platform r)" "status_laws (rc_platform r)"
  shows "emits (reconcile_jobs r svc sm w) (\<lambda>out cs. out = Finished 0 \<longrightarrow> swept_pass w cs)"
proof -
  have apps: "emits (reconcile_apps r svc sm (wb_apps w) w []) (\<lambda>x cs. list_all (tame (app_job_names w)) cs \<and>
      (\<forall>out. x = Inl out \<longrightarrow> out \<noteq> Finished 0) \<and>
      (\<forall>w' names. x = Inr (w', names) \<longrightarrow> same_identity w w' \<and> set names \<subseteq> app_job_names w))"
    by (rule emits_post [OF emits_conj [OF reconcile_apps_tame [OF laws named_in_own] reconcile_apps_ends]]) auto
  show ?thesis
    unfolding reconcile_jobs_def
    apply (rule emits_if)
     apply (simp add: second_def)
    apply (rule emits_bind [OF apps], rule emits_sum)
     apply auto[1]
    apply (rule emits_prod)
    apply (rule emits_post [OF sweep_jobs_emits])
    apply (auto simp: sum_cases sweep_result_def swept_pass_def same_identity_def)
    done
qed

lemma reconcile_live_sweeps:
  assumes laws: "owner_laws (rc_platform r)" "status_laws (rc_platform r)"
  shows "emits (reconcile_live r w) (\<lambda>out cs. out = Finished 0 \<longrightarrow> swept_pass w cs)"
proof -
  note parts = createService_tame [unfolded only_calls_def] ProcessEnabledStorage_tame [unfolded only_calls_def]
  have rest: "emits (reconcile_rest r v) (\<lambda>out cs. out = Finished 0 \<longrightarrow> swept_pass v cs)" for v
    unfolding reconcile_rest_def Let_def
    apply (rule emits_sum)
     apply simp
    apply (rule emits_bind [OF parts(1) [where ns = "app_job_names v"]], rule emits_sum)
     apply simp
    apply (rule emits_bind [OF parts(2) [where ns = "app_job_names v"]], rule emits_sum)
     apply simp
    apply (rule emits_post [OF reconcile_jobs_sweeps [OF laws]])
    apply (simp add: swept_pass_after)
    done
  show ?thesis
    unfolding reconcile_live_def Let_def
    apply (rule emits_sum)
     apply simp
    apply (rule emits_bind [OF emits_conj [OF server_tame [where ns = "app_job_names w", unfolded only_calls_def]
            reconcile_server_identity [OF laws(2)]]], rule emits_sum)
     apply simp
    apply (rule emits_post [OF rest])
    apply (auto intro: swept_pass_later)
    done
qed

lemma Reconcile_sweeps:
  assumes laws: "owner_laws (rc_platform r)" "status_laws (rc_platform r)" "update_laws (rc_platform r)"
  shows "emits (Reconcile r k) (\<lambda>out cs. \<exists>g tl. cs = GotWorkbench k g # tl \<and>
    (\<forall>w. g = Inr w \<longrightarrow> \<not> being_deleted w \<longrightarrow> out = Finished 0 \<longrightarrow> swept_pass w tl))"
  unfolding Reconcile_def
  apply (rule emits_bind [OF GetWorkbench_emits], rule emits_sum)
   apply simp
  apply (rule emits_if)
   apply (rule emits_post [OF reconcile_deletion_emits [where b = False]], simp)
  subgoal for g cs w
    apply (rule emits_bind [OF emits_conj [OF ensure_finalizer_tame [where ns = "app_job_names w", unfolded only_calls_def]
            ensure_finalizer_identity [OF laws(3)]]], rule emits_sum)
     apply simp
    apply (rule emits_post [OF reconcile_live_sweeps [OF laws(1,2)]])
    apply (auto intro: swept_pass_later)
    done
  done

section \<open>The jobs meanwhile\<close>

definition same_job :: "job \<Rightarrow> job \<Rightarrow> bool" where
  "same_job j j' \<longleftrightarrow> job_name j' = job_name j \<and> job_namespace j' = job_namespace j \<and> job_labels j' = job_labels j"

lemma same_job_refl [simp]: "same_job j j"
  by (simp add: same_job_def)

lemma same_job_trans: "same_job a b \<Longrightarrow> same_job b c \<Longrightarrow> same_job a c"
  by (simp add: same_job_def)

text \<open>
  An API server with jobs \<open>v\<close>, on which nobody else removes or relabels a job during the pass: a
  list by label has the jobs of all namespaces, a job that was created is there, and a job stays, with its
  name, namespace and labels, unless it is deleted or is the one that is updated.
\<close>

definition touches :: "call \<Rightarrow> job \<Rightarrow> bool" where
  "touches c j = (case c of
       DeletedJob _ _ \<Rightarrow> True | DeletedAllJobs _ _ _ \<Rightarrow> True
     | UpdatedJob i _ \<Rightarrow> job_name i = job_name j \<and> job_namespace i = job_namespace j | _ \<Rightarrow> False)"

definition undisturbed_jobs :: "'w platform \<Rightarrow> ('w \<Rightarrow> job list) \<Rightarrow> bool" where
  "undisturbed_jobs p v \<longleftrightarrow> (\<forall>c x y. platform_step p c x y \<longrightarrow>
     (\<forall>j \<in> set (v x). \<not> touches c j \<longrightarrow> list_ex (same_job j) (v y)) \<and>
     (\<forall>j. c = CreatedJob j (Inr ()) \<longrightarrow> list_ex (same_job j) (v y)) \<and>
     (\<forall>ls items. c = ListedJobs ls (Inr items) \<longrightarrow> items = filter (\<lambda>j. has_labels ls (job_meta j)) (v x)))"

lemma tame_touches: "tame ns c \<Longrightarrow> job_name j \<notin> ns \<Longrightarrow> \<not> touches c j"
  by (cases c) (auto simp: tame_def touches_def)

lemma tame_keeps:
  assumes laws: "undisturbed_jobs p v" and cs: "replays p x cs y" "list_all (tame ns) cs"
    and j: "list_ex (same_job j) (v x)" "job_name j \<notin> ns"
  shows "list_ex (same_job j) (v y)"
proof (rule replays_invariant [OF cs(1), where I = "\<lambda>u. list_ex (same_job j) (v u)", OF j(1)])
  fix c a b assume c: "c \<in> set cs" "platform_step p c a b" "list_ex (same_job j) (v a)"
  then obtain i where i: "i \<in> set (v a)" "same_job j i" by (auto simp: list_ex_iff)
  have "\<not> touches c i" using tame_touches cs(2) c(1) j(2) i(2) by (auto simp: list_all_iff same_job_def)
  then have "list_ex (same_job i) (v b)" using laws c(2) i(1) unfolding undisturbed_jobs_def by blast
  then show "list_ex (same_job j) (v b)" using same_job_trans [OF i(2)] by (auto simp: list_ex_iff)
qed

lemma replays_member:
  assumes "replays p x cs y" "c \<in> set cs"
  obtains before after a b where "cs = before @ c # after" "platform_step p c a b" "replays p b after y"
  using assms by (auto simp: in_set_conv_decomp replays_append)

lemma swept_pass_deletes:
  assumes laws: "undisturbed_jobs p v" and cs: "replays p x (GotWorkbench k g # ds) z" "swept_pass w ds"
    and j: "has_labels (own_labels w) (job_meta j)" "job_name j \<notin> app_job_names w"
    and there: "j \<in> set (v x) \<or> CreatedJob j (Inr ()) \<in> set ds"
  shows "\<exists>j'. same_job j j' \<and> DeletedJob j' (Inr ()) \<in> set ds"
proof -
  obtain before items names where pass: "list_all (tame (app_job_names w)) before" "set names \<subseteq> app_job_names w"
      and ds: "ds = before @ ListedJobs (own_labels w) (Inr items) # deleted (extra_jobs names items)"
    using cs(2) unfolding swept_pass_def by blast
  obtain u u' where u: "replays p x (GotWorkbench k g # before) u"
      "platform_step p (ListedJobs (own_labels w) (Inr items)) u u'"
    using cs(1) unfolding ds by (auto simp: replays_append simp del: platform_steps)
  have "list_ex (same_job j) (v u)"
  proof (cases "j \<in> set (v x)")
    case True
    then have "list_ex (same_job j) (v x)" unfolding list_ex_iff by (intro bexI [of _ j]) simp_all
    then show ?thesis using tame_keeps [OF laws u(1)] pass(1) j(2) by simp
  next
    case False
    then have "CreatedJob j (Inr ()) \<in> set (GotWorkbench k g # before)" using there by (auto simp: ds)
    then obtain b1 b2 a b where b: "GotWorkbench k g # before = b1 @ CreatedJob j (Inr ()) # b2"
        "platform_step p (CreatedJob j (Inr ())) a b" "replays p b b2 u"
      by (rule replays_member [OF u(1)])
    have "list_all (tame (app_job_names w)) (GotWorkbench k g # before)" using pass(1) by simp
    then have "list_all (tame (app_job_names w)) b2" unfolding b(1) by simp
    moreover have "list_ex (same_job j) (v b)" using laws b(2) unfolding undisturbed_jobs_def by blast
    ultimately show ?thesis using tame_keeps [OF laws b(3)] j(2) by blast
  qed
  then obtain i where i: "i \<in> set (v u)" "same_job j i" by (auto simp: list_ex_iff)
  have "items = filter (\<lambda>j. has_labels (own_labels w) (job_meta j)) (v u)"
    using laws u(2) unfolding undisturbed_jobs_def by blast
  moreover have "has_labels (own_labels w) (job_meta i)" using j(1) i(2) by (simp add: has_labels_def same_job_def)
  ultimately have "i \<in> set items" using i(1) by simp
  moreover have "job_name i \<notin> set names" using j(2) i(2) pass(2) by (auto simp: same_job_def)
  ultimately have "i \<in> set (extra_jobs names items)" by (simp add: extra_jobs_def)
  then show ?thesis using i(2) by (auto simp: ds)
qed

section \<open>On the cluster in memory\<close>

lemma memory_kept_jobs:
  "job_name i \<noteq> job_name j \<or> job_namespace i \<noteq> job_namespace j \<Longrightarrow> j \<in> set xs \<Longrightarrow>
   j \<in> set (snd (replace_object job_meta i xs))"
  by (auto simp: replace_object_def at_key_def key_of_def)

lemma memory_undisturbed_jobs: "undisturbed_jobs memory_platform cl_jobs"
proof -
  have "(\<forall>j \<in> set (cl_jobs x). \<not> touches c j \<longrightarrow> j \<in> set (cl_jobs y)) \<and>
     (\<forall>j. c = CreatedJob j (Inr ()) \<longrightarrow> j \<in> set (cl_jobs y)) \<and>
     (\<forall>ls items. c = ListedJobs ls (Inr items) \<longrightarrow> items = filter (\<lambda>j. has_labels ls (job_meta j)) (cl_jobs x))"
    if "platform_step memory_platform c x y" for c x y
  proof (cases c)
    case (UpdatedJob i g)
    then show ?thesis using that memory_kept_jobs [of i]
      by (auto simp: memory_platform_def touches_def case_prod_beta)
  next
    case (CreatedJob i g)
    then show ?thesis using that
      by (auto simp: memory_platform_def insert_object_def split: if_splits)
  next
    case (UpdatedWorkbench w g)
    then show ?thesis using that by (auto simp: memory_platform_def store_workbench_def split: if_splits)
  next
    case (UpdatedStatus w g)
    then show ?thesis using that by (auto simp: memory_platform_def store_status_def split: if_splits)
  next
    case (CreatedDeployment d g)
    then show ?thesis using that
      by (auto simp: memory_platform_def store_deployment_def split: prod.splits sum.splits)
  qed (use that in \<open>auto simp: memory_platform_def touches_def split: prod.splits\<close>)
  then show ?thesis
    unfolding undisturbed_jobs_def list_ex_iff using same_job_refl by blast
qed

definition other_cluster :: cluster where
  "other_cluster = (sample_cluster [live_workbench])\<lparr>cl_jobs := [sample_job ''wb-2-gimp'' ''ns2'']\<rparr>"

lemma other_run:
  "case run_state (Reconcile sample_reconciler sample_key) (start other_cluster) of (out, s) \<Rightarrow>
     out = Finished 0 \<and> hd (sys_trace s) = GotWorkbench sample_key (Inr live_workbench)"
  by code_simp

end
