(* ===== verification/Reconciler_Writes.thy ===== *)
theory Reconciler_Writes
  imports Reconciler_Jobs
begin

text \<open>
  Why one call of \<open>Reconcile\<close> writes what it writes, and to whom what it creates belongs.
  Every write but that of a status has a cause among the answers seen before in the same
  call: an object is created after it was looked up and found missing, changed after it was
  found different, and deleted after it was listed. What is created lies in the namespace of
  the workbench, carries its label and, if of a kind the controller watches, its owner reference.
\<close>

section \<open>Causes\<close>

definition changed_deployment :: "deployment \<Rightarrow> deployment \<Rightarrow> bool" where
  "changed_deployment d f \<longleftrightarrow> d \<noteq> f \<and> dep_meta d = dep_meta f \<and> dep_selector d = dep_selector f"

text \<open>\<open>write_cause c d\<close>: the earlier call \<open>d\<close>, with its answer, justifies the write \<open>c\<close>.\<close>

definition write_cause :: "call \<Rightarrow> call \<Rightarrow> bool" where
  "write_cause c d = (case c of
       CreatedDeployment x _ \<Rightarrow> d = GotDeployment (key_of (dep_meta x)) (Inl NotFound)
     | CreatedService x _ \<Rightarrow> d = GotService (key_of (svc_meta x)) (Inl NotFound)
     | CreatedPV v _ \<Rightarrow> d = GotPV (om_name (pv_meta v)) (Inl NotFound)
     | CreatedPVC v _ \<Rightarrow> d = GotPVC (key_of (pvc_meta v)) (Inl NotFound)
     | CreatedJob j _ \<Rightarrow> (case job_suspend j of
           None \<Rightarrow> (case d of GotPV _ (Inl e) \<Rightarrow> IsNotFound e | _ \<Rightarrow> False)
         | Some b \<Rightarrow> \<not> b \<and> d = GotJob (key_of (job_meta j)) (Inl NotFound))
     | UpdatedWorkbench w _ \<Rightarrow> (case d of
           GotWorkbench _ (Inr w0) \<Rightarrow> w = set_finalizers w0 (om_finalizers (wb_meta w)) | _ \<Rightarrow> False)
     | UpdatedDeployment x _ \<Rightarrow> (case d of
           GotDeployment _ (Inr f) \<Rightarrow> changed_deployment x f
         | CreatedDeployment _ (Inr f) \<Rightarrow> changed_deployment x f | _ \<Rightarrow> False)
     | UpdatedJob j _ \<Rightarrow> (case d of
           GotJob _ (Inr f) \<Rightarrow> j \<noteq> f \<and> j = f\<lparr>job_suspend := job_suspend j\<rparr> | _ \<Rightarrow> False)
     | DeletedJob j _ \<Rightarrow> (case d of ListedJobs _ (Inr items) \<Rightarrow> j \<in> set items | _ \<Rightarrow> False)
     | DeletedAllJobs _ ls _ \<Rightarrow> (case d of ListedJobs ls' (Inr items) \<Rightarrow> ls' = ls \<and> items \<noteq> [] | _ \<Rightarrow> False)
     | DeletedAllDeployments _ ls _ \<Rightarrow>
         (case d of ListedDeployments ls' (Inr items) \<Rightarrow> ls' = ls \<and> items \<noteq> [] | _ \<Rightarrow> False)
     | _ \<Rightarrow> False)"

definition needs_cause :: "call \<Rightarrow> bool" where
  "needs_cause c \<longleftrightarrow> is_write c \<and> (case c of UpdatedStatus _ _ \<Rightarrow> False | _ \<Rightarrow> True)"

text \<open>Every write of the list has its cause before it, in \<open>seen\<close> or in the list.\<close>

primrec all_caused :: "call list \<Rightarrow> call list \<Rightarrow> bool" where
  "all_caused seen [] = True"
| "all_caused seen (c # cs) = ((needs_cause c \<longrightarrow> list_ex (write_cause c) seen) \<and> all_caused (c # seen) cs)"

lemma all_caused_mono: "all_caused seen cs \<Longrightarrow> set seen \<subseteq> set seen' \<Longrightarrow> all_caused seen' cs"
proof (induction cs arbitrary: seen seen')
  case (Cons c cs)
  have "all_caused (c # seen') cs" by (rule Cons.IH [of "c # seen"]) (use Cons.prems in auto)
  then show ?case using Cons.prems by (auto simp: list_ex_iff)
qed simp

lemma all_caused_append:
  "all_caused seen (xs @ ys) \<longleftrightarrow> all_caused seen xs \<and> all_caused (xs @ seen) ys"
proof -
  have "all_caused (rev xs @ seen) ys = all_caused (xs @ seen) ys"
    using all_caused_mono [of "rev xs @ seen" ys "xs @ seen"] all_caused_mono [of "xs @ seen" ys "rev xs @ seen"]
    by (simp only: set_append set_rev subset_refl simp_thms) blast
  moreover have "all_caused seen (xs @ ys) \<longleftrightarrow> all_caused seen xs \<and> all_caused (rev xs @ seen) ys"
    by (induction xs arbitrary: seen) auto
  ultimately show ?thesis by simp
qed

lemma all_caused_after: "all_caused [] xs \<Longrightarrow> all_caused seen ys \<Longrightarrow> set seen \<subseteq> set xs \<Longrightarrow> all_caused [] (xs @ ys)"
  using all_caused_mono by (fastforce simp: all_caused_append)

lemma all_caused_none: "list_all (\<lambda>c. \<not> needs_cause c) cs \<Longrightarrow> all_caused seen cs"
  by (induction cs arbitrary: seen) auto

lemma reads_need_no_cause: "list_all reads_only cs \<Longrightarrow> list_all (\<lambda>c. \<not> needs_cause c) cs"
  by (auto simp: list_all_iff needs_cause_def reads_only_def)

lemma needs_cause_simps [simp]:
  "\<not> needs_cause (GotWorkbench k gw)" "\<not> needs_cause (GotDeployment k gd)" "\<not> needs_cause (GotService k gs)"
  "\<not> needs_cause (GotJob k gj)" "\<not> needs_cause (GotPV n gv)" "\<not> needs_cause (GotPVC k gc)"
  "\<not> needs_cause (ListedPods ns ls gp)" "\<not> needs_cause (ListedJobs ls gjs)" "\<not> needs_cause (ListedDeployments ls gds)"
  "\<not> needs_cause (UpdatedStatus w gw)" "\<not> needs_cause (Recorded e)" "needs_cause (CreatedDeployment d gd)"
  "needs_cause (CreatedService svc gu)" "needs_cause (CreatedJob j gu)" "needs_cause (CreatedPV v gu)"
  "needs_cause (CreatedPVC c gu)" "needs_cause (UpdatedWorkbench w gw)" "needs_cause (UpdatedDeployment d gu)"
  "needs_cause (UpdatedJob j gu)" "needs_cause (DeletedJob j gu)" "needs_cause (DeletedAllJobs ns ls gu)"
  "needs_cause (DeletedAllDeployments ns ls gu)"
  by (simp_all add: needs_cause_def call_kind_defs)

abbreviation grounded :: "('w, 'a) prog \<Rightarrow> bool" where
  "grounded m \<equiv> emits m (\<lambda>_ cs. all_caused [] cs)"

named_theorems grounded_intros \<open>programs whose every write has a cause\<close>

lemma grounded_bind [grounded_intros]:
  "grounded m \<Longrightarrow> (\<And>a. grounded (f a)) \<Longrightarrow> grounded (State_Monad.bind m f)"
  by (rule emits_bind, assumption, rule emits_post, assumption) (auto simp: all_caused_append intro: all_caused_mono)

lemma grounded_return [grounded_intros]: "grounded (State_Monad.return a)"
  by simp

lemma grounded_reads: "emits m (\<lambda>_ cs. list_all reads_only cs) \<Longrightarrow> grounded m"
  by (erule emits_post) (simp add: all_caused_none reads_need_no_cause)

section \<open>Storage\<close>

lemma not_found: "IsNotFound e \<longleftrightarrow> e = NotFound"
  by (simp add: IsNotFound_def)

lemma setup_write_job:
  assumes "setup_call w c" "needs_cause c" "\<not> app_call c"
  shows "\<exists>j g. c = CreatedJob j g \<and> job_suspend j = None"
  using assms by (cases c) (simp_all add: setup_call_def reads_only_def needs_cause_def)

lemma setup_calls_caused:
  assumes "list_all (setup_call w) ss" "list_all (\<lambda>c. \<not> app_call c) ss" "GotPV n (Inl NotFound) \<in> set seen"
  shows "all_caused seen ss"
  using assms
proof (induction ss arbitrary: seen)
  case (Cons c ss)
  have "list_ex (write_cause c) seen" if needs: "needs_cause c"
  proof -
    obtain j g where c: "c = CreatedJob j g" "job_suspend j = None"
      using setup_write_job [of w c, OF _ needs] Cons.prems(1,2) by auto
    have "write_cause c (GotPV n (Inl NotFound))" by (simp add: c write_cause_def not_found)
    then show ?thesis using Cons.prems(3) by (auto simp: list_ex_iff)
  qed
  then show ?case using Cons by simp
qed simp

lemma ensure_volume_app_free: "app_free (ensure_volume r w p pv)"
  unfolding ensure_volume_def by (intro only_intros)

lemma ensure_volume_grounded [grounded_intros]: "grounded (ensure_volume r w p pv)"
proof (rule emits_post [OF emits_conj [OF ensure_volume_shape ensure_volume_app_free [unfolded only_calls_def]]])
  fix x :: "go_error + unit" and cs
  assume "(\<exists>g ss tl. cs = GotPV (om_name (pv_meta pv)) g # ss @ tl \<and> list_all (setup_call w) ss \<and>
     (ss @ tl \<noteq> [] \<longrightarrow> (\<exists>e. g = Inl e \<and> IsNotFound e)) \<and> (tl = [] \<or> (\<exists>c. tl = [CreatedPV pv c])) \<and>
     ((\<exists>u. x = Inr u) \<longrightarrow> (\<exists>v. g = Inr v) \<or> (\<exists>u. tl = [CreatedPV pv (Inr u)]))) \<and> list_all (\<lambda>c. \<not> app_call c) cs"
  then obtain g ss tl where cs: "cs = GotPV (om_name (pv_meta pv)) g # ss @ tl" "list_all (setup_call w) ss"
    "ss @ tl \<noteq> [] \<longrightarrow> g = Inl NotFound" "tl = [] \<or> (\<exists>c. tl = [CreatedPV pv c])" "list_all (\<lambda>c. \<not> app_call c) ss"
    unfolding not_found by (elim exE conjE) (rule that, assumption+, blast, assumption, simp)
  show "all_caused [] cs"
  proof (cases "ss @ tl = []")
    case False
    then have g: "g = Inl NotFound" using cs(3) by simp
    have "all_caused [GotPV (om_name (pv_meta pv)) g] ss"
      by (rule setup_calls_caused [OF cs(2,5)]) (simp add: g)
    then show ?thesis using cs(1,4) by (auto simp: all_caused_append g write_cause_def list_ex_iff)
  qed (use cs(1) in simp)
qed

lemma ensure_claim_grounded [grounded_intros]: "grounded (ensure_claim r w p)"
  by (rule emits_post [OF ensure_claim_shape])
    (auto simp: write_cause_def not_found key_of_def provider.claim_key)

lemma processStorageProvider_grounded [grounded_intros]: "grounded (processStorageProvider r w p)"
proof -
  have pv: "grounded (CreatePV r p w)" by (rule grounded_reads, rule emits_post [OF provider.pv_named]) simp
  have event: "grounded (record_if_present r e)" for e
    by (rule grounded_reads [OF record_if_present_reads [unfolded only_calls_def]])
  show ?thesis
    unfolding processStorageProvider_def
    by (intro grounded_intros emits_if emits_sum pv event grounded_reads [OF HasDriver_emits] grounded_reads [OF HasSecret_emits])
qed

lemma process_all_grounded: "grounded (process_all r w ps m)"
  by (induction ps arbitrary: m) (auto intro!: grounded_intros emits_sum)

lemma ProcessEnabledStorage_grounded [grounded_intros]: "grounded (ProcessEnabledStorage r sm w)"
  unfolding ProcessEnabledStorage_def by (intro grounded_intros process_all_grounded)

section \<open>Server and applications\<close>

lemma createService_grounded [grounded_intros]: "grounded (createService r svc)"
  by (rule emits_post [OF createService_emits]) (auto simp: write_cause_def not_found key_of_def)

lemma write_status_grounded [grounded_intros]: "grounded (write_status r x)"
  by (rule emits_post [OF write_status_emits]) auto

definition answered_deployment :: "deployment \<Rightarrow> call \<Rightarrow> bool" where
  "answered_deployment f c = (case c of
       GotDeployment _ (Inr d) \<Rightarrow> d = f | CreatedDeployment _ (Inr d) \<Rightarrow> d = f | _ \<Rightarrow> False)"

lemma createDeployment_caused:
  "emits (createDeployment r d) (\<lambda>x cs. all_caused [] cs \<and>
     (\<forall>found. x = Inr found \<longrightarrow> list_ex (answered_deployment found) cs))"
  by (rule emits_post [OF createDeployment_emits])
    (auto simp: sum_cases write_cause_def not_found key_of_def answered_deployment_def split: if_splits sum.splits)

lemma update_cause:
  "answered_deployment f c \<Longrightarrow> changed_deployment d f \<Longrightarrow> write_cause (UpdatedDeployment d g) c"
  by (auto simp: answered_deployment_def write_cause_def split: call.splits sum.splits)

lemma update_caused:
  "list_ex (answered_deployment f) seen \<Longrightarrow> changed_deployment d f \<Longrightarrow>
   list_ex (write_cause (UpdatedDeployment d g)) seen"
  unfolding list_ex_iff using update_cause by blast

lemma updated_deployment:
  assumes "updateDeployment (initDeployment wb cfg\<lparr>dep_meta := m\<rparr>) found = Inr (True, d)"
  shows "changed_deployment d found"
proof -
  let ?s = "initDeployment wb cfg\<lparr>dep_meta := m\<rparr>"
  have parts: "containers_of ?s = [server_container wb cfg]" "init_containers_of ?s = [sidecar_container cfg]"
    by simp_all
  have full: "complete_deployment found"
  proof (rule ccontr)
    assume "\<not> complete_deployment found"
    then have "containers_of found = [] \<or> init_containers_of found = []" by (simp add: complete_deployment_def)
    then have "\<exists>p. updateDeployment ?s found = Inl p"
      using sync_containers_panic [of "containers_of ?s" "containers_of found"]
        sync_containers_panic [of "init_containers_of ?s" "init_containers_of found"]
      by (auto simp: updateDeployment_def split: sum.split)
    then show False using assms by simp
  qed
  have "model_deployment ?s" by (simp add: model_deployment_def)
  from deployment_update.exact [OF this full] assms have "d \<noteq> found" by (simp add: applied_update_def)
  moreover have "dep_meta d = dep_meta found" "dep_selector d = dep_selector found"
    using assms by (auto simp: updateDeployment_def split: sum.splits prod.splits)
  ultimately show ?thesis by (simp add: changed_deployment_def)
qed

lemma apply_server_update_caused:
  "emits (apply_server_update r (initDeployment wb cfg\<lparr>dep_meta := m\<rparr>) found w)
     (\<lambda>_ cs. \<forall>seen. list_ex (answered_deployment found) seen \<longrightarrow> all_caused seen cs)"
  unfolding apply_server_update_def UpdateDeployment_def
  apply (rule emits_sum)
   apply simp
  apply (rule emits_prod, rule emits_if)
   apply (rule emits_bind [OF emit_event_emits], rule emits_sum)
    apply auto[1]
   apply (rule emits_bind [OF emits_perform [where
        Q = "\<lambda>a cs. \<exists>d. cs = [UpdatedDeployment d a] \<and> changed_deployment d found"]])
    apply (auto dest: updated_deployment)[1]
   apply (auto dest: update_caused split: sum.splits)
  done

lemma updateServerPodHealth_grounded [grounded_intros]: "grounded (updateServerPodHealth r w d)"
  by (rule emits_post [OF updateServerPodHealth_emits]) (auto split: option.splits)

lemma reconcile_server_grounded [grounded_intros]:
  "grounded (reconcile_server r (initDeployment wb cfg\<lparr>dep_meta := m\<rparr>) w)"
  unfolding reconcile_server_def
  apply (rule emits_bind [OF createDeployment_caused], rule emits_sum)
   apply simp
  apply (rule emits_prod)
  apply (rule emits_bind [OF updateServerPodHealth_grounded], rule emits_sum)
   apply (auto simp: all_caused_append intro: all_caused_mono)[1]
  apply (rule emits_prod)
  apply (rule emits_bind [OF write_status_grounded])
  apply (rule emits_post [OF apply_server_update_caused])
  apply (auto simp: all_caused_append intro: all_caused_mono)
  done

lemma createJob_caused:
  assumes "job_suspend j = Some b"
  shows "emits (createJob r j) (\<lambda>x cs. all_caused [] cs \<and>
     (\<forall>found. x = Inr (Some found) \<longrightarrow> (\<exists>k. GotJob k (Inr found) \<in> set cs)))"
  by (rule emits_post [OF createJob_emits])
    (auto simp: assms sum_cases write_cause_def not_found key_of_def split: if_splits)

lemma reconcile_found_job_caused:
  assumes "job_suspend j = Some b"
  shows "emits (reconcile_found_job r uid j found w)
     (\<lambda>_ cs. \<forall>seen k. GotJob k (Inr found) \<in> set seen \<longrightarrow> all_caused seen cs)"
proof -
  have cause: "list_ex (write_cause (UpdatedJob (found\<lparr>job_suspend := Some b\<rparr>) g)) seen"
    if "GotJob k (Inr found) \<in> set seen" "job_suspend found \<noteq> Some b" for k seen g
  proof -
    have "found\<lparr>job_suspend := Some b\<rparr> \<noteq> found" using that(2) by (cases found) auto
    then have "write_cause (UpdatedJob (found\<lparr>job_suspend := Some b\<rparr>) g) (GotJob k (Inr found))"
      by (simp add: write_cause_def)
    then show ?thesis using that(1) by (auto simp: list_ex_iff)
  qed
  show ?thesis
    unfolding reconcile_found_job_def UpdateJob_def updateJob_cases [OF assms] prod.case
    apply (rule emits_bind [OF write_status_emits], rule emits_if)
     apply auto[1]
    apply (rule emits_if)
     apply (rule emits_bind [OF emits_perform [where
            Q = "\<lambda>a cs. cs = [UpdatedJob (found\<lparr>job_suspend := Some b\<rparr>) a]"]], simp)
     apply (auto intro!: cause)
    done
qed

lemma reconcile_app_grounded [grounded_intros]: "grounded (reconcile_app r svc sm uid app w)"
proof -
  have init: "emits (initJob r cfg w uid app svc sm) (\<lambda>x cs. all_caused [] cs \<and>
      (\<forall>j. x = Inr j \<longrightarrow> job_suspend j = Some (app_suspended app)))" for cfg
    by (rule emits_post [OF emits_conj [OF initJob_emits initJob_reads]])
      (auto simp: initJob_result_def intro: all_caused_none reads_need_no_cause)
  have found: "emits (case y of None \<Rightarrow> State_Monad.return (Inr (w, names)) | Some found \<Rightarrow> reconcile_found_job r uid j found w)
      (\<lambda>_ ds. all_caused [] (cs @ ds))"
    if "job_suspend j = Some b" "all_caused [] cs" "\<And>f. y = Some f \<Longrightarrow> \<exists>k. GotJob k (Inr f) \<in> set cs" for y j b cs names
    using that by (intro emits_option) (auto simp: all_caused_append intro!: emits_post [OF reconcile_found_job_caused])
  have job: "emits (createJob r j \<bind> case_sum
        (\<lambda>e. State_Monad.return (if is_suspended_error e then Inr (w, []) else Inl (Failed e)))
        (\<lambda>y. case y of None \<Rightarrow> State_Monad.return (Inr (w, [job_name j]))
           | Some found \<Rightarrow> reconcile_found_job r uid j found w)) (\<lambda>_ cs. all_caused [] cs)"
    if "job_suspend j = Some b" for j b
    by (rule emits_bind [OF createJob_caused [OF that]], rule emits_sum, simp, rule found [OF that]) auto
  show ?thesis
    unfolding reconcile_app_def
    apply (rule emits_bind [OF init], rule emits_sum)
     apply (rule emits_post [where R = "\<lambda>_ cs. all_caused [] cs"])
      apply (intro grounded_intros)
     apply (auto simp: all_caused_append intro: all_caused_mono)[1]
    apply (rule emits_sum)
     apply simp
    apply (simp only: Let_def)
    apply (rule emits_post [OF job])
     apply simp
    apply (auto simp: all_caused_append intro: all_caused_mono)
    done
qed

lemma reconcile_apps_grounded [grounded_intros]: "grounded (reconcile_apps r svc sm apps w names)"
  by (induction apps arbitrary: w names) (auto intro!: grounded_intros emits_sum emits_prod)

lemma remove_extra_jobs_caused:
  "emits (remove_extra_jobs r names js) (\<lambda>_ cs. \<forall>seen ls items. ListedJobs ls (Inr items) \<in> set seen \<longrightarrow>
     set js \<subseteq> set items \<longrightarrow> all_caused seen cs)"
proof (induction js)
  case (Cons j js)
  have cause: "list_ex (write_cause (DeletedJob j g)) seen"
    if "ListedJobs ls (Inr items) \<in> set seen" "j \<in> set items" for ls items seen g
  proof -
    have "write_cause (DeletedJob j g) (ListedJobs ls (Inr items))" using that(2) by (simp add: write_cause_def)
    then show ?thesis using that(1) by (auto simp: list_ex_iff)
  qed
  show ?case
    unfolding remove_extra_jobs.simps deleteJob_def DeleteJob_def
    apply (rule emits_if)
     apply (rule emits_post [OF Cons.IH])
     apply auto[1]
    apply (rule emits_bind [OF emits_perform [where Q = "\<lambda>a cs. cs = [DeletedJob j a]"]], simp)
    apply (rule emits_sum)
     apply (auto intro: cause)[1]
    apply (rule emits_post [OF Cons.IH])
    apply (auto intro: cause)
    done
qed simp

lemma sweep_jobs_grounded [grounded_intros]: "grounded (sweep_jobs r w names)"
  unfolding sweep_jobs_def
  by (rule emits_bind [OF findJobs_emits], rule emits_sum, simp, rule emits_post [OF remove_extra_jobs_caused])
    (auto simp: all_caused_append)

lemma reconcile_jobs_grounded [grounded_intros]: "grounded (reconcile_jobs r svc sm w)"
  unfolding reconcile_jobs_def by (intro grounded_intros emits_if emits_sum emits_prod)

lemma reconcile_rest_grounded [grounded_intros]: "grounded (reconcile_rest r w)"
  unfolding reconcile_rest_def Let_def by (intro grounded_intros emits_sum)

lemma reconcile_live_grounded [grounded_intros]: "grounded (reconcile_live r w)"
  unfolding reconcile_live_def Let_def by (intro grounded_intros emits_sum)

section \<open>The whole function\<close>

lemma finalizer_cause [simp]: "write_cause (UpdatedWorkbench (set_finalizers w fs) g) (GotWorkbench k (Inr w))"
  by (simp add: write_cause_def set_finalizers_def)

lemma deleteExternalResources_grounded: "grounded (deleteExternalResources r w)"
proof -
  have event: "grounded (emit_event r e)" for e by (rule emits_post [OF emit_event_emits]) auto
  have jobs: "grounded (deleteJobs r w)"
    by (rule emits_post [OF deleteJobs_emits]) (auto simp: sum_cases write_cause_def split: if_splits)
  have deps: "grounded (deleteDeployments r w)"
    by (rule emits_post [OF deleteDeployments_emits]) (auto simp: sum_cases write_cause_def split: if_splits)
  show ?thesis
    unfolding deleteExternalResources_def by (intro grounded_intros emits_sum emits_if event jobs deps)
qed

lemma reconcile_deletion_caused:
  "emits (reconcile_deletion r w) (\<lambda>_ cs. all_caused [GotWorkbench k (Inr w)] cs)"
  unfolding reconcile_deletion_def UpdateWorkbench_def
  apply (rule emits_if)
   apply (rule emits_bind [OF deleteExternalResources_grounded], rule emits_sum)
    apply (auto intro: all_caused_mono)[1]
   apply (rule emits_sum)
    apply (auto intro: all_caused_mono)[1]
   apply (rule emits_if)
    apply (auto intro: all_caused_mono)[1]
   apply (rule emits_prod, rule emits_if)
    apply (rule emits_bind [OF emits_perform [where Q = "\<lambda>a cs. \<exists>fs. cs = [UpdatedWorkbench (set_finalizers w fs) a]"]])
     apply blast
    apply (auto simp: all_caused_append intro: all_caused_mono)
  done

lemma ensure_finalizer_caused:
  "emits (ensure_finalizer r w) (\<lambda>_ cs. all_caused [GotWorkbench k (Inr w)] cs)"
  by (rule emits_post [OF ensure_finalizer_emits])
    (auto split: prod.splits if_splits)

lemma Reconcile_grounded: "grounded (Reconcile r k)"
  unfolding Reconcile_def
  apply (rule emits_bind [OF GetWorkbench_emits], rule emits_sum)
   apply simp
  apply (rule emits_if)
   apply (rule emits_post [OF reconcile_deletion_caused [where k = k]])
   apply simp
  apply (rule emits_bind [OF ensure_finalizer_caused [where k = k]], rule emits_sum)
   apply simp
  apply (rule emits_post [OF reconcile_live_grounded])
  apply (auto simp: all_caused_append intro: all_caused_mono)
  done

end
