(* ===== verification/Reconciler_Ownership.thy ===== *)
theory Reconciler_Ownership
  imports Reconciler_Writes
begin

text \<open>
  To whom the objects belong that one call of \<open>Reconcile\<close> creates for a live workbench: they lie in
  its namespace, deployments, services and jobs carry its label, and, the set-up jobs of a
  storage apart, the owner reference by which a change of them leads to another call for the
  workbench (\<open>SetupWithManager\<close>) and by which the cluster removes them with it.
\<close>

section \<open>Owners\<close>

definition owned_by :: "workbench \<Rightarrow> object_meta \<Rightarrow> bool" where
  "owned_by w m \<longleftrightarrow>
     list_ex (\<lambda>rf. or_controller rf \<and> or_kind rf = ctl_for SetupWithManager \<and> or_name rf = wb_name w) (om_owners m)"

text \<open>\<open>SetControllerReference\<close>, when it succeeds, leaves a reference to the workbench that controls.\<close>

definition controller_laws :: "'w platform \<Rightarrow> bool" where
  "controller_laws p \<longleftrightarrow> owner_laws p \<and> (\<forall>w m m'. pf_set_controller p w m = Inr m' \<longrightarrow> owned_by w m')"

definition attached :: "workbench \<Rightarrow> object_meta \<Rightarrow> bool" where
  "attached w m \<longleftrightarrow> om_namespace m = wb_namespace w \<and> map_get (om_labels m) matchingLabel = Some (wb_name w)"

text \<open>A change of an object of a watched kind leads to a call of \<open>Reconcile\<close> for its controlling owner.\<close>

definition reported_to :: "workbench \<Rightarrow> string \<Rightarrow> object_meta \<Rightarrow> bool" where
  "reported_to w kind m \<longleftrightarrow> kind \<in> set (ctl_owns SetupWithManager) \<and> owned_by w m"

lemma reported_kinds [simp]:
  "reported_to w ''Deployment'' m \<longleftrightarrow> owned_by w m" "reported_to w ''Service'' m \<longleftrightarrow> owned_by w m"
  "reported_to w ''Job'' m \<longleftrightarrow> owned_by w m"
  by (simp_all add: reported_to_def SetupWithManager_def)

definition created_for :: "workbench \<Rightarrow> call \<Rightarrow> bool" where
  "created_for w c = (case c of
       CreatedDeployment d _ \<Rightarrow> attached w (dep_meta d) \<and> reported_to w ''Deployment'' (dep_meta d)
     | CreatedService s _ \<Rightarrow> attached w (svc_meta s) \<and> reported_to w ''Service'' (svc_meta s)
     | CreatedJob j _ \<Rightarrow> attached w (job_meta j) \<and> (job_suspend j = None \<or> reported_to w ''Job'' (job_meta j))
     | CreatedPVC v _ \<Rightarrow> om_namespace (pvc_meta v) = wb_namespace w
     | CreatedPV v _ \<Rightarrow> prefix (wb_namespace w @ ''-'') (om_name (pv_meta v))
     | _ \<Rightarrow> True)"

lemma created_for_other: "\<not> is_create c \<Longrightarrow> created_for w c"
  by (cases c) (simp_all add: is_create_def created_for_def)

lemma created_for_identity: "same_identity w w' \<Longrightarrow> created_for w' = created_for w"
  by (rule ext) (simp add: created_for_def attached_def reported_to_def owned_by_def same_identity_def split: call.split)

lemma creates_nothing: "list_all (\<lambda>c. \<not> is_create c) cs \<Longrightarrow> list_all (created_for w) cs"
  by (simp add: list_all_iff created_for_other)

lemma reads_create_nothing: "list_all reads_only cs \<Longrightarrow> list_all (created_for w) cs"
  by (rule creates_nothing) (simp add: list_all_iff reads_only_def is_write_def)

lemma is_create_simps [simp]:
  "\<not> is_create (GotWorkbench k gw)" "\<not> is_create (GotDeployment k gd)" "\<not> is_create (GotService k gs)"
  "\<not> is_create (GotJob k gj)" "\<not> is_create (ListedPods ns ls gp)" "\<not> is_create (ListedJobs ls gjs)"
  "\<not> is_create (UpdatedWorkbench w gw)" "\<not> is_create (UpdatedStatus w gw)" "\<not> is_create (UpdatedDeployment d gu)"
  "\<not> is_create (UpdatedJob j gu)" "\<not> is_create (DeletedJob j gu)" "\<not> is_create (Recorded e)"
  by (simp_all add: is_create_def)

lemma set_owner_laws:
  assumes "controller_laws (rc_platform r)" "set_owner r w m = Inr m'"
  shows "owned_by w m'" "attached w m \<Longrightarrow> attached w m'"
  using assms set_owner_fields [of r w m m']
  by (auto simp: controller_laws_def set_owner_def attached_def split: sum.splits)

lemma attached_meta [simp]: "attached w (new_meta n (wb_namespace w) (own_labels w))"
  by (simp add: attached_def map_get_def)

lemma attached_models [simp]:
  "attached w (dep_meta (initDeployment w cfg))" "attached w (svc_meta (initService w))"
  "attached w (job_meta (build_job cfg w uid app svc vs ms))"
  by (simp_all add: initDeployment_def initService_def Let_def)

section \<open>The parts\<close>

abbreviation creates_for :: "workbench \<Rightarrow> ('w, 'a) prog \<Rightarrow> bool" where
  "creates_for w m \<equiv> only_calls (created_for w) m"

lemma createDeployment_for:
  "attached w (dep_meta d) \<Longrightarrow> owned_by w (dep_meta d) \<Longrightarrow> creates_for w (createDeployment r d)"
  unfolding createDeployment_def GetDeployment_def CreateDeployment_def
  by (intro only_intros) (simp_all add: created_for_def)

lemma createService_for:
  "attached w (svc_meta s) \<Longrightarrow> owned_by w (svc_meta s) \<Longrightarrow> creates_for w (createService r s)"
  unfolding createService_def GetService_def CreateService_def
  by (intro only_intros) (simp_all add: created_for_def)

lemma write_status_for [only_intros]: "creates_for w (write_status r x)"
  unfolding write_status_def UpdateStatus_def by (intro only_intros) (simp add: created_for_def)

lemma apply_server_update_for [only_intros]: "creates_for w (apply_server_update r d found v)"
  unfolding apply_server_update_def UpdateDeployment_def emit_event_def RecordEvent_def
  by (intro only_intros) (simp_all add: created_for_def)

lemma updateServerPodHealth_for [only_intros]: "creates_for w (updateServerPodHealth r v d)"
  unfolding updateServerPodHealth_def ListPods_def Now_def
  by (intro only_intros) (simp add: created_for_def)

lemma reconcile_server_for:
  "attached w (dep_meta d) \<Longrightarrow> owned_by w (dep_meta d) \<Longrightarrow> creates_for w (reconcile_server r d v)"
  unfolding reconcile_server_def by (intro only_intros createDeployment_for)

lemma volume_name_prefix: "prefix (ns @ ''-'') (getPVName p ns)"
  by (simp add: getPVName_def base_getPVName_def same_prefix_prefix)

lemma volume_write_for:
  assumes "volume_writes w p c" "\<not> app_call c"
  shows "created_for w c"
proof (cases "is_create c")
  case True
  then show ?thesis
    using assms volume_name_prefix [of "wb_namespace w" p]
    by (cases c) (auto simp: is_create_def created_for_def volume_writes_def setup_call_def attached_def
        provider.claim_key reads_only_def is_write_def)
qed (rule created_for_other)

lemma processStorageProvider_for: "creates_for w (processStorageProvider r w p)"
  unfolding only_calls_def
  by (rule emits_post [OF emits_conj [OF processStorageProvider_emits processStorageProvider_app_free [unfolded only_calls_def]]])
    (auto simp: list_all_iff intro: volume_write_for)

lemma process_all_for: "creates_for w (process_all r w ps m)"
  by (induction ps arbitrary: m) (auto intro!: only_intros processStorageProvider_for)

lemma ProcessEnabledStorage_for [only_intros]: "creates_for w (ProcessEnabledStorage r sm w)"
  unfolding ProcessEnabledStorage_def by (intro only_intros process_all_for)

lemma createJob_for:
  "attached w (job_meta j) \<Longrightarrow> owned_by w (job_meta j) \<Longrightarrow> creates_for w (createJob r j)"
  unfolding createJob_def GetJob_def CreateJob_def
  by (intro only_intros) (simp_all add: created_for_def)

lemma reconcile_found_job_for [only_intros]: "creates_for w (reconcile_found_job r uid j found v)"
  unfolding reconcile_found_job_def UpdateJob_def by (intro only_intros) (simp add: created_for_def)

lemma reconcile_app_for:
  assumes "controller_laws (rc_platform r)"
  shows "creates_for w (reconcile_app r svc sm uid app w)"
proof -
  have init: "emits (initJob r cfg w uid app svc sm) (\<lambda>x cs. list_all (created_for w) cs \<and>
      (\<forall>j. x = Inr j \<longrightarrow> attached w (job_meta j)))" for cfg
    by (rule emits_post [OF emits_conj [OF initJob_emits initJob_reads]])
      (auto simp: initJob_result_def reads_create_nothing)
  have rest: "creates_for w (case set_owner r w (job_meta j0) of
      Inl e \<Rightarrow> State_Monad.return (Inl (Failed e))
    | Inr m \<Rightarrow> do {
        let j = j0\<lparr>job_meta := m\<rparr>;
        c \<leftarrow> createJob r j;
        case c of
          Inl e \<Rightarrow> State_Monad.return (if is_suspended_error e then Inr (w, []) else Inl (Failed e))
        | Inr None \<Rightarrow> State_Monad.return (Inr (w, [job_name j]))
        | Inr (Some found) \<Rightarrow> reconcile_found_job r uid j found w
      })" if "attached w (job_meta j0)" for j0
  proof (cases "set_owner r w (job_meta j0)")
    case (Inr m)
    then show ?thesis
      using set_owner_laws [OF assms Inr] that by (simp, intro only_intros createJob_for) simp_all
  qed (simp add: only_calls_return)
  show ?thesis
    unfolding reconcile_app_def only_calls_def
    apply (rule emits_bind [OF init], rule emits_sum)
     apply (rule emits_bind [OF write_status_for [of w, unfolded only_calls_def]], simp)
    apply (rule emits_post [OF rest [unfolded only_calls_def]])
     apply auto
    done
qed

section \<open>The whole function\<close>

lemma reconcile_apps_for:
  assumes laws: "controller_laws (rc_platform r)" "status_laws (rc_platform r)"
  shows "creates_for w (reconcile_apps r svc sm apps w names)"
proof (induction apps arbitrary: w names)
  case (Cons a apps)
  obtain uid app where a: "a = (uid, app)" by fastforce
  have owner: "owner_laws (rc_platform r)" using laws(1) by (simp add: controller_laws_def)
  show ?case
    unfolding a reconcile_apps.simps only_calls_def
    apply (rule emits_bind [OF emits_conj [OF reconcile_app_for [OF laws(1), unfolded only_calls_def]
            reconcile_app_fate [OF owner laws(2)]]], rule emits_sum)
     apply simp
    apply (rule emits_prod)
    apply (rule emits_post [OF Cons.IH [unfolded only_calls_def]])
    apply (auto simp: created_for_identity)
    done
qed (simp add: only_calls_return)

lemma sweep_jobs_for [only_intros]: "creates_for w (sweep_jobs r v names)"
proof -
  have "creates_for w (remove_extra_jobs r ns js)" for ns js
    by (induction js)
      (auto simp: deleteJob_def DeleteJob_def created_for_def intro!: only_intros)
  then show ?thesis
    unfolding sweep_jobs_def findJobs_def ListJobs_def by (intro only_intros) (simp_all add: created_for_def)
qed

lemma reconcile_jobs_for:
  "controller_laws (rc_platform r) \<Longrightarrow> status_laws (rc_platform r) \<Longrightarrow> creates_for w (reconcile_jobs r svc sm w)"
  unfolding reconcile_jobs_def by (intro only_intros reconcile_apps_for)

lemma reconcile_rest_for:
  assumes laws: "controller_laws (rc_platform r)" "status_laws (rc_platform r)"
  shows "creates_for w (reconcile_rest r w)"
proof (cases "set_owner r w (svc_meta (initService w))")
  case (Inl e)
  then show ?thesis by (simp add: reconcile_rest_def Let_def only_calls_return)
next
  case (Inr m)
  then show ?thesis
    using set_owner_laws [OF laws(1) Inr]
    unfolding reconcile_rest_def Let_def Inr sum.case
    by (intro only_intros createService_for reconcile_jobs_for [OF laws]) simp_all
qed

lemma reconcile_live_for:
  assumes laws: "controller_laws (rc_platform r)" "status_laws (rc_platform r)"
  shows "creates_for w (reconcile_live r w)"
proof (cases "set_owner r w (dep_meta (initDeployment w (rc_config r)))")
  case (Inl e)
  then show ?thesis by (simp add: reconcile_live_def Let_def only_calls_return)
next
  case (Inr m)
  let ?d = "initDeployment w (rc_config r)\<lparr>dep_meta := m\<rparr>"
  have server: "creates_for w (reconcile_server r ?d w)"
    using set_owner_laws [OF laws(1) Inr] by (intro reconcile_server_for) simp_all
  have rest: "emits (reconcile_rest r v) (\<lambda>_ cs. list_all (created_for w) cs)" if "same_identity w v" for v
    using reconcile_rest_for [OF laws, of v] unfolding only_calls_def created_for_identity [OF that] .
  show ?thesis
    unfolding reconcile_live_def Let_def Inr sum.case only_calls_def
    apply (rule emits_bind [OF emits_conj [OF server [unfolded only_calls_def] reconcile_server_identity [OF laws(2)]]],
        rule emits_sum)
     apply simp
    apply (rule emits_post [OF rest], blast)
    apply simp
    done
qed

lemma Reconcile_creates_for:
  assumes laws: "controller_laws (rc_platform r)" "status_laws (rc_platform r)" "update_laws (rc_platform r)"
  shows "emits (Reconcile r k) (\<lambda>_ cs. \<exists>g tl. cs = GotWorkbench k g # tl \<and>
    (case g of Inl _ \<Rightarrow> tl = [] | Inr w \<Rightarrow> list_all (created_for w) tl))"
proof -
  have live: "emits (reconcile_live r v) (\<lambda>_ cs. list_all (created_for w) cs)" if "same_identity w v" for w v
    using reconcile_live_for [OF laws(1,2), of v] unfolding only_calls_def created_for_identity [OF that] .
  have finalizer: "emits (ensure_finalizer r w) (\<lambda>x cs. list_all (created_for w) cs \<and>
      (\<forall>w'. x = Inr w' \<longrightarrow> same_identity w w'))" for w
    by (rule emits_post [OF emits_conj [OF ensure_finalizer_emits ensure_finalizer_identity [OF laws(3)]]])
      (auto simp: created_for_def split: prod.splits if_splits)
  show ?thesis
    unfolding Reconcile_def
    apply (rule emits_bind [OF GetWorkbench_emits], rule emits_sum)
     apply simp
    apply (rule emits_if)
     apply (rule emits_post [OF reconcile_deletion_emits [where b = False]])
     apply (auto simp: list_all_iff dest: deletion_app_free intro: created_for_other)[1]
    apply (rule emits_bind [OF finalizer], rule emits_sum)
     apply simp
    apply (rule emits_post [OF live], blast)
    apply simp
    done
qed

end
