(* ===== verification/Cluster_Steps.thy ===== *)
theory Cluster_Steps
  imports Reconciler_Replay Reconciler_Ownership Reconciler_Status Reference_Cluster
begin

text \<open>
  The cluster as a state machine, for any platform whose API server keeps the documented contract
  (\<open>api_laws\<close>): passes of \<open>Reconcile\<close>, whole or broken off after any call, in any order with what users
  and the controllers of Kubernetes do, who may also act before and after every single call of a pass;
  and any call may fail, with or without having taken effect. Others than the operator do not
  take its finalizer off a workbench and do not put its label on other objects. Passes follow one another
  (the manager runs one worker) and reads are current. In every reachable world each deployment and job
  that carries the label of a workbench has a workbench of that name in its namespace, which still
  holds the finalizer.
\<close>

section \<open>What an inventory shows of the world\<close>

record inventory =
  iv_workbenches :: "object_meta list"
  iv_jobs :: "object_meta list"
  iv_deployments :: "object_meta list"

text \<open>Where an object is, and to which workbench it says it belongs.\<close>

definition same_place :: "object_meta \<Rightarrow> object_meta \<Rightarrow> bool" where
  "same_place m m' \<longleftrightarrow> om_namespace m' = om_namespace m \<and>
     map_get (om_labels m') matchingLabel = map_get (om_labels m) matchingLabel"

definition unlabelled :: "object_meta \<Rightarrow> bool" where
  "unlabelled m \<longleftrightarrow> map_get (om_labels m) matchingLabel = None"

definition has_finalizer :: "object_meta \<Rightarrow> bool" where
  "has_finalizer m \<longleftrightarrow> finalizer \<in> set (om_finalizers m)"

text \<open>Users, the controllers of Kubernetes, and the API server on their behalf.\<close>

inductive others :: "inventory \<Rightarrow> inventory \<Rightarrow> bool" where
  workbench_created: "list_all (\<lambda>x. \<not> at_key (key_of m) x) (iv_workbenches i) \<Longrightarrow>
    others i (i\<lparr>iv_workbenches := iv_workbenches i @ [m]\<rparr>)"
| workbenches_changed: "(\<And>m. key_of (f m) = key_of m \<and> (has_finalizer m \<longrightarrow> has_finalizer (f m))) \<Longrightarrow>
    others i (i\<lparr>iv_workbenches := map f (iv_workbenches i)\<rparr>)"
| workbenches_removed: "(\<And>m. has_finalizer m \<Longrightarrow> P m) \<Longrightarrow>
    others i (i\<lparr>iv_workbenches := filter P (iv_workbenches i)\<rparr>)"
| jobs_changed: "(\<And>m. same_place m (f m)) \<Longrightarrow> others i (i\<lparr>iv_jobs := map f (filter P (iv_jobs i))\<rparr>)"
| deployments_changed: "(\<And>m. same_place m (f m)) \<Longrightarrow>
    others i (i\<lparr>iv_deployments := map f (filter P (iv_deployments i))\<rparr>)"
| job_created: "unlabelled m \<Longrightarrow> others i (i\<lparr>iv_jobs := iv_jobs i @ [m]\<rparr>)"
| deployment_created: "unlabelled m \<Longrightarrow> others i (i\<lparr>iv_deployments := iv_deployments i @ [m]\<rparr>)"

section \<open>How a call is served\<close>

text \<open>A write that succeeds takes effect; one that fails may have (the answer was lost).\<close>

definition attempted :: "'a reply \<Rightarrow> bool \<Rightarrow> bool \<Rightarrow> bool" where
  "attempted g effect nothing \<longleftrightarrow> effect \<or> (\<exists>e. g = Inl e) \<and> nothing"

definition replaced :: "object_meta \<Rightarrow> object_meta list \<Rightarrow> object_meta list" where
  "replaced m ms = map (\<lambda>x. if at_key (key_of m) x then m else x) ms"

text \<open>
  An update of a workbench stores the finalizers it was sent; a workbench under deletion that
  is left without finalizers is removed.
\<close>

definition workbench_stored :: "object_meta \<Rightarrow> inventory \<Rightarrow> inventory \<Rightarrow> bool" where
  "workbench_stored m i i' \<longleftrightarrow> list_ex (at_key (key_of m)) (iv_workbenches i) \<and>
     ((\<exists>m'. key_of m' = key_of m \<and> om_finalizers m' = om_finalizers m \<and>
         i' = i\<lparr>iv_workbenches := replaced m' (iv_workbenches i)\<rparr>) \<or>
      (om_finalizers m = [] \<and>
         i' = i\<lparr>iv_workbenches := filter (\<lambda>x. \<not> at_key (key_of m) x) (iv_workbenches i)\<rparr>))"

definition served :: "call \<Rightarrow> inventory \<Rightarrow> inventory \<Rightarrow> bool" where
  "served c i i' \<longleftrightarrow> (case c of
       GotWorkbench k g \<Rightarrow> i' = i \<and> (\<forall>w. g = Inr w \<longrightarrow> wb_meta w \<in> set (iv_workbenches i) \<and> at_key k (wb_meta w))
     | GotDeployment k g \<Rightarrow> i' = i \<and> (\<forall>d. g = Inr d \<longrightarrow> dep_meta d \<in> set (iv_deployments i))
     | GotJob k g \<Rightarrow> i' = i \<and> (\<forall>j. g = Inr j \<longrightarrow> job_meta j \<in> set (iv_jobs i))
     | ListedJobs ls g \<Rightarrow> i' = i \<and> (\<forall>js. g = Inr js \<longrightarrow> map job_meta js = filter (has_labels ls) (iv_jobs i))
     | ListedDeployments ls g \<Rightarrow>
         i' = i \<and> (\<forall>ds. g = Inr ds \<longrightarrow> map dep_meta ds = filter (has_labels ls) (iv_deployments i))
     | CreatedJob j g \<Rightarrow>
         attempted g (\<exists>m. same_place (job_meta j) m \<and> i' = i\<lparr>iv_jobs := iv_jobs i @ [m]\<rparr>) (i' = i)
     | CreatedDeployment d g \<Rightarrow>
         attempted g (\<exists>m. same_place (dep_meta d) m \<and> i' = i\<lparr>iv_deployments := iv_deployments i @ [m]\<rparr>) (i' = i) \<and>
         (\<forall>d'. g = Inr d' \<longrightarrow> same_place (dep_meta d) (dep_meta d'))
     | UpdatedJob j g \<Rightarrow>
         attempted g (\<exists>m. same_place (job_meta j) m \<and> i' = i\<lparr>iv_jobs := replaced m (iv_jobs i)\<rparr>) (i' = i)
     | UpdatedDeployment d g \<Rightarrow>
         attempted g (\<exists>m. same_place (dep_meta d) m \<and> i' = i\<lparr>iv_deployments := replaced m (iv_deployments i)\<rparr>) (i' = i)
     | UpdatedWorkbench w g \<Rightarrow> attempted g (workbench_stored (wb_meta w) i i') (i' = i)
     | DeletedJob j g \<Rightarrow> \<exists>P. i' = i\<lparr>iv_jobs := filter P (iv_jobs i)\<rparr>
     | DeletedAllJobs ns ls g \<Rightarrow> \<exists>P. i' = i\<lparr>iv_jobs := filter P (iv_jobs i)\<rparr>
     | DeletedAllDeployments ns ls g \<Rightarrow> \<exists>P. i' = i\<lparr>iv_deployments := filter P (iv_deployments i)\<rparr>
     | _ \<Rightarrow> i' = i)"

text \<open>Others may act before and after.\<close>

definition happens :: "call \<Rightarrow> inventory \<Rightarrow> inventory \<Rightarrow> bool" where
  "happens c i i' \<longleftrightarrow> (\<exists>a b. others\<^sup>*\<^sup>* i a \<and> served c a b \<and> others\<^sup>*\<^sup>* b i')"

definition api_laws :: "'w platform \<Rightarrow> ('w \<Rightarrow> inventory) \<Rightarrow> bool" where
  "api_laws p v \<longleftrightarrow> (\<forall>c x y. platform_step p c x y \<longrightarrow> happens c (v x) (v y))"

text \<open>
  The worlds that can be reached from one without labelled objects. A pass may be broken off after any
  call, and the operator may come back with another configuration.
\<close>

inductive reachable :: "'w platform \<Rightarrow> ('w \<Rightarrow> inventory) \<Rightarrow> 'w \<Rightarrow> bool" for p v where
  initially: "list_all unlabelled (iv_jobs (v x) @ iv_deployments (v x)) \<Longrightarrow> reachable p v x"
| by_others: "reachable p v x \<Longrightarrow> others\<^sup>*\<^sup>* (v x) (v y) \<Longrightarrow> reachable p v y"
| by_pass: "reachable p v x \<Longrightarrow> rc_platform r = p \<Longrightarrow> calls_of (Reconcile r k) x = cs @ rest \<Longrightarrow>
    replays p x cs y \<Longrightarrow> reachable p v y"

section \<open>The invariant\<close>

definition holder :: "string \<Rightarrow> string \<Rightarrow> object_meta \<Rightarrow> bool" where
  "holder n ns m \<longleftrightarrow> at_key (key n ns) m \<and> has_finalizer m"

definition looked_after :: "inventory \<Rightarrow> object_meta \<Rightarrow> bool" where
  "looked_after i m = (case map_get (om_labels m) matchingLabel of
       None \<Rightarrow> True
     | Some n \<Rightarrow> list_ex (holder n (om_namespace m)) (iv_workbenches i))"

definition all_looked_after :: "inventory \<Rightarrow> bool" where
  "all_looked_after i \<longleftrightarrow> list_all (looked_after i) (iv_jobs i @ iv_deployments i)"

lemma looked_after_place: "same_place m m' \<Longrightarrow> looked_after i m' = looked_after i m"
  by (auto simp: looked_after_def same_place_def split: option.split)

lemma same_place_refl [simp]: "same_place m m"
  by (simp add: same_place_def)

lemma own_place [intro]: "m \<in> A \<Longrightarrow> \<exists>x\<in>A. same_place x m"
  by (rule bexI [of _ m]) simp_all

lemma moved_place: "\<exists>x\<in>A. same_place x m \<Longrightarrow> same_place m m' \<Longrightarrow> \<exists>x\<in>A. same_place x m'"
  by (auto simp: same_place_def)

definition holders_kept :: "inventory \<Rightarrow> inventory \<Rightarrow> bool" where
  "holders_kept i i' \<longleftrightarrow> (\<forall>n ns. list_ex (holder n ns) (iv_workbenches i) \<longrightarrow> list_ex (holder n ns) (iv_workbenches i'))"

lemma looked_after_kept: "holders_kept i i' \<Longrightarrow> looked_after i m \<Longrightarrow> looked_after i' m"
  by (auto simp: looked_after_def holders_kept_def split: option.splits)

lemma holders_kept_same [simp]: "iv_workbenches i' = iv_workbenches i \<Longrightarrow> holders_kept i i'"
  by (simp add: holders_kept_def)

lemma holders_keptI:
  assumes "\<And>m. m \<in> set (iv_workbenches i) \<Longrightarrow> has_finalizer m \<Longrightarrow>
    \<exists>m' \<in> set (iv_workbenches i'). key_of m' = key_of m \<and> has_finalizer m'"
  shows "holders_kept i i'"
  unfolding holders_kept_def list_ex_iff
proof (intro allI impI)
  fix n ns assume "\<exists>m \<in> set (iv_workbenches i). holder n ns m"
  then obtain m where m: "m \<in> set (iv_workbenches i)" "at_key (key n ns) m" "has_finalizer m"
    by (auto simp: holder_def)
  then obtain m' where "m' \<in> set (iv_workbenches i')" "key_of m' = key_of m" "has_finalizer m'"
    using assms by blast
  then show "\<exists>m \<in> set (iv_workbenches i'). holder n ns m"
    using m(2) by (auto simp: holder_def at_key_def key_of_def intro!: bexI [of _ m'])
qed

text \<open>Where objects come from that are there after a step.\<close>

definition objects_from :: "inventory \<Rightarrow> inventory \<Rightarrow> (object_meta \<Rightarrow> bool) \<Rightarrow> (object_meta \<Rightarrow> bool) \<Rightarrow> bool" where
  "objects_from i i' J D \<longleftrightarrow>
     (\<forall>m' \<in> set (iv_jobs i'). (\<exists>m \<in> set (iv_jobs i). same_place m m') \<or> J m') \<and>
     (\<forall>m' \<in> set (iv_deployments i'). (\<exists>m \<in> set (iv_deployments i). same_place m m') \<or> D m')"

lemma all_looked_after_step:
  assumes "all_looked_after i" "holders_kept i i'" "objects_from i i' J D"
    "\<And>m. J m \<Longrightarrow> looked_after i' m" "\<And>m. D m \<Longrightarrow> looked_after i' m"
  shows "all_looked_after i'"
proof -
  have "looked_after i' m'" if "m' \<in> set (iv_jobs i') \<union> set (iv_deployments i')" for m'
    using assms(1,3,4,5) that looked_after_place looked_after_kept [OF assms(2)]
    unfolding all_looked_after_def objects_from_def list_all_iff by (metis UnE set_append UnI1 UnI2)
  then show ?thesis by (simp add: all_looked_after_def list_all_iff)
qed

text \<open>What others do.\<close>

lemma others_holders: "others i i' \<Longrightarrow> holders_kept i i'"
proof (induction rule: others.induct)
  case (workbenches_changed f i)
  then show ?case by (intro holders_keptI) (auto intro: bexI [where x = "f _"])
qed (auto intro!: holders_keptI)

lemma others_objects: "others i i' \<Longrightarrow> objects_from i i' unlabelled unlabelled"
  by (induction rule: others.induct) (auto simp: objects_from_def)

lemma unlabelled_looked_after: "unlabelled m \<Longrightarrow> looked_after i m"
  by (simp add: unlabelled_def looked_after_def)

lemma objects_from_trans:
  assumes "objects_from a b unlabelled unlabelled" "objects_from b c unlabelled unlabelled"
  shows "objects_from a c unlabelled unlabelled"
proof -
  have "unlabelled m'" if "same_place m m'" "unlabelled m" for m m'
    using that by (simp add: same_place_def unlabelled_def)
  then show ?thesis
    using assms moved_place unfolding objects_from_def by meson
qed

lemma others_star:
  assumes "others\<^sup>*\<^sup>* i i'"
  shows "holders_kept i i'" "objects_from i i' unlabelled unlabelled"
proof -
  have "holders_kept i i' \<and> objects_from i i' unlabelled unlabelled"
    using assms
  proof (induction rule: rtranclp_induct)
    case base
    then show ?case by (auto simp: objects_from_def)
  next
    case (step a b)
    then show ?case
      using others_holders [OF step.hyps(2)] objects_from_trans others_objects [OF step.hyps(2)]
      by (auto simp: holders_kept_def)
  qed
  then show "holders_kept i i'" "objects_from i i' unlabelled unlabelled" by blast+
qed

lemma others_looked_after: "others\<^sup>*\<^sup>* i i' \<Longrightarrow> all_looked_after i \<Longrightarrow> all_looked_after i'"
  by (rule all_looked_after_step [OF _ others_star]) (simp_all add: unlabelled_looked_after)

section \<open>What a pass calls\<close>

text \<open>
  The part of a pass for a live workbench changes the finalizers of no workbench, creates only what is
  attached to its own, and updates only what it was answered before.
\<close>

definition live_call :: "workbench \<Rightarrow> call \<Rightarrow> bool" where
  "live_call w c \<longleftrightarrow> created_for w c \<and> \<not> finalizer_release c"

definition live_calls :: "workbench \<Rightarrow> call list \<Rightarrow> bool" where
  "live_calls w cs \<longleftrightarrow> list_all (live_call w) cs \<and> all_caused [] cs"

lemma live_calls_identity: "same_identity w w' \<Longrightarrow> live_calls w' = live_calls w"
  by (intro ext) (simp add: live_calls_def live_call_def [abs_def] created_for_identity)

lemma live_calls_none [simp]: "live_calls w []"
  by (simp add: live_calls_def)

abbreviation release_free :: "('w, 'a) prog \<Rightarrow> bool" where
  "release_free m \<equiv> only_calls (\<lambda>c. \<not> finalizer_release c) m"

lemma finalizer_release_simps [simp]:
  "\<not> finalizer_release (GotWorkbench k gw)" "\<not> finalizer_release (GotDeployment k gd)" "\<not> finalizer_release (GotJob k gj)"
  "\<not> finalizer_release (ListedPods ns ls gp)" "\<not> finalizer_release (CreatedDeployment d gd)"
  "\<not> finalizer_release (CreatedJob j gu)" "\<not> finalizer_release (UpdatedStatus w gw)"
  "\<not> finalizer_release (UpdatedDeployment d gu)" "\<not> finalizer_release (UpdatedJob j gu)"
  "\<not> finalizer_release (Recorded e)" "finalizer_release (UpdatedWorkbench w gw)"
  by (simp_all add: finalizer_release_def)

lemma free_release:
  "\<not> workbench_write c \<Longrightarrow> \<not> finalizer_release c" "reads_only c \<Longrightarrow> \<not> finalizer_release c"
  by (cases c; simp add: workbench_write_def finalizer_release_def reads_only_def call_kind_defs)+

lemma status_free_release_free: "status_free m \<Longrightarrow> release_free m"
  by (erule only_calls_mono) (rule free_release)

lemma reads_release_free: "emits m (\<lambda>_ cs. list_all reads_only cs) \<Longrightarrow> release_free m"
  unfolding only_calls_def by (erule emits_post) (auto simp: list_all_iff free_release)

lemma write_status_release [only_intros]: "release_free (write_status r x)"
  unfolding write_status_def UpdateStatus_def by (intro only_intros) simp

lemma reconcile_server_release [only_intros]: "release_free (reconcile_server r d w)"
  unfolding reconcile_server_def createDeployment_def GetDeployment_def CreateDeployment_def
    updateServerPodHealth_def ListPods_def Now_def apply_server_update_def UpdateDeployment_def emit_event_def
    RecordEvent_def
  by (intro only_intros) simp_all

lemma reconcile_app_release [only_intros]: "release_free (reconcile_app r svc sm uid app w)"
  unfolding reconcile_app_def createJob_def GetJob_def CreateJob_def reconcile_found_job_def UpdateJob_def
  by (intro only_intros reads_release_free [OF emits_post [OF initJob_reads]]) simp_all

lemma reconcile_live_release: "release_free (reconcile_live r w)"
proof -
  have apps: "release_free (reconcile_apps r svc sm apps v names)" for svc sm apps v names
    by (induction apps arbitrary: v names) (auto intro!: only_intros)
  show ?thesis
    unfolding reconcile_live_def reconcile_rest_def reconcile_jobs_def
    by (intro only_intros apps status_free_release_free [OF sweep_jobs_typed]
        status_free_release_free [OF createService_typed] status_free_release_free [OF ProcessEnabledStorage_typed])
qed

text \<open>The whole pass: nothing, a deletion, or the finalizer and then the live part.\<close>

definition finalizer_part :: "workbench \<Rightarrow> call list \<Rightarrow> call list \<Rightarrow> bool" where
  "finalizer_part w fs live \<longleftrightarrow>
     (fs = [] \<and> has_finalizer (wb_meta w)) \<or>
     (\<exists>l g. fs = [UpdatedWorkbench (set_finalizers w l) g] \<and> finalizer \<in> set l \<and> ((\<exists>e. g = Inl e) \<longrightarrow> live = []))"

definition pass_shape :: "call list \<Rightarrow> bool" where
  "pass_shape cs \<longleftrightarrow> (\<exists>k g tl. cs = GotWorkbench k g # tl \<and>
     (case g of
        Inl _ \<Rightarrow> tl = []
      | Inr w \<Rightarrow> if being_deleted w then list_all (deletion_call w) tl \<and> deletion_order tl
          else \<exists>fs live. tl = fs @ live \<and> finalizer_part w fs live \<and> live_calls w live))"

lemma ensure_finalizer_part:
  assumes "finalizer_laws (rc_platform r)" "update_laws (rc_platform r)"
  shows "emits (ensure_finalizer r w) (\<lambda>x cs. (\<forall>w'. x = Inr w' \<longrightarrow> same_identity w w') \<and>
    (\<forall>live. ((\<exists>e. x = Inl e) \<longrightarrow> live = []) \<longrightarrow> finalizer_part w cs live))"
proof (rule emits_post [OF emits_conj [OF ensure_finalizer_identity [OF assms(2)] ensure_finalizer_emits]])
  obtain b fs where add: "pf_add_finalizer (rc_platform r) (om_finalizers (wb_meta w)) finalizer = (b, fs)"
    by fastforce
  have laws: "contains_finalizer r w \<longleftrightarrow> has_finalizer (wb_meta w)"
      "b \<longleftrightarrow> \<not> has_finalizer (wb_meta w)" "finalizer \<in> set fs"
    using assms(1) add unfolding finalizer_laws_def contains_finalizer_def has_finalizer_def
    by (metis, metis fst_conv, metis insertI1 snd_conv)
  fix x :: "workbench reply" and cs
  assume "(\<forall>w'. x = Inr w' \<longrightarrow> same_identity w w') \<and>
     ((contains_finalizer r w \<and> cs = [] \<and> x = Inr w) \<or>
     (\<not> contains_finalizer r w \<and>
      (case pf_add_finalizer (rc_platform r) (om_finalizers (wb_meta w)) finalizer of (b, fs) \<Rightarrow>
         if b then cs = [UpdatedWorkbench (set_finalizers w fs) x] else cs = [] \<and> x = Inr (set_finalizers w fs))))"
  then show "(\<forall>w'. x = Inr w' \<longrightarrow> same_identity w w') \<and>
    (\<forall>live. ((\<exists>e. x = Inl e) \<longrightarrow> live = []) \<longrightarrow> finalizer_part w cs live)"
    using laws add by (auto simp: finalizer_part_def)
qed

lemma reconcile_live_calls:
  assumes "controller_laws (rc_platform r)" "status_laws (rc_platform r)"
  shows "emits (reconcile_live r w) (\<lambda>_ cs. live_calls w cs)"
  by (rule emits_post [OF emits_conj [OF reconcile_live_for [OF assms, unfolded only_calls_def]
          emits_conj [OF reconcile_live_release [unfolded only_calls_def] reconcile_live_grounded]]])
    (auto simp: live_calls_def live_call_def list_all_iff)

lemma Reconcile_shape:
  assumes laws: "finalizer_laws (rc_platform r)" "controller_laws (rc_platform r)" "status_laws (rc_platform r)"
    "update_laws (rc_platform r)"
  shows "emits (Reconcile r k) (\<lambda>_ cs. pass_shape cs)"
  unfolding Reconcile_def
  apply (rule emits_bind [OF GetWorkbench_emits], rule emits_sum)
   apply (simp add: pass_shape_def)
  apply (rule emits_if)
   apply (rule emits_post [OF reconcile_deletion_emits [where b = False]])
   apply (simp add: pass_shape_def)
  apply (rule emits_bind [OF ensure_finalizer_part [OF laws(1,4)]], rule emits_sum)
   apply (simp add: pass_shape_def)
   apply (metis append_Nil2 live_calls_none)
  apply (rule emits_post [OF reconcile_live_calls [OF laws(2,3)]])
  apply (simp add: pass_shape_def)
  apply (metis live_calls_identity sum.distinct(1))
  done

section \<open>Served calls\<close>

lemma served_holders: "\<not> finalizer_release c \<Longrightarrow> served c i i' \<Longrightarrow> iv_workbenches i' = iv_workbenches i"
  by (cases c) (auto simp: served_def attempted_def)

text \<open>The metadata a call sends for jobs and deployments.\<close>

definition sent_job :: "call \<Rightarrow> object_meta \<Rightarrow> bool" where
  "sent_job c m \<longleftrightarrow> (case c of
       CreatedJob j _ \<Rightarrow> same_place (job_meta j) m | UpdatedJob j _ \<Rightarrow> same_place (job_meta j) m | _ \<Rightarrow> False)"

definition sent_deployment :: "call \<Rightarrow> object_meta \<Rightarrow> bool" where
  "sent_deployment c m \<longleftrightarrow> (case c of
       CreatedDeployment d _ \<Rightarrow> same_place (dep_meta d) m | UpdatedDeployment d _ \<Rightarrow> same_place (dep_meta d) m
     | _ \<Rightarrow> False)"

lemma served_objects: "served c i i' \<Longrightarrow> objects_from i i' (sent_job c) (sent_deployment c)"
  by (cases c) (auto simp: served_def attempted_def objects_from_def sent_job_def sent_deployment_def
      replaced_def workbench_stored_def split: if_splits)

lemma served_looked_after:
  assumes "all_looked_after i" "served c i i'" "holders_kept i i'"
    "\<And>m. sent_job c m \<Longrightarrow> looked_after i' m" "\<And>m. sent_deployment c m \<Longrightarrow> looked_after i' m"
  shows "all_looked_after i'"
  by (rule all_looked_after_step [OF assms(1,3) served_objects [OF assms(2)] assms(4,5)])

section \<open>The live part\<close>

definition held :: "workbench \<Rightarrow> inventory \<Rightarrow> bool" where
  "held w i \<longleftrightarrow> list_ex (holder (wb_name w) (wb_namespace w)) (iv_workbenches i)"

lemma held_attached: "held w i \<Longrightarrow> attached w m \<Longrightarrow> looked_after i m"
  by (simp add: held_def attached_def looked_after_def)

text \<open>What was answered earlier in the same pass is still looked after.\<close>

definition answer_kept :: "inventory \<Rightarrow> call \<Rightarrow> bool" where
  "answer_kept i c \<longleftrightarrow> (case c of
       GotJob _ (Inr j) \<Rightarrow> looked_after i (job_meta j)
     | GotDeployment _ (Inr d) \<Rightarrow> looked_after i (dep_meta d)
     | CreatedDeployment _ (Inr d) \<Rightarrow> looked_after i (dep_meta d)
     | _ \<Rightarrow> True)"

definition live_state :: "workbench \<Rightarrow> call list \<Rightarrow> inventory \<Rightarrow> bool" where
  "live_state w seen i \<longleftrightarrow> all_looked_after i \<and> held w i \<and> list_all (answer_kept i) seen"

lemma answer_kept_mono: "holders_kept i i' \<Longrightarrow> answer_kept i c \<Longrightarrow> answer_kept i' c"
  by (auto simp: answer_kept_def dest: looked_after_kept split: call.split sum.split)

lemma kept_mono:
  assumes "holders_kept i i'"
  shows "held w i \<Longrightarrow> held w i'" "list_all (answer_kept i) seen \<Longrightarrow> list_all (answer_kept i') seen"
  using assms answer_kept_mono [OF assms] by (auto simp: held_def holders_kept_def list_all_iff)

lemma live_state_others: "others\<^sup>*\<^sup>* i i' \<Longrightarrow> live_state w seen i \<Longrightarrow> live_state w seen i'"
  using others_looked_after kept_mono [OF others_star(1)] by (auto simp: live_state_def)

lemma cause_kept:
  assumes "list_ex (write_cause c) seen" "list_all (answer_kept i) seen"
  shows "c = UpdatedJob j g \<Longrightarrow> looked_after i (job_meta j)"
    "c = UpdatedDeployment d g \<Longrightarrow> looked_after i (dep_meta d)"
proof -
  obtain e where e: "write_cause c e" "answer_kept i e" using assms by (auto simp: list_ex_iff list_all_iff)
  show "looked_after i (job_meta j)" if c: "c = UpdatedJob j g"
  proof -
    obtain k f where f: "e = GotJob k (Inr f)" "j = f\<lparr>job_suspend := job_suspend j\<rparr>"
      using e(1) c by (auto simp: write_cause_def split: call.splits sum.splits)
    have "job_meta j = job_meta f" by (subst f(2)) simp
    then show ?thesis using e(2) f(1) by (simp add: answer_kept_def)
  qed
  show "looked_after i (dep_meta d)" if "c = UpdatedDeployment d g"
    using e that by (auto simp: write_cause_def answer_kept_def changed_deployment_def split: call.splits sum.splits)
qed

lemma created_looked_after:
  assumes "held w i" "created_for w c"
  shows "c = CreatedJob j g \<Longrightarrow> looked_after i (job_meta j)"
    "c = CreatedDeployment d g' \<Longrightarrow> looked_after i (dep_meta d)"
  using assms by (auto simp: created_for_def intro: held_attached)

lemma live_served:
  assumes st: "live_state w seen i" and c: "live_call w c" "served c i i'"
    and cause: "needs_cause c \<longrightarrow> list_ex (write_cause c) seen"
  shows "live_state w (c # seen) i'"
proof -
  have "iv_workbenches i' = iv_workbenches i" using served_holders [OF _ c(2)] c(1) by (simp add: live_call_def)
  then have kept: "holders_kept i i'" by simp
  have all: "all_looked_after i" and held: "held w i'" and seen: "list_all (answer_kept i') seen"
    using st kept_mono [OF kept] by (auto simp: live_state_def)
  note new = created_looked_after [OF held, of c] cause_kept [of c seen i', OF _ seen] looked_after_place
  have "sent_job c m \<Longrightarrow> looked_after i' m" for m
    using new c(1) cause by (cases c) (auto simp: sent_job_def live_call_def)
  moreover have dep: "sent_deployment c m \<Longrightarrow> looked_after i' m" for m
    using new c(1) cause by (cases c) (auto simp: sent_deployment_def live_call_def)
  moreover have "answer_kept i' c"
  proof (cases "\<exists>d g. c = CreatedDeployment d g")
    case True
    then show ?thesis using c(2) dep by (auto simp: answer_kept_def served_def sent_deployment_def split: sum.split)
  next
    case False
    then have "answer_kept i c"
      using c(2) all
      by (auto simp: answer_kept_def served_def all_looked_after_def list_all_iff split: call.split sum.split)
    then show ?thesis using kept answer_kept_mono by blast
  qed
  ultimately show ?thesis
    using served_looked_after [OF all c(2) kept] held seen by (simp add: live_state_def)
qed

lemma live_replay:
  assumes laws: "api_laws p v"
  shows "replays p x cs y \<Longrightarrow> list_all (live_call w) cs \<Longrightarrow> all_caused seen cs \<Longrightarrow> live_state w seen (v x) \<Longrightarrow>
    all_looked_after (v y)"
proof (induction cs arbitrary: x seen)
  case Nil
  then show ?case by (simp add: live_state_def)
next
  case (Cons c cs)
  obtain z where z: "platform_step p c x z" "replays p z cs y" using Cons.prems(1) by auto
  obtain a b where ab: "others\<^sup>*\<^sup>* (v x) a" "served c a b" "others\<^sup>*\<^sup>* b (v z)"
    using laws z(1) unfolding api_laws_def happens_def by blast
  have "live_state w (c # seen) b"
    by (rule live_served [OF live_state_others [OF ab(1) Cons.prems(4)] _ ab(2)]) (use Cons.prems in auto)
  then show ?case using Cons.IH [OF z(2)] live_state_others [OF ab(3)] Cons.prems(2,3) by auto
qed

section \<open>The finalizer\<close>

lemma finalizer_stored:
  assumes "workbench_stored m i i'" "has_finalizer m"
  shows "holders_kept i i'" "list_ex (holder (om_name m) (om_namespace m)) (iv_workbenches i')"
proof -
  have "om_finalizers m \<noteq> []" using assms(2) by (auto simp: has_finalizer_def)
  then obtain m' where m': "key_of m' = key_of m" "has_finalizer m'"
      "iv_workbenches i' = replaced m' (iv_workbenches i)" "list_ex (at_key (key_of m)) (iv_workbenches i)"
    using assms by (auto simp: workbench_stored_def has_finalizer_def)
  show "holders_kept i i'"
  proof (rule holders_keptI)
    fix x assume x: "x \<in> set (iv_workbenches i)" "has_finalizer x"
    let ?x = "if at_key (key_of m') x then m' else x"
    have "?x \<in> set (iv_workbenches i')" using x(1) m'(3) by (simp add: replaced_def)
    moreover have "key_of ?x = key_of x" by (simp add: at_key_def key_of_def)
    moreover have "has_finalizer ?x" using x(2) m'(2) by simp
    ultimately show "\<exists>x' \<in> set (iv_workbenches i'). key_of x' = key_of x \<and> has_finalizer x'" by blast
  qed
  have "m' \<in> set (iv_workbenches i')" using m' by (auto simp: replaced_def list_ex_iff)
  then show "list_ex (holder (om_name m) (om_namespace m)) (iv_workbenches i')"
    using m'(1,2) by (auto simp: list_ex_iff holder_def at_key_def key_of_def)
qed

text \<open>The call that adds it keeps the invariant, and if it succeeds the workbench holds it.\<close>

lemma finalizer_added:
  assumes "served (UpdatedWorkbench (set_finalizers w l) g) i i'" "finalizer \<in> set l" "all_looked_after i"
  shows "all_looked_after i'" "g = Inr u \<Longrightarrow> held w i'"
proof -
  let ?m = "wb_meta (set_finalizers w l)"
  have m: "has_finalizer ?m" "om_name ?m = wb_name w" "om_namespace ?m = wb_namespace w"
    using assms(2) by (simp_all add: has_finalizer_def set_finalizers_def)
  have eff: "workbench_stored ?m i i' \<or> (\<exists>e. g = Inl e) \<and> i' = i"
    using assms(1) by (simp add: served_def attempted_def)
  then have "holders_kept i i'" using finalizer_stored(1) [OF _ m(1)] by auto
  then show "all_looked_after i'"
    by (rule served_looked_after [OF assms(3,1)]) (simp_all add: sent_job_def sent_deployment_def)
  show "held w i'" if "g = Inr u"
    using eff that finalizer_stored(2) [OF _ m(1)] m(2,3) by (auto simp: held_def)
qed

section \<open>The deletion\<close>

definition belongs_to :: "workbench \<Rightarrow> object_meta \<Rightarrow> bool" where
  "belongs_to w m \<longleftrightarrow> map_get (om_labels m) matchingLabel = Some (wb_name w)"

definition none_of :: "workbench \<Rightarrow> object_meta list \<Rightarrow> bool" where
  "none_of w ms \<longleftrightarrow> list_all (\<lambda>m. \<not> belongs_to w m) ms"

lemma own_belongs: "has_labels (own_labels w) m \<longleftrightarrow> belongs_to w m"
  by (simp add: has_labels_def belongs_to_def)

lemma none_of_kept:
  assumes "objects_from i i' J D"
  shows "none_of w (iv_jobs i) \<Longrightarrow> (\<And>m. J m \<Longrightarrow> \<not> belongs_to w m) \<Longrightarrow> none_of w (iv_jobs i')"
    "none_of w (iv_deployments i) \<Longrightarrow> (\<And>m. D m \<Longrightarrow> \<not> belongs_to w m) \<Longrightarrow> none_of w (iv_deployments i')"
  using assms by (fastforce simp: objects_from_def none_of_def list_all_iff same_place_def belongs_to_def)+

lemma none_of_others:
  assumes "others\<^sup>*\<^sup>* i i'"
  shows "none_of w (iv_jobs i) \<Longrightarrow> none_of w (iv_jobs i')"
    "none_of w (iv_deployments i) \<Longrightarrow> none_of w (iv_deployments i')"
  by (rule none_of_kept [OF others_star(2) [OF assms]], assumption, simp add: unlabelled_def belongs_to_def)+

lemma deletion_sends_none: "deletion_call w c \<Longrightarrow> \<not> sent_job c m \<and> \<not> sent_deployment c m"
  by (cases c) (simp_all add: deletion_call_def sent_job_def sent_deployment_def)

lemma none_of_served:
  assumes "served c i i'" "deletion_call w c"
  shows "none_of w (iv_jobs i) \<Longrightarrow> none_of w (iv_jobs i')"
    "none_of w (iv_deployments i) \<Longrightarrow> none_of w (iv_deployments i')"
  using none_of_kept [OF served_objects [OF assms(1)]] deletion_sends_none [OF assms(2)] by auto

lemma gone_answers:
  "jobs_gone c \<Longrightarrow> \<exists>ls. c = ListedJobs ls (Inr [])"
  "deployments_gone c \<Longrightarrow> \<exists>ls. c = ListedDeployments ls (Inr [])"
  by (cases c; simp add: jobs_gone_def deployments_gone_def split: sum.splits)+

lemma gone_none:
  assumes "served c i i'" "deletion_call w c"
  shows "jobs_gone c \<Longrightarrow> none_of w (iv_jobs i')" "deployments_gone c \<Longrightarrow> none_of w (iv_deployments i')"
  using assms gone_answers [of c]
  by (auto simp: served_def deletion_call_def none_of_def list_all_iff own_belongs filter_empty_conv empty_filter_conv)

text \<open>Taking the finalizer off a workbench concerns only objects with its label.\<close>

lemma other_holders:
  assumes "workbench_stored m i i'" "list_ex (holder n ns) (iv_workbenches i)" "n \<noteq> om_name m"
  shows "list_ex (holder n ns) (iv_workbenches i')"
proof -
  obtain x where x: "x \<in> set (iv_workbenches i)" "holder n ns x" using assms(2) by (auto simp: list_ex_iff)
  then have "\<not> at_key (key_of m) x" using assms(3) by (simp add: holder_def at_key_def key_of_def)
  then have "x \<in> set (iv_workbenches i')"
    using x(1) assms(1) by (auto simp: workbench_stored_def replaced_def)
  then show ?thesis using x(2) by (auto simp: list_ex_iff)
qed

lemma release_looked_after:
  assumes "workbench_stored (wb_meta (set_finalizers w fs)) i i'" "all_looked_after i"
    "none_of w (iv_jobs i)" "none_of w (iv_deployments i)"
  shows "all_looked_after i'"
proof -
  have same: "looked_after i' m" if "looked_after i m" "\<not> belongs_to w m" for m
    using that other_holders [OF assms(1), of _ "om_namespace m"]
    by (auto simp: looked_after_def belongs_to_def set_finalizers_def split: option.splits)
  have "iv_jobs i' = iv_jobs i" "iv_deployments i' = iv_deployments i"
    using assms(1) by (auto simp: workbench_stored_def)
  then show ?thesis
    using assms(2-4) same by (auto simp: all_looked_after_def none_of_def list_all_iff)
qed

lemma deletion_served:
  assumes c: "deletion_call w c" "served c i i'" and all: "all_looked_after i"
    and none: "finalizer_release c \<Longrightarrow> none_of w (iv_jobs i) \<and> none_of w (iv_deployments i)"
  shows "all_looked_after i'"
proof (cases "finalizer_release c")
  case True
  then obtain fs g where "c = UpdatedWorkbench (set_finalizers w fs) g"
    using c(1) by (cases c) (auto simp: deletion_kinds)
  then show ?thesis
    using release_looked_after all none [OF True] c(2) by (auto simp: served_def attempted_def)
next
  case False
  then have "holders_kept i i'" using served_holders [OF _ c(2)] by simp
  then show ?thesis using served_looked_after [OF all c(2)] deletion_sends_none [OF c(1)] by blast
qed

lemma deletion_replay:
  assumes laws: "api_laws p v"
  shows "replays p x cs y \<Longrightarrow> list_all (deletion_call w) cs \<Longrightarrow>
   none_of w (iv_jobs (v x)) \<or> preceded finalizer_release jobs_gone cs \<Longrightarrow>
   none_of w (iv_deployments (v x)) \<or> preceded finalizer_release deployments_gone cs \<Longrightarrow>
   all_looked_after (v x) \<Longrightarrow> all_looked_after (v y)"
proof (induction cs arbitrary: x)
  case (Cons c cs)
  obtain z where z: "platform_step p c x z" "replays p z cs y" using Cons.prems(1) by auto
  obtain a b where ab: "others\<^sup>*\<^sup>* (v x) a" "served c a b" "others\<^sup>*\<^sup>* b (v z)"
    using laws z(1) unfolding api_laws_def happens_def by blast
  have c: "deletion_call w c" using Cons.prems(2) by simp
  have before: "none_of w (iv_jobs (v x)) \<Longrightarrow> none_of w (iv_jobs a)"
      "none_of w (iv_deployments (v x)) \<Longrightarrow> none_of w (iv_deployments a)"
    using none_of_others [OF ab(1)] by blast+
  have "all_looked_after b"
    by (rule deletion_served [OF c ab(2) others_looked_after [OF ab(1) Cons.prems(5)]])
      (use Cons.prems(3,4) before in auto)
  then have "all_looked_after (v z)" by (rule others_looked_after [OF ab(3)])
  moreover have "none_of w (iv_jobs (v z)) \<or> preceded finalizer_release jobs_gone cs"
    using Cons.prems(3) none_of_others(1) [OF ab(3)] none_of_served(1) [OF ab(2) c before(1)]
      gone_none(1) [OF ab(2) c] by auto
  moreover have "none_of w (iv_deployments (v z)) \<or> preceded finalizer_release deployments_gone cs"
    using Cons.prems(4) none_of_others(2) [OF ab(3)] none_of_served(2) [OF ab(2) c before(2)]
      gone_none(2) [OF ab(2) c] by auto
  ultimately show ?case using Cons.IH [OF z(2)] Cons.prems(2) by auto
qed simp

section \<open>Every reachable world\<close>

lemma live_part:
  assumes laws: "api_laws p v" and w: "wb_meta w \<in> set (iv_workbenches i)" "all_looked_after i"
    "others\<^sup>*\<^sup>* i (v x)"
    and cs: "replays p x cs y" "cs @ rest = fs @ live" "finalizer_part w fs live" "live_calls w live"
  shows "all_looked_after (v y)"
proof (cases "fs = []")
  case True
  then have fin: "has_finalizer (wb_meta w)" and live: "list_all (live_call w) cs" "all_caused [] cs"
    using cs(2-4) by (auto simp: finalizer_part_def live_calls_def all_caused_append simp flip: cs(2))
  have "holder (wb_name w) (wb_namespace w) (wb_meta w)"
    using fin by (simp add: holder_def at_key_def)
  then have "live_state w [] i"
    using w(1,2) by (auto simp: live_state_def held_def list_ex_iff)
  then show ?thesis using live_replay [OF laws cs(1) live live_state_others [OF w(3)]] by blast
next
  case False
  then obtain l g where fs: "fs = [UpdatedWorkbench (set_finalizers w l) g]" "finalizer \<in> set l"
      "(\<exists>e. g = Inl e) \<longrightarrow> live = []"
    using cs(3) by (auto simp: finalizer_part_def)
  have x: "all_looked_after (v x)" using others_looked_after [OF w(3,2)] .
  show ?thesis
  proof (cases cs)
    case Nil
    then show ?thesis using cs(1) x by simp
  next
    case (Cons c cs')
    then have c: "c = UpdatedWorkbench (set_finalizers w l) g" and live: "live = cs' @ rest"
      using cs(2) fs(1) by simp_all
    obtain z where z: "platform_step p c x z" "replays p z cs' y" using cs(1) Cons by auto
    obtain a b where ab: "others\<^sup>*\<^sup>* (v x) a" "served c a b" "others\<^sup>*\<^sup>* b (v z)"
      using laws z(1) unfolding api_laws_def happens_def by blast
    note added = finalizer_added [OF ab(2) [unfolded c] fs(2) others_looked_after [OF ab(1) x]]
    show ?thesis
    proof (cases g)
      case (Inl e)
      then have "y = z" using fs(3) live z(2) by simp
      then show ?thesis using others_looked_after [OF ab(3) added(1)] by simp
    next
      case (Inr u)
      have "live_state w [] b" using added(1) added(2) [OF Inr] by (simp add: live_state_def)
      then show ?thesis
        using live_replay [OF laws z(2) _ _ live_state_others [OF ab(3)], of w "[]"] cs(4)
        by (simp add: live live_calls_def all_caused_append)
    qed
  qed
qed

lemma pass_looked_after:
  assumes laws: "api_laws p v" and cs: "pass_shape (cs @ rest)" "replays p x cs y" and all: "all_looked_after (v x)"
  shows "all_looked_after (v y)"
proof (cases cs)
  case Nil
  then show ?thesis using cs(2) all by simp
next
  case (Cons c cs')
  obtain k g where c: "c = GotWorkbench k g"
      and g: "case g of Inl _ \<Rightarrow> cs' @ rest = []
        | Inr w \<Rightarrow> if being_deleted w then list_all (deletion_call w) (cs' @ rest) \<and> deletion_order (cs' @ rest)
          else \<exists>fs live. cs' @ rest = fs @ live \<and> finalizer_part w fs live \<and> live_calls w live"
    using cs(1) Cons by (auto simp: pass_shape_def)
  obtain z where z: "platform_step p c x z" "replays p z cs' y" using cs(2) Cons by auto
  obtain a b where ab: "others\<^sup>*\<^sup>* (v x) a" "served c a b" "others\<^sup>*\<^sup>* b (v z)"
    using laws z(1) unfolding api_laws_def happens_def by blast
  have b: "b = a" "\<And>w. g = Inr w \<Longrightarrow> wb_meta w \<in> set (iv_workbenches a)"
    using ab(2) by (simp_all add: c served_def)
  have there: "all_looked_after a" "all_looked_after (v z)"
    using others_looked_after [OF ab(1) all] others_looked_after [OF ab(3)] b(1) by simp_all
  show ?thesis
  proof (cases g)
    case (Inl e)
    then show ?thesis using g z(2) there by simp
  next
    case (Inr w)
    show ?thesis
    proof (cases "being_deleted w")
      case True
      then show ?thesis
        using g Inr deletion_replay [OF laws z(2), of w] there(2) by (simp add: deletion_order_def)
    next
      case False
      then obtain fs live where "cs' @ rest = fs @ live" "finalizer_part w fs live" "live_calls w live"
        using g Inr by auto
      then show ?thesis
        using live_part [OF laws b(2) [OF Inr] there(1) _ z(2)] ab(3) b(1) by blast
    qed
  qed
qed

lemma reachable_looked_after:
  assumes laws: "finalizer_laws p" "controller_laws p" "status_laws p" "update_laws p" "api_laws p v"
  shows "reachable p v x \<Longrightarrow> all_looked_after (v x)"
proof (induction rule: reachable.induct)
  case (initially x)
  then show ?case by (auto simp: all_looked_after_def list_all_iff unlabelled_looked_after)
next
  case (by_others x y)
  then show ?case using others_looked_after by blast
next
  case (by_pass x r k cs rest y)
  have "pass_shape (calls_of (Reconcile r k) x)"
    by (rule emits_start [OF Reconcile_shape]) (use laws by_pass in simp_all)
  then show ?case using pass_looked_after [OF laws(5) _ by_pass.hyps(4)] by_pass by simp
qed

section \<open>Property\<close>

text \<open>C39: On every platform whose API server keeps its contract, whatever users and the controllers of
  Kubernetes do before, between and during the passes of \<open>Reconcile\<close> for any workbenches, whichever calls
  fail (with or without effect) and wherever a pass is broken off: every deployment and every job that
  carries the label of a workbench has a workbench of that name in its own namespace, which still holds the
  finalizer by which the operator cleans up. No object is left that nobody will remove. (Others
  do not take the finalizer away and do not put the label on objects; passes do not overlap.)\<close>

theorem no_orphans:
  assumes "finalizer_laws p" "controller_laws p" "status_laws p" "update_laws p" "api_laws p v"
    and "reachable p v x"
  shows "list_all (looked_after (v x)) (iv_jobs (v x) @ iv_deployments (v x))"
  using reachable_looked_after [OF assms] by (simp add: all_looked_after_def)

section \<open>The cluster in memory\<close>

definition memory_inventory :: "cluster \<Rightarrow> inventory" where
  "memory_inventory x = \<lparr>iv_workbenches = map wb_meta (cl_workbenches x), iv_jobs = map job_meta (cl_jobs x),
     iv_deployments = map dep_meta (cl_deployments x)\<rparr>"

lemma inserted_metas:
  "insert_object meta a xs = (e, ys) \<Longrightarrow>
   (e = Inr () \<and> map meta ys = map meta xs @ [meta a]) \<or> (e = Inl AlreadyExists \<and> ys = xs)"
  by (auto simp: insert_object_def split: if_splits)

lemma replaced_metas:
  "replace_object meta a xs = (e, ys) \<Longrightarrow>
   (e = Inr () \<and> map meta ys = replaced (meta a) (map meta xs)) \<or> (e = Inl NotFound \<and> ys = xs)"
  by (auto simp: replace_object_def replaced_def split: if_splits)

lemma removed_metas:
  "\<exists>P. map meta (snd (remove_object meta a xs)) = filter P (map meta xs)"
  "map meta (filter (\<lambda>y. Q (meta y)) xs) = filter Q (map meta xs)"
  by (auto simp: remove_object_def filter_map o_def intro: exI [of _ "\<lambda>m. \<not> at_key (key_of (meta a)) m"]
      exI [of _ "\<lambda>m. True"])

lemma lookup_object_in: "lookup_object meta k xs = Inr a \<Longrightarrow> a \<in> set xs \<and> at_key k (meta a)"
  by (auto simp: lookup_object_def find_Some_iff split: option.splits)

lemma memory_workbench_step:
  assumes "store_workbench w x = (g, y)"
  shows "attempted g (workbench_stored (wb_meta w) (memory_inventory x) (memory_inventory y))
    (memory_inventory y = memory_inventory x)"
proof (cases "list_ex (\<lambda>u. at_key (key_of (wb_meta w)) (wb_meta u)) (cl_workbenches x)")
  case False
  then show ?thesis using assms by (auto simp: store_workbench_def attempted_def)
next
  case there: True
  show ?thesis
  proof (cases "om_deletion (wb_meta w) \<noteq> None \<and> om_finalizers (wb_meta w) = []")
    case True
    then have "y = x\<lparr>cl_workbenches := filter (\<lambda>u. \<not> at_key (key_of (wb_meta w)) (wb_meta u)) (cl_workbenches x)\<rparr>"
      using assms there by (auto simp: store_workbench_def remove_object_def)
    then show ?thesis
      using True there by (simp add: attempted_def workbench_stored_def memory_inventory_def filter_map o_def list_ex_iff)
  next
    case False
    then have "cl_workbenches y = snd (replace_object wb_meta w (cl_workbenches x))"
        "cl_jobs y = cl_jobs x" "cl_deployments y = cl_deployments x"
      using assms there by (auto simp: store_workbench_def)
    then have "memory_inventory y =
        memory_inventory x\<lparr>iv_workbenches := replaced (wb_meta w) (iv_workbenches (memory_inventory x))\<rparr>"
      using there by (simp add: memory_inventory_def replace_object_def replaced_def)
    then show ?thesis
      using there by (auto simp: attempted_def workbench_stored_def memory_inventory_def list_ex_iff)
  qed
qed

lemma memory_updates:
  "replace_object dep_meta d (cl_deployments x) = (g, ds) \<Longrightarrow> attempted g
     (\<exists>m. same_place (dep_meta d) m \<and> memory_inventory (x\<lparr>cl_deployments := ds\<rparr>) =
        memory_inventory x\<lparr>iv_deployments := replaced m (iv_deployments (memory_inventory x))\<rparr>)
     (memory_inventory (x\<lparr>cl_deployments := ds\<rparr>) = memory_inventory x)"
  "replace_object job_meta j (cl_jobs x) = (g, js) \<Longrightarrow> attempted g
     (\<exists>m. same_place (job_meta j) m \<and> memory_inventory (x\<lparr>cl_jobs := js\<rparr>) =
        memory_inventory x\<lparr>iv_jobs := replaced m (iv_jobs (memory_inventory x))\<rparr>)
     (memory_inventory (x\<lparr>cl_jobs := js\<rparr>) = memory_inventory x)"
  unfolding attempted_def
  by (drule replaced_metas, erule disjE,
      rule disjI1, rule exI [of _ "dep_meta d"], simp add: memory_inventory_def, simp)
    (drule replaced_metas, erule disjE,
      rule disjI1, rule exI [of _ "job_meta j"], simp add: memory_inventory_def, simp)

lemma memory_step:
  assumes "platform_step memory_platform c x y"
  shows "served c (memory_inventory x) (memory_inventory y)"
proof (cases c)
  case (GotWorkbench k g)
  then show ?thesis using assms
    by (auto simp: served_def memory_platform_def memory_inventory_def dest!: lookup_object_in)
next
  case (GotDeployment k g)
  then show ?thesis using assms
    by (auto simp: served_def memory_platform_def memory_inventory_def dest!: lookup_object_in)
next
  case (GotJob k g)
  then show ?thesis using assms
    by (auto simp: served_def memory_platform_def memory_inventory_def dest!: lookup_object_in)
next
  case (CreatedDeployment d g)
  then show ?thesis using assms
    by (auto simp: served_def memory_platform_def memory_inventory_def store_deployment_def attempted_def
        dest!: inserted_metas split: prod.splits sum.splits)
next
  case (CreatedJob j g)
  then show ?thesis using assms
    by (auto simp: served_def memory_platform_def memory_inventory_def attempted_def
        dest!: inserted_metas split: prod.splits)
next
  case (UpdatedWorkbench w g)
  then show ?thesis using assms memory_workbench_step [of w x g y]
    by (simp add: served_def memory_platform_def)
next
  case (UpdatedStatus w g)
  then show ?thesis using assms
    by (auto simp: served_def memory_platform_def memory_inventory_def store_status_def o_def split: if_splits)
next
  case (UpdatedDeployment d g)
  then show ?thesis using assms memory_updates(1) [of d x g]
    by (auto simp: served_def memory_platform_def split: prod.splits)
next
  case (UpdatedJob j g)
  then show ?thesis using assms memory_updates(2) [of j x g]
    by (auto simp: served_def memory_platform_def split: prod.splits)
next
  case (DeletedJob j g)
  then show ?thesis using assms removed_metas(1) [of job_meta j "cl_jobs x"]
    by (auto simp: served_def memory_platform_def memory_inventory_def split: prod.splits)
next
  case (DeletedAllJobs ns ls g)
  then show ?thesis using assms removed_metas(2) [of job_meta "\<lambda>m. \<not> matches_all ns ls m" "cl_jobs x"]
    by (auto simp: served_def memory_platform_def memory_inventory_def)
next
  case (DeletedAllDeployments ns ls g)
  then show ?thesis using assms removed_metas(2) [of dep_meta "\<lambda>m. \<not> matches_all ns ls m" "cl_deployments x"]
    by (auto simp: served_def memory_platform_def memory_inventory_def)
qed (use assms in \<open>auto simp: served_def memory_platform_def memory_inventory_def filter_map o_def split: prod.splits\<close>)

lemma memory_api_laws: "api_laws memory_platform memory_inventory"
  using memory_step unfolding api_laws_def happens_def by blast

lemma memory_controller_laws: "controller_laws memory_platform"
  unfolding controller_laws_def
  by (rule conjI, rule memory_owner_laws) (auto simp: owned_by_def memory_platform_def owner_of_def SetupWithManager_def)

text \<open>One run on the example cluster, evaluated once for all the witnesses that look at it.\<close>

abbreviation sample_run :: "outcome \<times> cluster sys" where
  "sample_run \<equiv> run_state (Reconcile sample_reconciler sample_key) (start (sample_cluster [live_workbench]))"

lemma sample_run_evaluated:
  "case sample_run of (out, s) \<Rightarrow>
     out = Finished 0 \<and> hd (sys_trace s) = GotWorkbench sample_key (Inr live_workbench) \<and> list_ex is_create (sys_trace s) \<and>
     map (om_name \<circ> job_meta) (cl_jobs (sys_world s)) = [''wb-1-kitty''] \<and>
     map (om_name \<circ> dep_meta) (cl_deployments (sys_world s)) = [''wb-server'']"
  by code_simp

lemma sample_run_facts:
  "fst sample_run = Finished 0"
  "hd (sys_trace (snd sample_run)) = GotWorkbench sample_key (Inr live_workbench)"
  "list_ex is_create (sys_trace (snd sample_run))"
  "map (om_name \<circ> job_meta) (cl_jobs (sys_world (snd sample_run))) = [''wb-1-kitty'']"
  "map (om_name \<circ> dep_meta) (cl_deployments (sys_world (snd sample_run))) = [''wb-server'']"
  using sample_run_evaluated unfolding case_prod_beta by blast+

definition running_cluster :: cluster where
  "running_cluster = sys_world (snd sample_run)"

lemma running_reachable: "reachable memory_platform memory_inventory running_cluster"
proof (rule by_pass)
  show "reachable memory_platform memory_inventory (sample_cluster [live_workbench])"
    by (rule initially) (simp add: memory_inventory_def sample_cluster_def empty_cluster_def)
  show "calls_of (Reconcile sample_reconciler sample_key) (sample_cluster [live_workbench]) =
      calls_of (Reconcile sample_reconciler sample_key) (sample_cluster [live_workbench]) @ []" by simp
  show "replays memory_platform (sample_cluster [live_workbench])
      (calls_of (Reconcile sample_reconciler sample_key) (sample_cluster [live_workbench])) running_cluster"
    using Reconcile_replays [of sample_reconciler] by (simp add: running_cluster_def)
qed simp

theorem no_orphans_witness:
  "map om_name (iv_jobs (memory_inventory running_cluster)) = [''wb-1-kitty''] \<and>
   map om_name (iv_deployments (memory_inventory running_cluster)) = [''wb-server''] \<and>
   list_all (looked_after (memory_inventory running_cluster))
     (iv_jobs (memory_inventory running_cluster) @ iv_deployments (memory_inventory running_cluster))"
  by (intro conjI no_orphans [OF memory_finalizer_laws memory_controller_laws memory_status_laws memory_update_laws
        memory_api_laws running_reachable])
    (use sample_run_facts(4,5) in \<open>simp_all add: memory_inventory_def running_cluster_def o_def\<close>)

end
