(* ===== verification/Spec2Isabelle.thy ===== *)
theory Spec2Isabelle
  imports Manager_Main Deep_Copy Reconciler_Bounds Reconciler_Steady Reconciler_Sweep Cluster_Steps
begin

text \<open>
  A verification of the workbench operator, a Kubernetes controller written in Go. A
  \<^emph>\<open>workbench\<close> is a custom resource that describes a remote desktop: one Xpra server and any number of
  applications shown on it. The operator keeps a deployment and a service for the server, persistent
  volumes and claims for the storage, and one job per application in line with that
  description, and writes what it observes into the resource's status.

  \<^bold>\<open>Parts of the program and their theories.\<close>

  \<^item> \<open>Go_Strings\<close>, \<open>Go_Numbers\<close>, \<open>Go_Slices\<close>: the functions of Go's standard library the operator
    calls (\<open>strings\<close>, \<open>strconv\<close>, \<open>slices\<close>), with their characteristic facts; \<open>Prelude\<close>: association
    lists for Go maps, and Hoare triples for the state monad.
  \<^item> \<open>K8s_Types\<close>: the Kubernetes objects, restricted to the fields the operator touches.
    \<open>Workbench_Types\<close>: the resource (\<open>api/v1alpha1/workbench_types.go\<close>) and the configuration
    (\<open>internal/controller/config.go\<close>).
  \<^item> \<open>Go_Memory\<close>: a store of cells with addresses, allocation and a nil pointer, and deep copying as a
    locale whose combinators build copies of pointers, slices, maps and structs. \<open>Deep_Copy\<close>: the generated
    \<open>api/v1alpha1/zz_generated.deepcopy.go\<close> on that store; the structs of the Kubernetes libraries and
    their deep copies are its parameter \<open>library\<close>. It is the only part in which two pointers may
    share an object; everywhere else a Go struct is a value.
  \<^item> \<open>Status_Updates\<close>: the methods of \<open>api/v1alpha1/workbench.go\<close> that copy observations into the status.
  \<^item> \<open>K8s_Client\<close>: the outside world, that is the API server, the event recorder, the container
    runtime and the helpers of controller-runtime. It is the record \<open>platform\<close>, an argument of every
    definition that uses it, of which nothing is assumed; a run pairs its state with the trace of the calls made.
    The calculus \<open>emits\<close> proves facts about the trace and the result for every platform. The
    hypotheses some properties need are the predicates \<open>finalizer_laws\<close>, \<open>owner_laws\<close>,
    \<open>controller_laws\<close>, \<open>update_laws\<close>, \<open>status_laws\<close> and \<open>deletion_laws\<close>, which state documented behaviour.
  \<^item> \<open>Platform_Steps\<close>: runs as steps of the platform. Every program of the operator replays its own trace: the
    calls it recorded, served one after the other, lead from the world it started in to the one it left.
    With a law about single steps, a fact about calls becomes one about worlds.
  \<^item> \<open>Convergence\<close>: the contract of a comparison between a model and a found object.
    \<open>Server_Deployment\<close> (\<open>deployment.go\<close>), \<open>Xpra_Service\<close> (\<open>service.go\<close>), \<open>Pod_Health\<close> (the health
    functions of \<open>workbench_controller.go\<close>), \<open>App_Job\<close> (\<open>job.go\<close>) with \<open>App_Job_Safety\<close>.
  \<^item> \<open>Storage_Providers\<close> (\<open>storage.go\<close>, \<open>storage_s3.go\<close>, \<open>storage_nfs.go\<close>, \<open>storage_local.go\<close>),
    \<open>Storage_Contract\<close> (the Go interface \<open>StorageProvider\<close> as a locale, interpreted for each provider
    and for the dispatching interface) and \<open>Storage_Manager\<close>. \<open>Storage_Passes\<close>: the calls the
    manager makes for each provider, exactly.
  \<^item> \<open>Reconciler\<close>: \<open>Reconcile\<close> of \<open>workbench_controller.go\<close>, cut at the comments of its source, and
    the watches of \<open>SetupWithManager\<close>.
    \<open>Reconciler_Order\<close>: what one call does, in which order and how it ends.
    \<open>Reconciler_Jobs\<close>: what it achieves for the applications. \<open>Reconciler_Deletion\<close>: deletion over
    several calls. \<open>Reconciler_Writes\<close>: the cause of every write. \<open>Reconciler_Ownership\<close>: to whom the
    created objects belong. \<open>Reconciler_Status\<close>: the type of the written status.
    \<open>Reconciler_Bounds\<close>: the number of calls. \<open>Reconciler_Steady\<close>: the state in which the control loop
    rests, on any platform whose objects stay as they are while time passes (the locale \<open>calm_platform\<close>).
    \<open>Reconciler_Replay\<close>: \<open>Reconcile\<close> replays its trace. \<open>Reconciler_Sweep\<close>: what a whole pass does to
    the jobs with the label of its workbench.
  \<^item> \<open>Manager_Main\<close>: \<open>cmd/main.go\<close> with the syntax of Go's \<open>flag\<close> package.
  \<^item> \<open>Sample_Objects\<close> and \<open>Reference_Cluster\<close>: concrete objects and an API server in memory, which
    meets all the laws; they serve the witnesses and the runs at the end of this theory.
  \<^item> \<open>Cluster_Steps\<close>: the cluster as a state machine, for any platform whose API server keeps the contract
    \<open>api_laws\<close>. Its steps are passes of \<open>Reconcile\<close> for any key, whole or broken off after any call, and what
    users and the controllers of Kubernetes do, who may also act before and after each call of a pass;
    \<open>reachable\<close> collects its worlds. A call that fails may or may not have taken effect.

  \<^bold>\<open>How state and operations correspond to the code.\<close> The cluster is the state of the platform; the
  operator has none of its own between calls. The workbench that \<open>Reconcile\<close> mutates through a pointer
  is passed on as a value, and replaced by the server's answer where an update writes into the
  pointer. An early return is \<open>Inl\<close> of the result, an error a constructor of \<open>go_error\<close>, a run-time
  panic a constructor of \<open>panic\<close>. The order in which \<open>range\<close> visits the applications is that of an
  association list, over which every theorem quantifies. The loop visits the applications of the workbench as
  it was when the loop began. Loops over lists are structural recursions and the
  binary search and the command line have a measure, so every function is total and no fuel is needed; the only bound on a number of
  calls is that of the deletion, three, one for the jobs, one for the deployments and one for
  the finalizer.

  \<^bold>\<open>What is shown.\<close> Of one call of \<open>Reconcile\<close>: the readiness of the server comes before any application
  (C1), the finalizer before any creation (C6), the order of a deletion (C3), the possible results (C7),
  and what a call that ends normally has achieved (C2, C8, C9, C27, C34). Of several calls: deletion
  completes (C4), or never does when another namespace holds a job with the same label (C5); a steady
  workbench causes no more writes (C30). Of the storage: which calls it makes and under which conditions (C10, C11, C21). Of the objects built:
  admissibility, confinement, privileges, names, environment, wiring (C12 to C15, C28, C29, C31). Of the comparisons: convergence,
  panics, and the suspension of jobs (C16 to C19). Of the observations: C20 and C22 to C26. Of the start: C32
  and C33. Of the deep copies: a copy has the value of its original and shares no cell with it (C35).
  Of one call again: the number of its calls (C36), the type of the status it writes (C37), the cause of
  each write (C38), and the owner of each object it creates (C40). Of passes, their failures and what others do, in any
  order: no object is left behind (C39). The last section records runs that exhibit defects.

  \<^bold>\<open>Not modelled.\<close> Logging; the registration of the types with a scheme
  (\<open>api/v1alpha1/groupversion_info.go\<close>), which has no effect on what is modelled; how controller-runtime
  turns the watches into calls of \<open>Reconcile\<close>; the
  commented-out code after the return of the S3 set-up; tests and Helm charts. Passes of \<open>Reconcile\<close> do not overlap, as the
  manager runs one worker and controller-runtime never runs two for one workbench; what others do during a pass is part of the
  step in which the platform serves a call. Where a property needs reads to be current (C4, C5, C34, C39) its
  laws say so; the properties of single runs hold whatever is answered, also from a cache that lags behind.
\<close>

section \<open>One run of the reconciler\<close>


text \<open>C2: When \<open>Reconcile\<close> finishes without asking to come back on a workbench that is not being
  deleted, it has dealt with every application (its job was created, or kept with the right
  suspension; or it waits suspended; or its image failed), and has deleted of the jobs with the
  workbench's label exactly those that no application keeps.\<close>

theorem live_pass_settles:
  assumes "owner_laws (rc_platform r)" "status_laws (rc_platform r)" "update_laws (rc_platform r)"
    and read: "hd (calls_of (Reconcile r k) x) = GotWorkbench k (Inr w)" and "\<not> being_deleted w"
    and "result_of (Reconcile r k) x = Finished 0"
  shows "\<exists>before after. calls_of (Reconcile r k) x = GotWorkbench k (Inr w) # before @ after \<and>
    settled_pass (rc_config r) w after"
proof -
  obtain g tl where run: "calls_of (Reconcile r k) x = GotWorkbench k g # tl"
    and settled: "g = Inr w \<Longrightarrow> \<exists>before after. tl = before @ after \<and> settled_pass (rc_config r) w after"
    using emits_start [OF Reconcile_settles [OF assms(1-3)], of k x] assms(5,6) by blast
  have "g = Inr w" using run read by simp
  then show ?thesis using settled run by auto
qed

theorem live_pass_settles_witness:
  "\<exists>before after. calls_of (Reconcile sample_reconciler sample_key) (sample_cluster [live_workbench]) =
     GotWorkbench sample_key (Inr live_workbench) # before @ after \<and>
     settled_pass sample_config live_workbench after"
  using live_pass_settles [of sample_reconciler sample_key "sample_cluster [live_workbench]" live_workbench]
  by (simp add: sample_run_facts memory_owner_laws memory_status_laws memory_update_laws)

text \<open>C3: A deletion creates nothing, deletes only by the workbench's own label and in its own
  namespace, looks at the deployments only once the jobs are gone, and updates the workbench
  (to release the finalizer) only once jobs and deployments are gone.\<close>

theorem deletion_respects_order:
  "list_all (deletion_call w) (calls_of (reconcile_deletion r w) x) \<and>
   deletion_order (calls_of (reconcile_deletion r w) x)"
  using emits_start [OF reconcile_deletion_emits [of r w False], of x] by blast

text \<open>C4: On an API server that behaves as documented, three calls of \<open>Reconcile\<close> complete the
  deletion of a workbench whose label is used in its own namespace only: the workbench, its
  jobs and its deployments are gone.\<close>

theorem deletion_completes:
  assumes "deletion_case r v w" "vw_workbench v x (key_of (wb_meta w)) = Inr w" "only_own_namespace v w x"
  defines "y \<equiv> sys_world (snd (run_state (passes 3 r (key_of (wb_meta w))) (start x)))"
  shows "vw_workbench v y (key_of (wb_meta w)) = Inl NotFound \<and> own_jobs v w y = [] \<and> own_deployments v w y = []"
proof -
  have "deleting_state v w (start x) \<and> steps_left v w (sys_world (start x)) \<le> 3"
    using assms(2,3) by (simp add: deleting_state_def deletion_pending_def steps_left_def)
  then have "deleting_state v w (snd (run_state (passes 3 r (key_of (wb_meta w))) (start x))) \<and>
      steps_left v w y \<le> 3 - 3"
    unfolding y_def by (rule triple_run [OF deletion_passes [OF assms(1)]])
  then show ?thesis using steps_left_zero [of v w "snd (run_state (passes 3 r (key_of (wb_meta w))) (start x))"]
    unfolding y_def by simp
qed

theorem deletion_completes_witness:
  "vw_workbench memory_view
     (sys_world (snd (run_state (passes 3 sample_reconciler sample_key)
        (start (dying_cluster [sample_job ''wb-1-kitty'' ''ns1'']))))) sample_key = Inl NotFound"
proof -
  let ?x = "dying_cluster [sample_job ''wb-1-kitty'' ''ns1'']"
  have "deletion_case sample_reconciler memory_view dying_workbench"
    by (simp add: deletion_case_def memory_deletion_laws memory_finalizer_laws)
  moreover have "vw_workbench memory_view ?x (key_of (wb_meta dying_workbench)) = Inr dying_workbench"
    by (simp add: memory_view_def sample_lookup)
  moreover have "only_own_namespace memory_view dying_workbench ?x" by code_simp
  ultimately show ?thesis using deletion_completes [of sample_reconciler memory_view dying_workbench ?x] by simp
qed

text \<open>C5: A job that carries the workbench's label in another namespace blocks the deletion for
  ever: it is listed, as \<open>findJobs\<close> does not restrict the namespace, but never deleted, as
  \<open>DeleteAllOf\<close> does. However often \<open>Reconcile\<close> is called, it asks to come back in five seconds
  and the workbench keeps its finalizer.\<close>

theorem foreign_job_blocks_deletion:
  assumes "deletion_case r v w" "vw_workbench v x (key_of (wb_meta w)) = Inr w"
    "list_ex (foreign_job w) (vw_jobs v x)"
  shows "result_of (passes n r (key_of (wb_meta w))) x = replicate n (Finished (5 * second)) \<and>
    vw_workbench v (sys_world (snd (run_state (passes n r (key_of (wb_meta w))) (start x)))) (key_of (wb_meta w)) = Inr w"
proof -
  have "deletion_pending v w (start x) \<and> list_ex (foreign_job w) (vw_jobs v (sys_world (start x)))"
    using assms(2,3) by (simp add: deletion_pending_def)
  then have "result_of (passes n r (key_of (wb_meta w))) x = replicate n (Finished (5 * second)) \<and>
      deletion_pending v w (snd (run_state (passes n r (key_of (wb_meta w))) (start x))) \<and>
      list_ex (foreign_job w) (vw_jobs v (sys_world (snd (run_state (passes n r (key_of (wb_meta w))) (start x)))))"
    by (rule triple_run [OF foreign_job_forever [OF assms(1)]])
  then show ?thesis by (simp add: deletion_pending_def)
qed

theorem foreign_job_blocks_deletion_witness:
  "result_of (passes 100 sample_reconciler sample_key) (dying_cluster [sample_job ''wb-1-kitty'' ''ns2'']) =
     replicate 100 (Finished (5 * second))"
proof -
  let ?x = "dying_cluster [sample_job ''wb-1-kitty'' ''ns2'']"
  have "deletion_case sample_reconciler memory_view dying_workbench"
    by (simp add: deletion_case_def memory_deletion_laws memory_finalizer_laws)
  moreover have "vw_workbench memory_view ?x (key_of (wb_meta dying_workbench)) = Inr dying_workbench"
    by (simp add: memory_view_def sample_lookup)
  moreover have "list_ex (foreign_job dying_workbench) (vw_jobs memory_view ?x)" by code_simp
  ultimately show ?thesis
    using foreign_job_blocks_deletion [of sample_reconciler memory_view dying_workbench ?x 100] by simp
qed

text \<open>C6: With controller-runtime's finalizer helpers, nothing is created for a workbench before its
  finalizer is known to be set: it was there when the workbench was read, or the update that adds it
  succeeded.\<close>

theorem finalizer_before_create:
  assumes "finalizer_laws (rc_platform r)"
  shows "preceded is_create finalizer_evidence (calls_of (Reconcile r k) x)"
  using emits_start [OF Reconcile_finalizer_first [OF assms], of k x] .

theorem finalizer_before_create_witness:
  "preceded is_create finalizer_evidence (calls_of (Reconcile sample_reconciler sample_key) (sample_cluster [live_workbench]))"
  using finalizer_before_create [of sample_reconciler] by (simp add: memory_finalizer_laws)

text \<open>C7: How a run of \<open>Reconcile\<close> can end: without an error it asks to come back never, after two or
  after five seconds; its errors are those of the API, of ownership, and of a renamed job, never one
  of the storage, of an image or of a suspended job; it panics only when there is no event recorder
  or when the API server returned a deployment without selector, containers or init containers.\<close>

theorem outcomes_are_sound:
  "sound_outcome r (list_ex malformed_answer (calls_of (Reconcile r k) x)) (result_of (Reconcile r k) x)"
  using emits_start [OF Reconcile_emits, of r k x] by blast

text \<open>C8: The removal of extra jobs lists the jobs with the workbench's label and deletes, in the
  order of the list, exactly those whose name is not among the names kept; it stops at the first
  deletion that fails, and returns its error.\<close>

theorem sweep_removes_exactly_extra_jobs:
  "\<exists>l tl. calls_of (sweep_jobs r w names) x = ListedJobs (own_labels w) l # tl \<and>
     (case l of
        Inl e \<Rightarrow> result_of (sweep_jobs r w names) x = Failed (ApiFailure e) \<and> tl = []
      | Inr items \<Rightarrow> sweep_result (extra_jobs names items) (result_of (sweep_jobs r w names) x) tl)"
  by (rule emits_start [OF sweep_jobs_emits])

text \<open>C9: Every run of \<open>initJob\<close>, call by call. It first asks each enabled storage, in their order, for its secret
  (one read for object storage and network storage, none for local storage); then, with the container
  tool found on the path, \<open>docker\<close> before \<open>podman\<close>, it runs the image once to read its user ids, or not at
  all without a tool. If that run reports ids in the reserved range, the result is the error that lists them; else, if
  the application names no image, the error that says so; else the job built with the volumes and mounts
  of exactly the storages whose secret was found complete, in their order.\<close>

theorem initJob_on_every_branch:
  "\<exists>css y ins.
     calls_of (initJob r cfg w uid app svc sm) x = concat css @ ins \<and>
     replays (rc_platform r) x (concat css) y \<and>
     secrets_looked_up r (GetEnabledProviders sm w) css \<and>
     image_inspected (rc_platform r) y (fst (app_image_ref cfg app)) ins \<and>
     result_of (initJob r cfg w uid app svc sm) x =
       initJob_value cfg w uid app svc (serving r (GetEnabledProviders sm w) css) (reported ins)"
  by (rule does_start [OF initJob_does])

text \<open>C10: \<open>ProcessEnabledStorage\<close> never fails and handles every enabled provider in turn, whatever happened to
  the ones before it, in one of six ways. It looks for the driver, and warns and stops when there is none; then for
  the secret, and warns and stops; then it describes the volume, looks it up and, only when it is missing,
  prepares the directories and then creates it, unless that failed; then it looks up the claim and creates it when
  it is missing. A failure at any point ends the handling of this provider and of no other. What it writes has the
  provider's names and the workbench's namespace, and it returns the claims of exactly the providers
  that came to the end, by storage type.\<close>

theorem storage_writes_in_order:
  "\<exists>runs. calls_of (ProcessEnabledStorage r sm w) x = concat (map snd runs) \<and>
     storage_passes r w (GetEnabledProviders sm w) runs \<and>
     result_of (ProcessEnabledStorage r sm w) x =
       Inr (record_claims (zip (GetEnabledProviders sm w) (map fst runs)) Map.empty)"
  by (rule emits_start [OF ProcessEnabledStorage_passes])

text \<open>C11: Nothing is written for a provider unless its CSI driver and its secret were found first;
  for local storage, unless the operator enables it.\<close>

theorem storage_needs_driver_and_secret:
  "backend_checked r p (calls_of (processStorageProvider r w p) x)"
  by (rule emits_start [OF processStorageProvider_checked])

text \<open>A run of \<open>initJob\<close> for the witnesses: it builds a job.\<close>

definition built_job :: job where
  "built_job = projr (result_of (initJob sample_reconciler sample_config live_workbench ''1''
     (sample_app ''kitty'' AppRunning) (initService live_workbench) (NewStorageManager sample_config))
     (sample_cluster [live_workbench]))"

lemma built_job_built:
  "result_of (initJob sample_reconciler sample_config live_workbench ''1''
     (sample_app ''kitty'' AppRunning) (initService live_workbench) (NewStorageManager sample_config))
     (sample_cluster [live_workbench]) = Inr built_job"
proof -
  have "\<not> isl (result_of (initJob sample_reconciler sample_config live_workbench ''1''
     (sample_app ''kitty'' AppRunning) (initService live_workbench) (NewStorageManager sample_config))
     (sample_cluster [live_workbench]))"
    by code_simp
  then show ?thesis unfolding built_job_def by simp
qed

text \<open>C12: The API server admits the pod of a job \<open>initJob\<close> returns: volume names are unique, every
  mount names a volume of the pod, and the mount paths of a container are unique; provided object
  storage and local storage are not both enabled.\<close>

theorem app_pod_admissible:
  assumes "result_of (initJob r cfg w uid app svc (NewStorageManager cfg)) x = Inr j" "\<not> two_app_data cfg w"
  shows "pod_spec_ok (job_spec j)"
proof (rule initJob_built [OF assms(1)])
  fix qs
  assume "subseq qs (GetEnabledProviders (NewStorageManager cfg) w)"
    "j = build_job cfg w uid app svc (volumes_of w qs) (mounts_of (wb_user w) (wb_namespace w) qs)"
  then show "pod_spec_ok (job_spec j)"
    using build_job_pod_ok doubly_served_enabled assms(2) by blast
qed

theorem app_pod_admissible_witness: "pod_spec_ok (job_spec built_job)"
  by (rule app_pod_admissible [OF built_job_built])
     (simp add: two_app_data_def storage_of_def live_workbench_def sample_workbench_def)

text \<open>C13: Object storage and local storage together break the pod. When a run of \<open>initJob\<close> returns a job, the API
  server admits its pod if and only if not both of them are enabled with the secret of the object storage found
  complete (which is the first call of the run); if so, every container of the pod mounts two
  volumes at \<open>/mnt/app_data\<close>.\<close>

theorem two_storages_break_pod:
  assumes "result_of (initJob r (rc_config r) w uid app svc (NewStorageManager (rc_config r))) x = Inr j"
  defines "both \<equiv> two_app_data (rc_config r) w \<and>
    juicefs_secret_found (hd (calls_of (initJob r (rc_config r) w uid app svc (NewStorageManager (rc_config r))) x))"
  shows "(pod_spec_ok (job_spec j) \<longleftrightarrow> \<not> both) \<and>
    (both \<longrightarrow> list_all (\<lambda>c. app_data_mounts c = 2) (sp_init_containers (job_spec j) @ sp_containers (job_spec j)))"
  unfolding both_def using initJob_admissible [OF assms(1)] by blast

text \<open>A run with both of them.\<close>

definition double_workbench :: workbench where
  "double_workbench = live_workbench\<lparr>wb_spec := (wb_spec live_workbench)
     \<lparr>ws_storage := Some \<lparr>st_s3 = True, st_nfs = False, st_local = True\<rparr>\<rparr>\<rparr>"

definition double_cluster :: cluster where
  "double_cluster = (sample_cluster [double_workbench])
     \<lparr>cl_secrets := [\<lparr>sec_meta = new_meta ''juicefs-secret'' ''kube-system'' [], sec_data = [(''name'', ''fs'')]\<rparr>]\<rparr>"

abbreviation double_run :: "(cluster, go_error + job) prog" where
  "double_run \<equiv> initJob sample_reconciler sample_config double_workbench ''1'' (sample_app ''kitty'' AppRunning)
     (initService double_workbench) (NewStorageManager sample_config)"

lemma double_run_evaluated:
  "case run_state double_run (start double_cluster) of (out, s) \<Rightarrow> \<not> isl out \<and> juicefs_secret_found (hd (sys_trace s))"
  by code_simp

theorem two_storages_break_pod_witness:
  "\<exists>j. result_of double_run double_cluster = Inr j \<and> \<not> pod_spec_ok (job_spec j) \<and>
     list_all (\<lambda>c. app_data_mounts c = 2) (sp_init_containers (job_spec j) @ sp_containers (job_spec j))"
proof -
  obtain j where j: "result_of double_run double_cluster = Inr j"
    and secret: "juicefs_secret_found (hd (calls_of double_run double_cluster))"
    using double_run_evaluated unfolding case_prod_beta isl_def by (metis sum.exhaust)
  have "two_app_data sample_config double_workbench" by code_simp
  then show ?thesis
    using two_storages_break_pod [of sample_reconciler double_workbench "''1''"] j secret by auto
qed

text \<open>C14: The job of an application stays in its namespace: the object is in the namespace of the
  workbench, its volumes are scratch space or claims of enabled providers for that namespace, and
  every mount of a claim is below \<open>workspaces/<namespace>/\<close>.\<close>

theorem app_pod_confined:
  assumes "result_of (initJob r cfg w uid app svc (NewStorageManager cfg)) x = Inr j"
  shows "confined_job (wb_namespace w) (GetEnabledProviders (NewStorageManager cfg) w) j"
  by (rule initJob_built [OF assms]) (simp only: build_job_confined)

theorem app_pod_confined_witness:
  "confined_job ''ns1'' (GetEnabledProviders (NewStorageManager sample_config) live_workbench) built_job"
  using app_pod_confined [OF built_job_built] by simp

text \<open>C15: Elevated privileges exist in debug mode only. Outside of it the container of an application
  runs hardened (as the user of the workbench, not root, no escalation, no capability), in it
  privileged, and the same switch decides for the Xpra server; the init container is never privileged
  and keeps at most five capabilities.\<close>

theorem privileges_only_in_debug:
  "(list_all (hardened (srv_user_id (ws_server (wb_spec w))))
      (sp_containers (job_spec (build_job cfg w uid app svc vs ms))) \<longleftrightarrow> \<not> cfg_debug cfg) \<and>
   (list_ex privileged (sp_containers (job_spec (build_job cfg w uid app svc vs ms))) \<longleftrightarrow> cfg_debug cfg) \<and>
   list_all restricted_root (sp_init_containers (job_spec (build_job cfg w uid app svc vs ms))) \<and>
   (list_ex privileged (init_containers_of (initDeployment w cfg) @ containers_of (initDeployment w cfg)) \<longleftrightarrow>
      cfg_debug cfg)"
  by (intro conjI build_job_privileges)
     (simp add: privileged_def sidecar_container_def server_container_def new_container_def
       buildSecurityContext_def debug_security_def)

definition port_resolves :: "pod_spec \<Rightarrow> service_port \<Rightarrow> bool" where
  "port_resolves p sp \<longleftrightarrow> list_ex (\<lambda>cp. cp_port cp = spt_port sp \<and>
     (case spt_target sp of FromString n \<Rightarrow> cp_name cp = n | FromInt i \<Rightarrow> cp_port cp = i))
     (concat (map ct_ports (sp_init_containers p @ sp_containers p)))"

text \<open>C27: An application whose job cannot be built does not end the run: the loop goes on with no name
  kept for it, and its status becomes failed, with a status update unless it was failed already.\<close>

theorem app_failure_isolated:
  assumes "run_state (initJob r (rc_config r) w uid app svc sm) s = (Inl e, s1)"
  shows "\<exists>w'. fst (run_state (reconcile_app r svc sm uid app w) s) = Inr (w', []) \<and>
    map_option ae_status (map_get (wb_app_entries (snd (SetAppStatusFailed uid w))) uid) = Some AppFailed \<and>
    (\<exists>u. sys_trace (snd (run_state (reconcile_app r svc sm uid app w) s)) = sys_trace s1 @
       (if snd (SetAppStatusFailed uid w) = w then [] else [UpdatedStatus (snd (SetAppStatusFailed uid w)) u]))"
proof -
  have flag: "fst (SetAppStatusFailed uid w) \<longleftrightarrow> snd (SetAppStatusFailed uid w) \<noteq> w"
    by (rule failed_status.flag_iff_changed)
  show ?thesis
    using assms flag SetAppStatusFailed_entry [of uid w]
    by (cases "SetAppStatusFailed uid w") (auto simp: reconcile_app_def write_status_def UpdateStatus_def)
qed

theorem app_failure_isolated_witness:
  "\<exists>w'. fst (run_state (reconcile_app sample_reconciler (initService live_workbench) (NewStorageManager sample_config) ''1''
     ((sample_app ''kitty'' AppRunning)\<lparr>app_image := None\<rparr>) live_workbench) (start (sample_cluster [live_workbench]))) =
     Inr (w', [])"
proof -
  let ?run = "run_state (initJob sample_reconciler sample_config live_workbench ''1''
     ((sample_app ''kitty'' AppRunning)\<lparr>app_image := None\<rparr>) (initService live_workbench)
     (NewStorageManager sample_config)) (start (sample_cluster [live_workbench]))"
  have "fst ?run = Inl (ImageMissing ''kitty'')" by code_simp
  then have "?run = (Inl (ImageMissing ''kitty''), snd ?run)" by (simp add: prod_eq_iff)
  then show ?thesis using app_failure_isolated [of sample_reconciler live_workbench "''1''"] by simp
qed

text \<open>C31: The service reaches the Xpra server: its selector and the selector of the deployment match
  the labels of the server's pods, and every port of the service leads to the port of that number of
  one of the containers. Display 80, which the applications are given, is the port of the X11 socket.\<close>

theorem service_reaches_server:
  "list_all (\<lambda>(l, v). map_get (pt_labels (dep_template (initDeployment w cfg))) l = Some v)
     (svc_selector (initService w)) \<and>
   dep_selector (initDeployment w cfg) = Some (svc_selector (initService w)) \<and>
   svc_ports (initService w) \<noteq> [] \<and>
   list_all (port_resolves (dep_spec (initDeployment w cfg))) (svc_ports (initService w)) \<and>
   list_ex (\<lambda>sp. spt_port sp = 6000 + 80) (svc_ports (initService w)) \<and>
   display_of (initService w) = wb_name w @ ''.'' @ wb_namespace w @ '':80''"
  by (simp add: initService_def initDeployment_def Let_def port_resolves_def sidecar_container_def
      server_container_def new_container_def display_of_def map_get_def)

text \<open>C34: A pass of \<open>Reconcile\<close> over a live workbench that ends normally deletes every job that carries the
  workbench's label and has not the name of one of its applications: those that were there at the start, in
  whichever namespace, and those that the pass created itself, as it does to prepare the directories of
  a storage. (During the pass nobody else removes or relabels jobs.)\<close>

theorem labelled_job_swept:
  assumes "owner_laws (rc_platform r)" "status_laws (rc_platform r)" "update_laws (rc_platform r)"
    and jobs: "undisturbed_jobs (rc_platform r) v"
    and read: "hd (calls_of (Reconcile r k) x) = GotWorkbench k (Inr w)" and "\<not> being_deleted w"
    and "result_of (Reconcile r k) x = Finished 0"
    and j: "has_labels (own_labels w) (job_meta j)" "job_name j \<notin> app_job_names w"
    and there: "j \<in> set (v x) \<or> CreatedJob j (Inr ()) \<in> set (calls_of (Reconcile r k) x)"
  shows "\<exists>j'. same_job j j' \<and> DeletedJob j' (Inr ()) \<in> set (calls_of (Reconcile r k) x)"
proof -
  obtain g cs where run: "calls_of (Reconcile r k) x = GotWorkbench k g # cs"
    and swept: "g = Inr w \<Longrightarrow> swept_pass w cs"
    using emits_start [OF Reconcile_sweeps [OF assms(1-3)], of k x] assms(6,7) by blast
  have "g = Inr w" using run read by simp
  then have "\<exists>j'. same_job j j' \<and> DeletedJob j' (Inr ()) \<in> set cs"
    using swept_pass_deletes [OF jobs Reconcile_replays [of r x k, unfolded run] swept j] there run by simp
  then show ?thesis by (simp add: run)
qed

theorem labelled_job_swept_witness:
  "\<exists>j'. same_job (sample_job ''wb-2-gimp'' ''ns2'') j' \<and>
     DeletedJob j' (Inr ()) \<in> set (calls_of (Reconcile sample_reconciler sample_key) other_cluster)"
proof -
  have "result_of (Reconcile sample_reconciler sample_key) other_cluster = Finished 0"
    "hd (calls_of (Reconcile sample_reconciler sample_key) other_cluster) = GotWorkbench sample_key (Inr live_workbench)"
    using other_run unfolding case_prod_beta by blast+
  moreover have "has_labels (own_labels live_workbench) (job_meta (sample_job ''wb-2-gimp'' ''ns2''))"
    "job_name (sample_job ''wb-2-gimp'' ''ns2'') \<notin> app_job_names live_workbench"
    by code_simp+
  moreover have "sample_job ''wb-2-gimp'' ''ns2'' \<in> set (cl_jobs other_cluster)" by (simp add: other_cluster_def)
  ultimately show ?thesis
    using labelled_job_swept [of sample_reconciler cl_jobs sample_key other_cluster live_workbench]
    by (simp add: memory_owner_laws memory_status_laws memory_update_laws memory_undisturbed_jobs)
qed

section \<open>Bounds, types and causes of one call\<close>

text \<open>C36: One call of \<open>Reconcile\<close> makes at most 38 calls to the outside world, seven for each
  application of the workbench and one for each job it lists: it never waits or retries.\<close>

theorem calls_are_bounded:
  assumes "status_laws (rc_platform r)" "update_laws (rc_platform r)"
    and "hd (calls_of (Reconcile r k) x) = GotWorkbench k (Inr w)"
  shows "length (calls_of (Reconcile r k) x) \<le>
    38 + 7 * length (wb_apps w) + listed_count (calls_of (Reconcile r k) x)"
proof -
  obtain g tl where run: "calls_of (Reconcile r k) x = GotWorkbench k g # tl"
    and cost: "case g of Inl _ \<Rightarrow> tl = [] | Inr w \<Rightarrow> length tl \<le> 37 + 7 * length (wb_apps w) + listed_count tl"
    using emits_start [OF Reconcile_cost [OF assms(1,2)], of k x] by blast
  have "g = Inr w" using run assms(3) by simp
  then show ?thesis using cost run by simp
qed

theorem calls_are_bounded_witness:
  "length (calls_of (Reconcile sample_reconciler sample_key) (sample_cluster [live_workbench])) \<le>
     45 + listed_count (calls_of (Reconcile sample_reconciler sample_key) (sample_cluster [live_workbench]))"
proof -
  have "length (wb_apps live_workbench) = 1" by code_simp
  then show ?thesis
    using calls_are_bounded [of sample_reconciler sample_key "sample_cluster [live_workbench]" live_workbench]
    by (simp add: sample_run_facts memory_status_laws memory_update_laws)
qed





section \<open>What modelling showed\<close>

text \<open>
  Runs on the reference cluster that exhibit behaviour the documentation rules out or that
  the code does not seem to intend.
\<close>

definition is_deletion_of :: "string \<Rightarrow> string \<Rightarrow> call \<Rightarrow> bool" where
  "is_deletion_of n ns c = (case c of DeletedJob j _ \<Rightarrow> job_name j = n \<and> job_namespace j = ns | _ \<Rightarrow> False)"

text \<open>The job of a workbench with the same name in another namespace is removed as an extra job.\<close>

lemma foreign_job_swept:
  "list_ex (is_deletion_of ''wb-2-gimp'' ''ns2'') (calls_of (Reconcile sample_reconciler sample_key) other_cluster)"
  by code_simp

text \<open>The job that prepares the directories of a storage carries the workbench's label and is removed
  in the pass that creates it.\<close>

lemma setup_job_swept:
  "list_ex (is_deletion_of ''local-mkdir-ns1'' ''ns1'')
     (calls_of (Reconcile sample_reconciler sample_key) (sample_cluster [live_workbench]))"
  by code_simp

text \<open>With the secret of the object storage but not its driver, no claim is created, and the job
  mounts it all the same.\<close>

definition driverless_workbench :: workbench where
  "driverless_workbench = live_workbench\<lparr>wb_spec := (wb_spec live_workbench)
     \<lparr>ws_storage := Some \<lparr>st_s3 = True, st_nfs = False, st_local = False\<rparr>\<rparr>\<rparr>"

definition driverless_cluster :: cluster where
  "driverless_cluster = (sample_cluster [driverless_workbench])
     \<lparr>cl_secrets := [\<lparr>sec_meta = new_meta ''juicefs-secret'' ''kube-system'' [], sec_data = [(''name'', ''fs'')]\<rparr>]\<rparr>"

definition mounts_claim :: "string \<Rightarrow> call \<Rightarrow> bool" where
  "mounts_claim n c = (case c of
       CreatedJob j _ \<Rightarrow> list_ex (\<lambda>v. vol_source v = ClaimSource n) (sp_volumes (job_spec j)) | _ \<Rightarrow> False)"

lemma missing_claim_mounted:
  "list_ex (mounts_claim ''ns1-archive-pvc'')
     (calls_of (Reconcile sample_reconciler sample_key) driverless_cluster) \<and>
   list_all (\<lambda>c. \<not> is_created_claim c) (calls_of (Reconcile sample_reconciler sample_key) driverless_cluster)"
  by code_simp

end
